(* ===== verification/Prelude.thy ===== *)
theory Prelude
  imports Main "HOL-Library.Word"
begin

unbundle bit_operations_syntax

text \<open>
  Shared vocabulary of the gateway development: the machine integer types of the C++ code,
  big- and little-endian splitting of 16-bit words, decimal printing as done by
  \<open>std::to_string\<close> and \<open>operator<<\<close>, and the collections of facts the component proofs use.
\<close>

section \<open>Machine integers\<close>

type_synonym u8 = "8 word"
type_synonym u16 = "16 word"
type_synonym u32 = "32 word"
type_synonym u64 = "64 word"

named_theorems gw_refine \<open>what an operation does to the abstract view of its state\<close>
named_theorems gw_invar \<open>preservation of well-formedness by the operations\<close>
named_theorems gw_bytes \<open>splitting and joining of multi-byte fields\<close>

lemma unat_u8_less: "unat (b :: u8) < 256"
  using unsigned_less [of b, where 'a = nat] by simp

lemma unat_u16_less: "unat (w :: u16) < 65536"
  using unsigned_less [of w, where 'a = nat] by simp

lemma unat_ucast_u8_u16 [simp]: "unat (ucast (b :: u8) :: u16) = unat b"
  using unat_u8_less [of b] by (simp add: unsigned_ucast_eq take_bit_nat_eq_self)

section \<open>Two-byte fields\<close>

definition word_of_be :: "u8 \<Rightarrow> u8 \<Rightarrow> u16" where
  "word_of_be hi lo = push_bit 8 (ucast hi) OR ucast lo"

definition high_byte :: "u16 \<Rightarrow> u8" where
  "high_byte w = ucast (drop_bit 8 w)"

definition low_byte :: "u16 \<Rightarrow> u8" where
  "low_byte w = ucast (w AND 0xFF)"

lemma bit_word_of_be [simp]:
  "bit (word_of_be hi lo) n \<longleftrightarrow> (if n < 8 then bit lo n else n < 16 \<and> bit hi (n - 8))"
  by (auto simp: word_of_be_def bit_or_iff bit_push_bit_iff bit_ucast_iff dest: bit_imp_le_length)

lemma mask8_u16: "(0xFF :: u16) = mask 8"
  by (simp add: mask_eq_exp_minus_1)

lemma bit_low_byte [simp]: "bit (low_byte w) n \<longleftrightarrow> n < 8 \<and> bit w n"
  by (auto simp: low_byte_def mask8_u16 bit_ucast_iff bit_and_iff bit_mask_iff)

lemma bit_high_byte [simp]: "bit (high_byte w) n \<longleftrightarrow> n < 8 \<and> bit w (n + 8)"
  by (auto simp: high_byte_def bit_ucast_iff bit_drop_bit_eq add.commute)

lemma word_of_be_bytes [simp, gw_bytes]: "word_of_be (high_byte w) (low_byte w) = w"
  by (rule bit_word_eqI) auto

lemma high_byte_word_of_be [simp, gw_bytes]: "high_byte (word_of_be hi lo) = hi"
  by (rule bit_word_eqI) auto

lemma low_byte_word_of_be [simp, gw_bytes]: "low_byte (word_of_be hi lo) = lo"
  by (rule bit_word_eqI) auto

lemma unat_word_of_be: "unat (word_of_be hi lo) = 256 * unat hi + unat lo"
proof -
  have "push_bit 8 (ucast hi) AND (ucast lo :: u16) = 0"
    by (rule bit_word_eqI)
      (auto simp: bit_and_iff bit_push_bit_iff bit_ucast_iff dest: bit_imp_le_length)
  then have "word_of_be hi lo = push_bit 8 (ucast hi) + ucast lo"
    by (simp add: word_of_be_def disjunctive_add_eq_or)
  also have "unat \<dots> = 256 * unat hi + unat lo"
    using unat_u8_less [of hi] unat_u8_less [of lo]
    by (simp add: push_bit_eq_mult unat_word_ariths)
  finally show ?thesis .
qed

section \<open>Decimal printing\<close>

definition digit_char :: "nat \<Rightarrow> char" where
  "digit_char d = char_of (48 + d)"

fun nat_to_dec :: "nat \<Rightarrow> string" where
  "nat_to_dec n =
     (if n < 10 then [digit_char n] else nat_to_dec (n div 10) @ [digit_char (n mod 10)])"

declare nat_to_dec.simps [simp del]

definition int_to_dec :: "int \<Rightarrow> string" where
  "int_to_dec i = (if i < 0 then ''-'' @ nat_to_dec (nat (- i)) else nat_to_dec (nat i))"

definition bool_to_text :: "bool \<Rightarrow> string" where
  "bool_to_text b = (if b then ''true'' else ''false'')"

text \<open>The number a string of decimal digits denotes; only used to state what printing keeps.\<close>

definition dec_value :: "string \<Rightarrow> nat" where
  "dec_value s = foldl (\<lambda>a c. 10 * a + (of_char c - 48)) 0 s"

definition is_digit :: "char \<Rightarrow> bool" where
  "is_digit c \<longleftrightarrow> 48 \<le> (of_char c :: nat) \<and> (of_char c :: nat) \<le> 57"

lemma of_char_digit_char [simp]: "d < 10 \<Longrightarrow> of_char (digit_char d) = (48 + d :: nat)"
  by (simp add: digit_char_def)

lemma is_digit_digit_char [simp]: "d < 10 \<Longrightarrow> is_digit (digit_char d)"
  by (simp add: is_digit_def)

lemma digit_char_lits:
  "digit_char 0 = CHR ''0''" "digit_char 1 = CHR ''1''" "digit_char 2 = CHR ''2''"
  "digit_char 3 = CHR ''3''" "digit_char 4 = CHR ''4''" "digit_char 5 = CHR ''5''"
  "digit_char 6 = CHR ''6''" "digit_char 7 = CHR ''7''" "digit_char 8 = CHR ''8''"
  "digit_char 9 = CHR ''9''" "digit_char (Suc 0) = CHR ''1''"
  by (simp_all add: digit_char_def char_of_def bit_0)

lemmas dec_eval = nat_to_dec.simps digit_char_lits

lemma nat_to_dec_digits: "c \<in> set (nat_to_dec n) \<Longrightarrow> is_digit c"
proof (induction n rule: nat_to_dec.induct)
  case (1 n)
  then show ?case
    by (cases "n < 10") (auto simp: nat_to_dec.simps [of n])
qed

lemma nat_to_dec_not_Nil [simp]: "nat_to_dec n \<noteq> []"
  by (subst nat_to_dec.simps) simp

lemma dec_value_snoc [simp]: "dec_value (s @ [c]) = 10 * dec_value s + (of_char c - 48)"
  by (simp add: dec_value_def)

lemma dec_value_Nil [simp]: "dec_value [] = 0"
  by (simp add: dec_value_def)

lemma dec_value_nat_to_dec [simp]: "dec_value (nat_to_dec n) = n"
proof (induction n rule: nat_to_dec.induct)
  case (1 n)
  show ?case
  proof (cases "n < 10")
    case True
    then show ?thesis
      using dec_value_snoc [of "[]" "digit_char n"] by (simp add: nat_to_dec.simps [of n])
  next
    case False
    with "1.IH" show ?thesis by (simp add: nat_to_dec.simps [of n])
  qed
qed

lemma length_nat_to_dec: "n < 10 ^ k \<Longrightarrow> 0 < k \<Longrightarrow> length (nat_to_dec n) \<le> k"
proof (induction k arbitrary: n)
  case (Suc k)
  show ?case
  proof (cases "n < 10")
    case False
    with Suc.prems have "n div 10 < 10 ^ k" "0 < k" by (cases k; simp)+
    with Suc.IH False show ?thesis by (simp add: nat_to_dec.simps [of n])
  qed (simp add: nat_to_dec.simps)
qed simp

lemma nat_to_dec_inject [simp]: "nat_to_dec m = nat_to_dec n \<longleftrightarrow> m = n"
  by (metis dec_value_nat_to_dec)

section \<open>Printable text\<close>

text \<open>Printable ASCII: no tab, no line break, no other control character.\<close>

definition printable :: "string \<Rightarrow> bool" where
  "printable s \<longleftrightarrow> list_all (\<lambda>c. 32 \<le> (of_char c :: nat) \<and> (of_char c :: nat) < 127) s"

lemma printable_Nil [simp]: "printable []"
  by (simp add: printable_def)

lemma printable_Cons [simp]:
  "printable (c # s) \<longleftrightarrow> 32 \<le> (of_char c :: nat) \<and> (of_char c :: nat) < 127 \<and> printable s"
  by (simp add: printable_def)

lemma printable_append [simp]: "printable (s @ t) \<longleftrightarrow> printable s \<and> printable t"
  by (simp add: printable_def)

lemma printable_digits: "(\<And>c. c \<in> set s \<Longrightarrow> is_digit c) \<Longrightarrow> printable s"
  by (fastforce simp: printable_def is_digit_def list_all_iff)

lemma printable_nat_to_dec [simp]: "printable (nat_to_dec n)"
  by (rule printable_digits) (rule nat_to_dec_digits)

section \<open>Lines of text\<close>

definition newline :: char where "newline = CHR 0x0A"
definition tab :: char where "tab = CHR 0x09"

text \<open>Repeated \<open>std::getline\<close>: the lines of a text; an unterminated last line counts if it is not empty.\<close>

fun getlines :: "string \<Rightarrow> string \<Rightarrow> string list" where
  "getlines acc [] = (if acc = [] then [] else [acc])"
| "getlines acc (c # cs) = (if c = newline then acc # getlines [] cs else getlines (acc @ [c]) cs)"

definition line_of :: "string \<Rightarrow> string" where
  "line_of s = s @ [newline]"

definition text_of_lines :: "string list \<Rightarrow> string" where
  "text_of_lines ls = concat (map line_of ls)"

lemma text_of_lines_simps [simp]:
  "text_of_lines [] = []" "text_of_lines (l # ls) = l @ newline # text_of_lines ls"
  "text_of_lines (xs @ ys) = text_of_lines xs @ text_of_lines ys"
  by (simp_all add: text_of_lines_def line_of_def)

lemma getlines_line: "newline \<notin> set l \<Longrightarrow> getlines acc (l @ newline # cs) = (acc @ l) # getlines [] cs"
  by (induction l arbitrary: acc) auto

lemma getlines_text [simp]:
  "list_all (\<lambda>l. newline \<notin> set l) ls \<Longrightarrow> getlines [] (text_of_lines ls @ rest) = ls @ getlines [] rest"
  by (induction ls) (simp_all add: getlines_line)

lemma getlines_all:
  "list_all (\<lambda>l. newline \<notin> set l) ls \<Longrightarrow> getlines [] (text_of_lines ls) = ls"
  using getlines_text [of ls "[]"] by simp

lemma printable_no_control [simp]: "printable s \<Longrightarrow> newline \<notin> set s" "printable s \<Longrightarrow> tab \<notin> set s"
  "printable s \<Longrightarrow> CHR 0x0D \<notin> set s"
  by (auto simp: printable_def list_all_iff newline_def tab_def)

end
