(* ===== verification/ByteRingBuffer.thy ===== *)
theory ByteRingBuffer
  imports Prelude
begin

text \<open>
  The fixed-capacity byte queue of \<^verbatim>\<open>src/src/protocol/byte_ring_buffer.h\<close>: a storage
  array, the index of the oldest byte and the number of valid bytes. Sizes are natural numbers
  (\<open>head_ + size_\<close> stays below twice the capacity, far from the width of \<open>size_t\<close>); a thrown
  \<open>std::out_of_range\<close> is the result \<^term>\<open>None\<close>. The locale \<open>byte_fifo\<close> is what the frame
  parser relies on: a list of bytes with FIFO operations.
\<close>

section \<open>State and operations\<close>

record ring_buffer =
  storage :: "u8 list"
  head :: nat
  rb_size :: nat

definition ring_buffer_init :: "nat \<Rightarrow> ring_buffer" where
  "ring_buffer_init cap = \<lparr>storage = replicate cap 0, head = 0, rb_size = 0\<rparr>"

definition capacity :: "ring_buffer \<Rightarrow> nat" where
  "capacity rb = length (storage rb)"

definition rb_push :: "ring_buffer \<Rightarrow> u8 \<Rightarrow> bool \<times> ring_buffer" where
  "rb_push rb byte =
     (if rb_size rb = capacity rb then (False, rb)
      else
        let tail = (head rb + rb_size rb) mod capacity rb
        in (True, rb\<lparr>storage := (storage rb)[tail := byte], rb_size := rb_size rb + 1\<rparr>))"

fun rb_push_bytes :: "ring_buffer \<Rightarrow> u8 list \<Rightarrow> nat \<times> ring_buffer" where
  "rb_push_bytes rb [] = (0, rb)"
| "rb_push_bytes rb (b # bs) =
     (case rb_push rb b of
        (True, rb') \<Rightarrow> (case rb_push_bytes rb' bs of (n, rb'') \<Rightarrow> (Suc n, rb''))
      | (False, rb') \<Rightarrow> (0, rb'))"

definition rb_consume :: "ring_buffer \<Rightarrow> nat \<Rightarrow> ring_buffer" where
  "rb_consume rb count =
     (let consumed = (if count < rb_size rb then count else rb_size rb)
      in rb\<lparr>head := (head rb + consumed) mod capacity rb, rb_size := rb_size rb - consumed\<rparr>)"

definition rb_at :: "ring_buffer \<Rightarrow> nat \<Rightarrow> u8 option" where
  "rb_at rb index =
     (if rb_size rb \<le> index then None
      else Some (storage rb ! ((head rb + index) mod capacity rb)))"

definition rb_copy :: "ring_buffer \<Rightarrow> nat \<Rightarrow> nat \<Rightarrow> u8 list option" where
  "rb_copy rb offset len =
     (if rb_size rb < offset \<or> rb_size rb - offset < len then None
      else those (map (\<lambda>index. rb_at rb (offset + index)) [0..<len]))"

definition rb_clear :: "ring_buffer \<Rightarrow> ring_buffer" where
  "rb_clear rb = rb\<lparr>head := 0, rb_size := 0\<rparr>"

definition rb_empty :: "ring_buffer \<Rightarrow> bool" where
  "rb_empty rb \<longleftrightarrow> rb_size rb = 0"

definition rb_full :: "ring_buffer \<Rightarrow> bool" where
  "rb_full rb \<longleftrightarrow> rb_size rb = capacity rb"

section \<open>The queue a ring buffer stands for\<close>

definition rb_contents :: "ring_buffer \<Rightarrow> u8 list" where
  "rb_contents rb = map (\<lambda>i. storage rb ! ((head rb + i) mod capacity rb)) [0..<rb_size rb]"

definition rb_invar :: "ring_buffer \<Rightarrow> bool" where
  "rb_invar rb \<longleftrightarrow> 0 < capacity rb \<and> head rb < capacity rb \<and> rb_size rb \<le> capacity rb"

lemma length_rb_contents [simp]: "length (rb_contents rb) = rb_size rb"
  by (simp add: rb_contents_def)

lemma nth_rb_contents:
  "i < rb_size rb \<Longrightarrow> rb_contents rb ! i = storage rb ! ((head rb + i) mod capacity rb)"
  by (simp add: rb_contents_def)

lemma capacity_ops [simp]:
  "capacity (rb_consume rb n) = capacity rb"
  "capacity (rb_clear rb) = capacity rb"
  "capacity (snd (rb_push rb b)) = capacity rb"
  by (simp_all add: capacity_def rb_consume_def rb_clear_def rb_push_def Let_def)

lemma rb_size_consume [simp]: "rb_size (rb_consume rb n) = rb_size rb - n"
  by (simp add: rb_consume_def Let_def)

lemma mod_offset_inj:
  fixes h i j c :: nat
  assumes "(h + i) mod c = (h + j) mod c" "i < c" "j < c"
  shows "i = j"
  using assms
proof (induction i j rule: linorder_wlog)
  case (le i j)
  then have "c dvd (h + j) - (h + i)"
    by (metis add_le_cancel_left mod_eq_dvd_iff_nat)
  moreover have "(h + j) - (h + i) < c" using le by simp
  ultimately have "j - i = 0"
    using nat_dvd_not_less [of "j - i" c] by (cases "j - i = 0") auto
  with le show ?case by simp
next
  case (sym i j)
  then show ?case by simp
qed

lemma rb_push_full: "rb_size rb = capacity rb \<Longrightarrow> rb_push rb b = (False, rb)"
  by (simp add: rb_push_def)

lemma rb_push_contents:
  assumes inv: "rb_invar rb" and room: "rb_size rb < capacity rb"
    and push: "rb_push rb b = (ok, rb')"
  shows "ok" "rb_invar rb'" "rb_contents rb' = rb_contents rb @ [b]" "capacity rb' = capacity rb"
proof -
  let ?tail = "(head rb + rb_size rb) mod capacity rb"
  have rb': "rb' = rb\<lparr>storage := (storage rb)[?tail := b], rb_size := rb_size rb + 1\<rparr>" and ok
    using push room by (auto simp: rb_push_def Let_def)
  then show "ok" "capacity rb' = capacity rb" by (simp_all add: capacity_def)
  show "rb_invar rb'"
    using inv room rb' by (simp add: rb_invar_def capacity_def)
  have tail: "?tail < length (storage rb)"
    using inv by (simp add: rb_invar_def capacity_def)
  show "rb_contents rb' = rb_contents rb @ [b]"
  proof (rule nth_equalityI)
    show "length (rb_contents rb') = length (rb_contents rb @ [b])"
      by (simp add: rb')
  next
    fix i
    assume "i < length (rb_contents rb')"
    then have i: "i < Suc (rb_size rb)" by (simp add: rb')
    then have "rb_contents rb' ! i = (storage rb)[?tail := b] ! ((head rb + i) mod capacity rb)"
      by (subst nth_rb_contents) (simp_all add: rb' capacity_def)
    moreover have "?tail = (head rb + i) mod capacity rb \<longleftrightarrow> i = rb_size rb"
      using i room by (auto dest: mod_offset_inj)
    ultimately show "rb_contents rb' ! i = (rb_contents rb @ [b]) ! i"
      using i tail by (auto simp: nth_append nth_rb_contents less_Suc_eq)
  qed
qed

lemma rb_consume_contents:
  assumes "rb_invar rb"
  shows "rb_invar (rb_consume rb n)" "rb_contents (rb_consume rb n) = drop n (rb_contents rb)"
proof -
  show "rb_invar (rb_consume rb n)"
    using assms by (auto simp: rb_invar_def capacity_def rb_consume_def Let_def)
  show "rb_contents (rb_consume rb n) = drop n (rb_contents rb)"
  proof (rule nth_equalityI)
    show "length (rb_contents (rb_consume rb n)) = length (drop n (rb_contents rb))" by simp
  next
    fix i
    assume "i < length (rb_contents (rb_consume rb n))"
    then have i: "n + i < rb_size rb" by simp
    then have "head (rb_consume rb n) = (head rb + n) mod capacity rb"
      by (simp add: rb_consume_def Let_def)
    with i show "rb_contents (rb_consume rb n) ! i = drop n (rb_contents rb) ! i"
      by (simp add: nth_rb_contents mod_add_left_eq add.assoc)
        (simp add: rb_consume_def Let_def)
  qed
qed

lemma rb_at_contents:
  "rb_at rb i = (if i < length (rb_contents rb) then Some (rb_contents rb ! i) else None)"
  by (simp add: rb_at_def nth_rb_contents)

lemma rb_clear_contents:
  assumes "rb_invar rb"
  shows "rb_invar (rb_clear rb)" "rb_contents (rb_clear rb) = []"
  using assms by (auto simp: rb_invar_def capacity_def rb_clear_def rb_contents_def)

lemma ring_buffer_init_contents:
  assumes "0 < cap"
  shows "rb_invar (ring_buffer_init cap)" "rb_contents (ring_buffer_init cap) = []"
    "capacity (ring_buffer_init cap) = cap"
  using assms by (auto simp: rb_invar_def capacity_def ring_buffer_init_def rb_contents_def)

section \<open>The interface: a bounded byte queue\<close>

lemma those_map_Some [simp]: "those (map (\<lambda>x. Some (f x)) xs) = Some (map f xs)"
  by (induction xs) auto

locale byte_fifo =
  fixes invar :: "'q \<Rightarrow> bool"
    and contents :: "'q \<Rightarrow> u8 list"
    and cap :: "'q \<Rightarrow> nat"
    and push :: "'q \<Rightarrow> u8 \<Rightarrow> bool \<times> 'q"
    and push_bytes :: "'q \<Rightarrow> u8 list \<Rightarrow> nat \<times> 'q"
    and consume :: "'q \<Rightarrow> nat \<Rightarrow> 'q"
    and at :: "'q \<Rightarrow> nat \<Rightarrow> u8 option"
    and copy :: "'q \<Rightarrow> nat \<Rightarrow> nat \<Rightarrow> u8 list option"
  assumes bounded: "invar q \<Longrightarrow> length (contents q) \<le> cap q"
    and cap_pos: "invar q \<Longrightarrow> 0 < cap q"
    and push_full: "invar q \<Longrightarrow> length (contents q) = cap q \<Longrightarrow> push q b = (False, q)"
    and push_room: "invar q \<Longrightarrow> length (contents q) < cap q \<Longrightarrow> push q b = (ok, q') \<Longrightarrow>
      ok \<and> invar q' \<and> contents q' = contents q @ [b] \<and> cap q' = cap q"
    and push_bytes_rec: "push_bytes q bs =
      (case bs of [] \<Rightarrow> (0, q)
       | b # bs' \<Rightarrow> (case push q b of
           (True, q') \<Rightarrow> (case push_bytes q' bs' of (n, q'') \<Rightarrow> (Suc n, q''))
         | (False, q') \<Rightarrow> (0, q')))"
    and consume_invar: "invar q \<Longrightarrow> invar (consume q n)"
    and consume_cap: "cap (consume q n) = cap q"
    and consume_contents: "invar q \<Longrightarrow> contents (consume q n) = drop n (contents q)"
    and at_contents: "invar q \<Longrightarrow>
      at q i = (if i < length (contents q) then Some (contents q ! i) else None)"
    and copy_at: "invar q \<Longrightarrow> copy q off n =
      (if length (contents q) < off \<or> length (contents q) - off < n then None
       else those (map (\<lambda>i. at q (off + i)) [0..<n]))"
begin

lemma copy_contents:
  assumes "invar q"
  shows "copy q off n =
    (if off + n \<le> length (contents q) then Some (take n (drop off (contents q))) else None)"
proof (cases "off + n \<le> length (contents q)")
  case True
  then have "map (\<lambda>i. at q (off + i)) [0..<n] = map (\<lambda>i. Some (contents q ! (off + i))) [0..<n]"
    using assms by (intro map_cong) (auto simp: at_contents)
  moreover have "map (\<lambda>i. contents q ! (off + i)) [0..<n] = take n (drop off (contents q))"
    using True by (intro nth_equalityI) auto
  ultimately have "those (map (\<lambda>i. at q (off + i)) [0..<n]) = Some (take n (drop off (contents q)))"
    by (simp only: those_map_Some)
  then show ?thesis using assms True by (simp add: copy_at)
next
  case False
  then show ?thesis using assms by (auto simp: copy_at)
qed

text \<open>The overwriting push of the parser: on a full queue, drop the oldest byte and push again.\<close>

lemma push_evicting:
  assumes "invar q" "length (contents q) = cap q" "push (consume q 1) b = (ok, q')"
  shows "invar q' \<and> contents q' = tl (contents q) @ [b] \<and> cap q' = cap q"
proof -
  have "length (contents (consume q 1)) < cap (consume q 1)"
    using assms cap_pos [of q] by (simp add: consume_contents consume_cap)
  with push_room [OF consume_invar [OF assms(1)] _ assms(3)] show ?thesis
    using assms by (simp add: consume_contents consume_cap drop_Suc)
qed

lemma push_bytes_contents:
  assumes "invar q" "push_bytes q bs = (n, q')"
  shows "n = min (length bs) (cap q - length (contents q)) \<and> invar q' \<and> cap q' = cap q
    \<and> contents q' = contents q @ take n bs"
  using assms
proof (induction bs arbitrary: q n)
  case Nil
  then show ?case by (simp add: push_bytes_rec [of q "[]"])
next
  case (Cons b bs)
  show ?case
  proof (cases "length (contents q) = cap q")
    case True
    with Cons.prems push_full [of q b] show ?thesis
      by (simp add: push_bytes_rec [of q "b # bs"])
  next
    case False
    with bounded [OF Cons.prems(1)] have room: "length (contents q) < cap q" by simp
    obtain ok q1 where push: "push q b = (ok, q1)" by fastforce
    obtain m q2 where rest: "push_bytes q1 bs = (m, q2)" by fastforce
    note q1 = push_room [OF Cons.prems(1) room push]
    have "n = Suc m" "q' = q2"
      using Cons.prems(2) q1 push rest by (simp_all add: push_bytes_rec [of q "b # bs"])
    with Cons.IH [of q1 m] q1 rest room show ?thesis by (auto simp: min_def)
  qed
qed

end

interpretation rb: byte_fifo rb_invar rb_contents capacity rb_push rb_push_bytes rb_consume rb_at rb_copy
proof unfold_locales
  fix q ok q' bs b and i n off :: nat
  show "rb_invar q \<Longrightarrow> length (rb_contents q) \<le> capacity q" by (simp add: rb_invar_def)
  show "rb_invar q \<Longrightarrow> 0 < capacity q" by (simp add: rb_invar_def)
  show "rb_invar q \<Longrightarrow> length (rb_contents q) = capacity q \<Longrightarrow> rb_push q b = (False, q)"
    by (simp add: rb_push_full)
  show "rb_invar q \<Longrightarrow> length (rb_contents q) < capacity q \<Longrightarrow> rb_push q b = (ok, q') \<Longrightarrow>
      ok \<and> rb_invar q' \<and> rb_contents q' = rb_contents q @ [b] \<and> capacity q' = capacity q"
    using rb_push_contents [of q b ok q'] by simp
  show "rb_push_bytes q bs = (case bs of [] \<Rightarrow> (0, q)
       | b # bs' \<Rightarrow> (case rb_push q b of
           (True, q') \<Rightarrow> (case rb_push_bytes q' bs' of (n, q'') \<Rightarrow> (Suc n, q''))
         | (False, q') \<Rightarrow> (0, q')))"
    by (cases bs) simp_all
  show "rb_invar q \<Longrightarrow> rb_invar (rb_consume q n)" by (rule rb_consume_contents)
  show "capacity (rb_consume q n) = capacity q" by simp
  show "rb_invar q \<Longrightarrow> rb_contents (rb_consume q n) = drop n (rb_contents q)"
    by (rule rb_consume_contents)
  show "rb_at q i = (if i < length (rb_contents q) then Some (rb_contents q ! i) else None)"
    by (rule rb_at_contents)
  show "rb_copy q off n = (if length (rb_contents q) < off \<or> length (rb_contents q) - off < n then None
       else those (map (\<lambda>i. rb_at q (off + i)) [0..<n]))"
    by (simp add: rb_copy_def)
qed

end
