(* ===== verification/Crc16.thy ===== *)
theory Crc16
  imports Prelude
begin

text \<open>
  The checksum of \<^verbatim>\<open>src/src/protocol/crc16.cpp\<close>, bit by bit as the code computes it on
  16-bit words, and the facts about it that the frame parser and the Modbus codec rely on: the
  byte step is linear and invertible, appending the checksum low byte first leaves residue 0,
  and an error confined to two neighbouring bytes always changes the checksum.
\<close>

section \<open>The computation\<close>

definition crc16_shift :: "u16 \<Rightarrow> u16" where
  "crc16_shift crc =
     (if crc AND 0x0001 \<noteq> 0 then drop_bit 1 crc XOR 0xA001 else drop_bit 1 crc)"

definition crc16_byte :: "u16 \<Rightarrow> u8 \<Rightarrow> u16" where
  "crc16_byte crc b = (crc16_shift ^^ 8) (crc XOR ucast b)"

definition crc16_modbus :: "u8 list \<Rightarrow> u16" where
  "crc16_modbus data = foldl crc16_byte 0xFFFF data"

text \<open>Evaluation on concrete bytes by the simplifier.\<close>

lemma crc16_byte_unroll:
  "crc16_byte c b = crc16_shift (crc16_shift (crc16_shift (crc16_shift
     (crc16_shift (crc16_shift (crc16_shift (crc16_shift (c XOR ucast b))))))))"
  by (simp add: crc16_byte_def eval_nat_numeral)

lemmas crc16_eval = crc16_modbus_def crc16_byte_unroll crc16_shift_def

section \<open>Linearity and invertibility of the steps\<close>

lemma and_one_nonzero: "(w :: u16) AND 1 \<noteq> 0 \<longleftrightarrow> bit w 0"
  by (simp add: and_one_eq odd_iff_mod_2_eq_one bit_0)

lemma crc16_shift_alt:
  "crc16_shift w = drop_bit 1 w XOR (if bit w 0 then 0xA001 else 0)"
  using and_one_nonzero [of w] by (simp add: crc16_shift_def)

lemma drop_bit_xor_word: "drop_bit n (a XOR b :: u16) = drop_bit n a XOR drop_bit n b"
  by (rule bit_word_eqI) (simp add: bit_simps)

lemma crc16_shift_xor: "crc16_shift (a XOR b) = crc16_shift a XOR crc16_shift b"
  by (simp add: crc16_shift_alt drop_bit_xor_word bit_xor_iff xor.left_commute xor.assoc)

lemma crc16_shift_0 [simp]: "crc16_shift 0 = 0"
  by (simp add: crc16_shift_def)

lemma crc16_shifts_0 [simp]: "(crc16_shift ^^ n) 0 = 0"
  by (induction n) simp_all

lemma crc16_shifts_xor:
  "(crc16_shift ^^ n) (a XOR b) = (crc16_shift ^^ n) a XOR (crc16_shift ^^ n) b"
  by (induction n) (simp_all add: crc16_shift_xor)

text \<open>The polynomial has its top bit set, so the bit shifted out can be read off the result.\<close>

lemma bit15_crc16_shift: "bit (crc16_shift w) 15 \<longleftrightarrow> bit w 0"
proof -
  have "\<not> bit (drop_bit 1 w) 15"
    using bit_imp_le_length [of w 16] by (auto simp: bit_drop_bit_eq)
  moreover have "bit (0xA001 :: u16) 15" by simp
  ultimately show ?thesis
    by (simp add: crc16_shift_alt bit_xor_iff)
qed

lemma xor_left_cancel: "(c :: u16) XOR a = c XOR b \<Longrightarrow> a = b"
  by (metis xor.assoc xor_self_eq xor.left_neutral)

lemma xor_right_cancel: "(a :: u16) XOR c = b XOR c \<Longrightarrow> a = b"
  by (metis xor.commute xor_left_cancel)

lemma xor_exchange: "(x :: u16) XOR b = y XOR b' \<Longrightarrow> x XOR y = b XOR b'"
  by (auto simp: bit_eq_iff bit_xor_iff)

lemma xor_eq_0_iff_u8: "(a :: u8) XOR b = 0 \<longleftrightarrow> a = b"
  by (auto simp: bit_eq_iff bit_xor_iff)

lemma crc16_shift_inj: "crc16_shift a = crc16_shift b \<Longrightarrow> a = b"
proof -
  assume eq: "crc16_shift a = crc16_shift b"
  then have b0: "bit a 0 = bit b 0"
    using bit15_crc16_shift [of a] bit15_crc16_shift [of b] by simp
  with eq have d: "drop_bit 1 a = drop_bit 1 b"
    by (auto simp: crc16_shift_alt split: if_splits dest: xor_right_cancel)
  show "a = b"
  proof (rule bit_word_eqI)
    fix n
    show "bit a n \<longleftrightarrow> bit b n"
    proof (cases n)
      case 0
      with b0 show ?thesis by simp
    next
      case (Suc m)
      with d have "bit (drop_bit 1 a) m = bit (drop_bit 1 b) m" by simp
      with Suc show ?thesis by (simp add: bit_drop_bit_eq)
    qed
  qed
qed

lemma crc16_shifts_inj: "(crc16_shift ^^ n) a = (crc16_shift ^^ n) b \<Longrightarrow> a = b"
  by (induction n) (auto dest: crc16_shift_inj)

lemma ucast_u8_u16_inj: "(ucast (a :: u8) :: u16) = ucast b \<Longrightarrow> a = b"
  by (metis unat_ucast_u8_u16 unsigned_word_eqI)

lemma crc16_byte_inj_crc: "crc16_byte c b = crc16_byte c' b \<Longrightarrow> c = c'"
  unfolding crc16_byte_def by (blast dest: crc16_shifts_inj xor_right_cancel)

lemma crc16_byte_inj_data: "crc16_byte c a = crc16_byte c b \<Longrightarrow> a = b"
  unfolding crc16_byte_def by (blast dest: crc16_shifts_inj xor_left_cancel ucast_u8_u16_inj)

section \<open>Shifting out zero bits\<close>

lemma crc16_shifts_zeros:
  "(\<And>i. i < n \<Longrightarrow> \<not> bit w i) \<Longrightarrow> (crc16_shift ^^ n) w = drop_bit n w"
proof (induction n)
  case 0
  then show ?case by simp
next
  case (Suc n)
  then have "(crc16_shift ^^ Suc n) w = crc16_shift (drop_bit n w)" by simp
  also have "\<dots> = drop_bit 1 (drop_bit n w)"
    using Suc.prems [of n] by (simp add: crc16_shift_alt bit_drop_bit_eq)
  finally show ?case by simp
qed

lemma crc16_shifts_high: "(crc16_shift ^^ 8) (push_bit 8 (ucast (b :: u8))) = ucast b"
proof -
  have "(crc16_shift ^^ 8) (push_bit 8 (ucast b)) = drop_bit 8 (push_bit 8 (ucast b))"
    by (rule crc16_shifts_zeros) (simp add: bit_push_bit_iff)
  also have "\<dots> = ucast b"
    by (rule bit_word_eqI)
      (auto simp: bit_drop_bit_eq bit_push_bit_iff bit_ucast_iff dest: bit_imp_le_length)
  finally show ?thesis .
qed

lemma crc16_shifts_low_is_high:
  "(crc16_shift ^^ 8) (ucast (d :: u8)) = ucast (e :: u8) \<Longrightarrow> d = 0"
proof -
  assume "(crc16_shift ^^ 8) (ucast d) = ucast e"
  then have "(crc16_shift ^^ 8) (ucast d) = (crc16_shift ^^ 8) (push_bit 8 (ucast e))"
    by (simp only: crc16_shifts_high)
  then have eq: "(ucast d :: u16) = push_bit 8 (ucast e)" by (rule crc16_shifts_inj)
  show "d = 0"
  proof (rule bit_word_eqI)
    fix n
    assume n: "n < LENGTH(8)"
    with eq have "bit (ucast d :: u16) n = bit (push_bit 8 (ucast e) :: u16) n" by simp
    with n show "bit d n \<longleftrightarrow> bit 0 n"
      by (simp add: bit_ucast_iff bit_push_bit_iff)
  qed
qed

section \<open>The checksum of a message\<close>

lemma crc16_modbus_append: "crc16_modbus (xs @ ys) = foldl crc16_byte (crc16_modbus xs) ys"
  by (simp add: crc16_modbus_def)

lemma foldl_crc16_byte_inj: "foldl crc16_byte c ys = foldl crc16_byte c' ys \<Longrightarrow> c = c'"
  by (induction ys arbitrary: c c') (auto dest: crc16_byte_inj_crc)

lemma crc16_low_high_residue:
  "crc16_byte (crc16_byte c (low_byte c)) (high_byte c) = 0"
proof -
  have "c XOR ucast (low_byte c) = push_bit 8 (ucast (high_byte c))"
    by (rule bit_word_eqI)
      (auto simp: bit_xor_iff bit_ucast_iff bit_push_bit_iff dest: bit_imp_le_length)
  then have "crc16_byte c (low_byte c) = ucast (high_byte c)"
    by (simp add: crc16_byte_def crc16_shifts_high)
  then show ?thesis by (simp add: crc16_byte_def)
qed

lemma crc16_zero_iff:
  "crc16_modbus (xs @ [lo, hi]) = 0 \<longleftrightarrow> word_of_be hi lo = crc16_modbus xs"
proof
  let ?c = "crc16_modbus xs"
  assume "word_of_be hi lo = ?c"
  then have "lo = low_byte ?c" "hi = high_byte ?c"
    by (metis low_byte_word_of_be, metis high_byte_word_of_be)
  then show "crc16_modbus (xs @ [lo, hi]) = 0"
    by (simp add: crc16_modbus_append crc16_low_high_residue)
next
  let ?c = "crc16_modbus xs" and ?w = "word_of_be hi lo"
  assume "crc16_modbus (xs @ [lo, hi]) = 0"
  then have "foldl crc16_byte ?c [lo, hi] = foldl crc16_byte ?w [lo, hi]"
    using crc16_low_high_residue [of ?w] by (simp add: crc16_modbus_append)
  then show "?w = ?c" by (metis foldl_crc16_byte_inj)
qed

text \<open>Two different pairs of bytes never lead the register from one value to one value.\<close>

lemma crc16_byte_pair_inj:
  assumes eq: "crc16_byte (crc16_byte c a) b = crc16_byte (crc16_byte c a') b'"
  shows "a = a' \<and> b = b'"
proof -
  let ?S = "crc16_shift ^^ 8"
  have "?S (c XOR ucast a) XOR ucast b = ?S (c XOR ucast a') XOR ucast b'"
    using eq by (auto simp: crc16_byte_def dest: crc16_shifts_inj)
  then have "?S (ucast a) XOR ucast b = ?S (ucast a') XOR ucast b'"
    by (simp add: crc16_shifts_xor xor.assoc) (blast dest: xor_left_cancel)
  then have "?S (ucast a) XOR ?S (ucast a') = ucast b XOR ucast b'"
    by (rule xor_exchange)
  then have S: "?S (ucast (a XOR a')) = ucast (b XOR b')"
    by (simp add: crc16_shifts_xor unsigned_xor_eq)
  then have a: "a XOR a' = 0" by (rule crc16_shifts_low_is_high)
  with S have "(ucast (b XOR b') :: u16) = ucast (0 :: u8)" by simp
  then have "b XOR b' = 0" by (rule ucast_u8_u16_inj)
  with a show ?thesis
    by (simp add: xor_eq_0_iff_u8)
qed

text \<open>
  Any corruption of a message that is confined to one byte or to two neighbouring bytes
  (in particular every burst of at most nine bits, and every sixteen-bit burst on byte
  boundaries) changes the checksum, whatever precedes and follows it.
\<close>

theorem crc16_detects_two_byte_error:
  assumes "(a, b) \<noteq> (a', b')"
  shows "crc16_modbus (pre @ [a, b] @ post) \<noteq> crc16_modbus (pre @ [a', b'] @ post)"
proof
  assume "crc16_modbus (pre @ [a, b] @ post) = crc16_modbus (pre @ [a', b'] @ post)"
  then have "foldl crc16_byte (foldl crc16_byte (crc16_modbus pre) [a, b]) post
    = foldl crc16_byte (foldl crc16_byte (crc16_modbus pre) [a', b']) post"
    by (simp add: crc16_modbus_append)
  then have "foldl crc16_byte (crc16_modbus pre) [a, b] = foldl crc16_byte (crc16_modbus pre) [a', b']"
    by (rule foldl_crc16_byte_inj)
  then have "a = a' \<and> b = b'" by (simp add: crc16_byte_pair_inj)
  with assms show False by simp
qed

theorem crc16_detects_two_byte_error_witness:
  "crc16_modbus ([0x0B] @ [0x01, 0x10] @ [0x00]) \<noteq> crc16_modbus ([0x0B] @ [0x01, 0x11] @ [0x00])"
  by (rule crc16_detects_two_byte_error) simp

text \<open>The same, with the corrupted message given by its position.\<close>

lemma crc16_pair_update:
  assumes "Suc i < length xs" and "xs[i := a, Suc i := b] \<noteq> xs"
  shows "crc16_modbus (xs[i := a, Suc i := b]) \<noteq> crc16_modbus xs"
proof -
  have xs: "xs = take i xs @ [xs ! i, xs ! Suc i] @ drop (Suc (Suc i)) xs"
    using assms(1) by (simp add: Cons_nth_drop_Suc)
  have upd: "xs[i := a, Suc i := b] = take i xs @ [a, b] @ drop (Suc (Suc i)) xs"
    using assms(1) by (subst xs) (simp add: list_update_append)
  with assms(2) xs have "\<not> (a = xs ! i \<and> b = xs ! Suc i)" by metis
  then have "foldl crc16_byte (crc16_modbus (take i xs)) [a, b]
      \<noteq> foldl crc16_byte (crc16_modbus (take i xs)) [xs ! i, xs ! Suc i]"
    using crc16_byte_pair_inj by fastforce
  then have "crc16_modbus (take i xs @ [a, b] @ drop (Suc (Suc i)) xs)
      \<noteq> crc16_modbus (take i xs @ [xs ! i, xs ! Suc i] @ drop (Suc (Suc i)) xs)"
    by (auto simp: crc16_modbus_append dest: foldl_crc16_byte_inj)
  then show ?thesis using xs upd by simp
qed

lemma crc16_single_update:
  assumes "0 < length xs" and "Suc 0 < length xs" and "xs[0 := a] \<noteq> xs"
  shows "crc16_modbus (xs[0 := a]) \<noteq> crc16_modbus xs"
  using crc16_pair_update [of 0 xs a "xs ! 1"] assms by (cases xs) auto

end
