(* ===== verification/FrameParser.thy ===== *)
theory FrameParser
  imports ByteRingBuffer Crc16 "HOL-Library.Sublist"
begin

text \<open>
  The streaming parser of \<^verbatim>\<open>src/src/protocol/frame_parser.cpp\<close> on the ring buffer of
  \<^verbatim>\<open>byte_ring_buffer.h\<close>. An exception thrown by the buffer is the result \<^term>\<open>None\<close>.
  Two list-level references explain it: \<open>scan\<close>, the same decisions without the ring buffer and
  without the byte-wise feeding, and \<open>leftmost_frames\<close>, which only asks at every position of the
  stream whether a complete valid frame starts there.
\<close>

section \<open>Frames and the exact-frame parser\<close>

record frame =
  f_cmd :: u8
  f_device_id :: u8
  f_payload :: "u8 list"
  f_crc :: u16

definition kHeader1 :: u8 where "kHeader1 = 0xAA"
definition kHeader2 :: u8 where "kHeader2 = 0x55"
definition kMaxPayloadLength :: u8 where "kMaxPayloadLength = 64"
definition kFixedFieldSize :: nat where "kFixedFieldSize = 2 + 1 + 1 + 1 + 2"
definition kMinFrameSize :: nat where "kMinFrameSize = kFixedFieldSize"

lemmas parser_consts = kHeader1_def kHeader2_def kMaxPayloadLength_def kFixedFieldSize_def
  kMinFrameSize_def

definition parse_complete_frame :: "u8 list \<Rightarrow> frame option" where
  "parse_complete_frame data =
     (if length data < kMinFrameSize then None
      else if data ! 0 \<noteq> kHeader1 \<or> data ! 1 \<noteq> kHeader2 then None
      else
        let payload_length = data ! 2
        in if kMaxPayloadLength < payload_length then None
        else
          let expected_size = kFixedFieldSize + unat payload_length
          in if length data \<noteq> expected_size then None
          else
            let payload_start = 5;
                payload_end = payload_start + unat payload_length;
                crc_low = data ! payload_end;
                crc_high = data ! (payload_end + 1);
                frame = \<lparr>f_cmd = data ! 3, f_device_id = data ! 4,
                  f_payload = take (payload_end - payload_start) (drop payload_start data),
                  f_crc = word_of_be crc_high crc_low\<rparr>;
                calculated_crc = crc16_modbus (take (1 + 1 + 1 + unat payload_length) (drop 2 data))
            in if calculated_crc \<noteq> f_crc frame then None else Some frame)"

section \<open>The streaming parser\<close>

record frame_parser =
  buffer :: ring_buffer
  crc_error_count :: nat
  length_error_count :: nat
  overflow_byte_count :: nat

definition kBufferCapacity :: nat where "kBufferCapacity = 256"

definition frame_parser_init :: frame_parser where
  "frame_parser_init = \<lparr>buffer = ring_buffer_init kBufferCapacity, crc_error_count = 0,
     length_error_count = 0, overflow_byte_count = 0\<rparr>"

lemma rb_consume_smaller [termination_simp]:
  "\<not> rb_empty b \<Longrightarrow> 0 < n \<Longrightarrow> rb_size (rb_consume b n) < rb_size b"
  by (simp add: rb_empty_def)

function drain_buffer :: "frame_parser \<Rightarrow> frame list \<Rightarrow> (frame_parser \<times> frame list) option" where
  "drain_buffer p frames =
     (if rb_empty (buffer p) then Some (p, frames)
      else (case rb_at (buffer p) 0 of
        None \<Rightarrow> None
      | Some byte0 \<Rightarrow>
        if byte0 \<noteq> kHeader1 then
          drain_buffer (p\<lparr>buffer := rb_consume (buffer p) 1\<rparr>) frames
        else if rb_size (buffer p) < 2 then Some (p, frames)
        else (case rb_at (buffer p) 1 of
          None \<Rightarrow> None
        | Some byte1 \<Rightarrow>
          if byte1 \<noteq> kHeader2 then
            drain_buffer (p\<lparr>buffer := rb_consume (buffer p) 1\<rparr>) frames
          else if rb_size (buffer p) < 3 then Some (p, frames)
          else (case rb_at (buffer p) 2 of
            None \<Rightarrow> None
          | Some payload_length \<Rightarrow>
            if kMaxPayloadLength < payload_length then
              drain_buffer (p\<lparr>length_error_count := length_error_count p + 1,
                buffer := rb_consume (buffer p) 1\<rparr>) frames
            else if rb_size (buffer p) < kFixedFieldSize + unat payload_length then Some (p, frames)
            else (case rb_copy (buffer p) 0 (kFixedFieldSize + unat payload_length) of
              None \<Rightarrow> None
            | Some raw_frame \<Rightarrow>
              (case parse_complete_frame raw_frame of
                Some frame \<Rightarrow>
                  drain_buffer (p\<lparr>buffer :=
                    rb_consume (buffer p) (kFixedFieldSize + unat payload_length)\<rparr>) (frames @ [frame])
              | None \<Rightarrow>
                  drain_buffer (p\<lparr>crc_error_count := crc_error_count p + 1,
                    buffer := rb_consume (buffer p) 1\<rparr>) frames))))))"
  by pat_completeness auto
termination
  by (relation "measure (\<lambda>(p, _). rb_size (buffer p))")
    (auto simp: rb_empty_def kFixedFieldSize_def)

declare drain_buffer.simps [simp del]

fun feed_bytes :: "frame_parser \<Rightarrow> frame list \<Rightarrow> u8 list \<Rightarrow> (frame_parser \<times> frame list) option" where
  "feed_bytes p frames [] = Some (p, frames)"
| "feed_bytes p frames (b # bs) =
     (let p1 = (case rb_push (buffer p) b of
                  (True, buf) \<Rightarrow> p\<lparr>buffer := buf\<rparr>
                | (False, buf) \<Rightarrow>
                    p\<lparr>buffer := snd (rb_push (rb_consume buf 1) b),
                      overflow_byte_count := overflow_byte_count p + 1\<rparr>)
      in case drain_buffer p1 frames of
           None \<Rightarrow> None
         | Some (p2, frames2) \<Rightarrow> feed_bytes p2 frames2 bs)"

definition feed :: "frame_parser \<Rightarrow> u8 list \<Rightarrow> (frame_parser \<times> frame list) option" where
  "feed p data = feed_bytes p [] data"

definition parse_stream :: "u8 list \<Rightarrow> frame list option" where
  "parse_stream data = map_option snd (feed frame_parser_init data)"

definition take_crc_error_count :: "frame_parser \<Rightarrow> nat \<times> frame_parser" where
  "take_crc_error_count p = (crc_error_count p, p\<lparr>crc_error_count := 0\<rparr>)"

definition take_length_error_count :: "frame_parser \<Rightarrow> nat \<times> frame_parser" where
  "take_length_error_count p = (length_error_count p, p\<lparr>length_error_count := 0\<rparr>)"

definition take_overflow_byte_count :: "frame_parser \<Rightarrow> nat \<times> frame_parser" where
  "take_overflow_byte_count p = (overflow_byte_count p, p\<lparr>overflow_byte_count := 0\<rparr>)"

definition buffered_byte_count :: "frame_parser \<Rightarrow> nat" where
  "buffered_byte_count p = rb_size (buffer p)"

definition buffer_capacity :: "frame_parser \<Rightarrow> nat" where
  "buffer_capacity p = capacity (buffer p)"

definition parser_reset :: "frame_parser \<Rightarrow> frame_parser" where
  "parser_reset p = p\<lparr>buffer := rb_clear (buffer p), crc_error_count := 0,
     length_error_count := 0, overflow_byte_count := 0\<rparr>"

section \<open>The wire format\<close>

definition crc_region :: "frame \<Rightarrow> u8 list" where
  "crc_region f = [word_of_nat (length (f_payload f)), f_cmd f, f_device_id f] @ f_payload f"

definition encode_frame :: "frame \<Rightarrow> u8 list" where
  "encode_frame f = [kHeader1, kHeader2] @ crc_region f @ [low_byte (f_crc f), high_byte (f_crc f)]"

definition frame_ok :: "frame \<Rightarrow> bool" where
  "frame_ok f \<longleftrightarrow> length (f_payload f) \<le> 64 \<and> f_crc f = crc16_modbus (crc_region f)"

definition frame_length :: "frame \<Rightarrow> nat" where
  "frame_length f = kFixedFieldSize + length (f_payload f)"

lemma length_encode_frame [simp]: "length (encode_frame f) = frame_length f"
  by (simp add: encode_frame_def crc_region_def frame_length_def kFixedFieldSize_def)

lemma frame_length_bounds: "frame_ok f \<Longrightarrow> 7 \<le> frame_length f \<and> frame_length f \<le> 71"
  by (simp add: frame_ok_def frame_length_def kFixedFieldSize_def)

lemma unat_payload_length: "n \<le> 64 \<Longrightarrow> unat (word_of_nat n :: u8) = n"
  by (simp add: unat_of_nat)

lemma max_payload_less: "kMaxPayloadLength < b \<longleftrightarrow> 64 < unat b"
  by (simp add: kMaxPayloadLength_def word_less_nat_alt)

lemma parse_encode_frame:
  assumes "frame_ok f"
  shows "parse_complete_frame (encode_frame f) = Some f"
proof -
  have "unat (word_of_nat (length (f_payload f)) :: u8) = length (f_payload f)"
    using assms by (simp add: frame_ok_def unat_payload_length)
  then show ?thesis
    using assms
    by (simp add: parse_complete_frame_def encode_frame_def crc_region_def frame_ok_def Let_def
        max_payload_less kFixedFieldSize_def kMinFrameSize_def nth_append)
qed

lemma length_5_ex: "length xs = 5 \<Longrightarrow> \<exists>a b c d e. xs = [a, b, c, d, e]"
  by (auto simp: eval_nat_numeral length_Suc_conv)

lemma length_2_ex: "length xs = 2 \<Longrightarrow> \<exists>a b. xs = [a, b]"
  by (auto simp: eval_nat_numeral length_Suc_conv)

lemma list_split_ends:
  assumes "length data = n + 7"
  shows "\<exists>a b c d e ps l h. data = [a, b, c, d, e] @ ps @ [l, h] \<and> length ps = n"
proof -
  let ?ps = "take n (drop 5 data)"
  have "data = take 5 data @ ?ps @ drop (n + 5) data"
    by (metis append_assoc append_take_drop_id take_add add.commute)
  moreover obtain a b c d e where "take 5 data = [a, b, c, d, e]"
    using length_5_ex [of "take 5 data"] assms by auto
  moreover obtain l h where "drop (n + 5) data = [l, h]"
    using length_2_ex [of "drop (n + 5) data"] assms by auto
  moreover have "length ?ps = n" using assms by simp
  ultimately show ?thesis by metis
qed

lemma parse_complete_frame_inverse:
  assumes "parse_complete_frame data = Some f"
  shows "frame_ok f \<and> data = encode_frame f"
proof -
  let ?n = "unat (data ! 2)"
  from assms have len: "length data = ?n + 7" and n: "?n \<le> 64"
    by (auto simp: parse_complete_frame_def Let_def max_payload_less kFixedFieldSize_def split: if_splits)
  then obtain a b c d e ps l h where
    data: "data = [a, b, c, d, e] @ ps @ [l, h]" and ps: "length ps = unat c"
    using list_split_ends [OF len] by auto
  have wl: "word_of_nat (length ps) = c" by (simp add: ps)
  show ?thesis
    using assms n ps
    by (auto simp: parse_complete_frame_def data Let_def nth_append kFixedFieldSize_def
        frame_ok_def encode_frame_def crc_region_def wl split: if_splits)
qed

lemma parse_complete_frame_iff:
  "parse_complete_frame data = Some f \<longleftrightarrow> frame_ok f \<and> data = encode_frame f"
  using parse_encode_frame parse_complete_frame_inverse by blast

section \<open>The decisions of the parser on a list of bytes\<close>

datatype scan_action = Wait | Skip | Bad_Length | Bad_Crc | Emit frame

definition scan_step :: "u8 list \<Rightarrow> scan_action" where
  "scan_step xs =
     (if xs = [] then Wait
      else if xs ! 0 \<noteq> kHeader1 then Skip
      else if length xs < 2 then Wait
      else if xs ! 1 \<noteq> kHeader2 then Skip
      else if length xs < 3 then Wait
      else if kMaxPayloadLength < xs ! 2 then Bad_Length
      else if length xs < kFixedFieldSize + unat (xs ! 2) then Wait
      else case parse_complete_frame (take (kFixedFieldSize + unat (xs ! 2)) xs) of
             Some f \<Rightarrow> Emit f
           | None \<Rightarrow> Bad_Crc)"

record scan_result =
  sc_frames :: "frame list"
  sc_crc_errors :: nat
  sc_length_errors :: nat
  sc_rest :: "u8 list"

lemma scan_step_Nil [simp]: "scan_step [] = Wait"
  by (simp add: scan_step_def)

function scan :: "u8 list \<Rightarrow> scan_result" where
  "scan xs =
     (case scan_step xs of
        Wait \<Rightarrow> \<lparr>sc_frames = [], sc_crc_errors = 0, sc_length_errors = 0, sc_rest = xs\<rparr>
      | Skip \<Rightarrow> scan (drop 1 xs)
      | Bad_Length \<Rightarrow> (let r = scan (drop 1 xs) in r\<lparr>sc_length_errors := sc_length_errors r + 1\<rparr>)
      | Bad_Crc \<Rightarrow> (let r = scan (drop 1 xs) in r\<lparr>sc_crc_errors := sc_crc_errors r + 1\<rparr>)
      | Emit f \<Rightarrow> (let r = scan (drop (frame_length f) xs) in r\<lparr>sc_frames := f # sc_frames r\<rparr>))"
  by pat_completeness auto
termination
proof (relation "measure length")
  have nonempty: "xs \<noteq> []" if "scan_step xs \<noteq> Wait" for xs
    using that by auto
  show "\<And>xs. scan_step xs = Skip \<Longrightarrow> (drop 1 xs, xs) \<in> measure length"
    and "\<And>xs. scan_step xs = Bad_Length \<Longrightarrow> (drop 1 xs, xs) \<in> measure length"
    and "\<And>xs. scan_step xs = Bad_Crc \<Longrightarrow> (drop 1 xs, xs) \<in> measure length"
    and "\<And>xs f. scan_step xs = Emit f \<Longrightarrow> (drop (frame_length f) xs, xs) \<in> measure length"
    using nonempty by (fastforce simp: frame_length_def kFixedFieldSize_def)+
qed simp

declare scan.simps [simp del]

lemma scan_step_Emit:
  assumes "scan_step xs = Emit f"
  shows "frame_ok f" "take (frame_length f) xs = encode_frame f" "frame_length f \<le> length xs"
    "frame_length f = kFixedFieldSize + unat (xs ! 2)"
proof -
  let ?n = "kFixedFieldSize + unat (xs ! 2)"
  from assms have "parse_complete_frame (take ?n xs) = Some f" and le: "?n \<le> length xs"
    by (auto simp: scan_step_def split: if_splits option.splits)
  then have ok: "frame_ok f" and enc: "take ?n xs = encode_frame f"
    by (simp_all add: parse_complete_frame_iff)
  from arg_cong [OF enc, of length] le have n: "frame_length f = ?n" by simp
  show "frame_ok f" "take (frame_length f) xs = encode_frame f" "frame_length f \<le> length xs"
    "frame_length f = ?n"
    using ok enc le n by simp_all
qed

text \<open>A decision once taken is not changed by the bytes that arrive later.\<close>

lemma short_or_three:
  obtains "xs = []" | a where "xs = [a]" | a b where "xs = [a, b]"
    | a b c zs where "xs = a # b # c # zs"
  by (metis list.exhaust)

lemma scan_step_append:
  assumes "scan_step xs \<noteq> Wait"
  shows "scan_step (xs @ ys) = scan_step xs"
proof (cases xs rule: short_or_three)
  case (4 a b c zs)
  let ?n = "kFixedFieldSize + unat c"
  have "take ?n (xs @ ys) = take ?n xs" if "?n \<le> length xs"
    using that by simp
  with assms 4 show ?thesis
    by (cases "?n \<le> length xs") (auto simp: scan_step_def split: if_splits)
qed (use assms in \<open>auto simp: scan_step_def split: if_splits\<close>)

lemma scan_append:
  "scan (xs @ ys) = (let r = scan xs; r' = scan (sc_rest r @ ys) in
     \<lparr>sc_frames = sc_frames r @ sc_frames r', sc_crc_errors = sc_crc_errors r + sc_crc_errors r',
      sc_length_errors = sc_length_errors r + sc_length_errors r', sc_rest = sc_rest r'\<rparr>)"
proof (induction xs rule: scan.induct)
  case (1 xs)
  show ?case
  proof (cases "scan_step xs = Wait")
    case True
    then show ?thesis by (simp add: scan.simps [of xs] Let_def)
  next
    case False
    then have ne: "1 \<le> length xs" by (cases xs) auto
    note step = scan_step_append [OF False, of ys]
    show ?thesis
    proof (cases "scan_step xs")
      case Wait
      with False show ?thesis by simp
    next
      case (Emit f)
      then show ?thesis
        using "1.IH"(4) [OF Emit] scan_step_Emit [OF Emit] step
        by (simp add: scan.simps [of xs] scan.simps [of "xs @ ys"] Let_def)
    qed (use "1.IH" ne step in \<open>simp_all add: scan.simps [of xs] scan.simps [of "xs @ ys"] Let_def\<close>)
  qed
qed

lemma scan_rest_waits: "scan_step (sc_rest (scan xs)) = Wait"
proof (induction xs rule: scan.induct)
  case (1 xs)
  then show ?case
    by (cases "scan_step xs") (simp_all add: scan.simps [of xs] Let_def)
qed

lemma scan_wait: "scan_step xs = Wait \<Longrightarrow>
    scan xs = \<lparr>sc_frames = [], sc_crc_errors = 0, sc_length_errors = 0, sc_rest = xs\<rparr>"
  by (simp add: scan.simps [of xs])

lemma wait_short: "scan_step xs = Wait \<Longrightarrow> length xs \<le> 70"
  by (auto simp: scan_step_def max_payload_less kFixedFieldSize_def split: if_splits option.splits)

section \<open>The streaming parser implements the scanner\<close>

definition parser_bytes :: "frame_parser \<Rightarrow> u8 list" where
  "parser_bytes p = rb_contents (buffer p)"

definition buffer_ok :: "frame_parser \<Rightarrow> bool" where
  "buffer_ok p \<longleftrightarrow> rb_invar (buffer p) \<and> capacity (buffer p) = kBufferCapacity"

text \<open>Between two calls the parser holds no byte that could already be decided.\<close>

definition parser_invar :: "frame_parser \<Rightarrow> bool" where
  "parser_invar p \<longleftrightarrow> buffer_ok p \<and> scan_step (parser_bytes p) = Wait"

definition add_counts :: "frame_parser \<Rightarrow> scan_result \<Rightarrow> frame_parser \<Rightarrow> bool" where
  "add_counts p r p' \<longleftrightarrow>
     crc_error_count p' = crc_error_count p + sc_crc_errors r
     \<and> length_error_count p' = length_error_count p + sc_length_errors r
     \<and> overflow_byte_count p' = overflow_byte_count p
     \<and> parser_bytes p' = sc_rest r"

lemma buffer_ok_consume [simp, gw_invar]:
  "buffer_ok p \<Longrightarrow> buffer_ok (p\<lparr>buffer := rb_consume (buffer p) n\<rparr>)"
  by (simp add: buffer_ok_def rb.consume_invar)

lemma parser_bytes_consume [gw_refine]:
  "buffer_ok p \<Longrightarrow> parser_bytes (p\<lparr>buffer := rb_consume (buffer p) n\<rparr>) = drop n (parser_bytes p)"
  by (simp add: buffer_ok_def parser_bytes_def rb.consume_contents)

lemma rb_at_parser_bytes [gw_refine]:
  "rb_at (buffer p) i = (if i < length (parser_bytes p) then Some (parser_bytes p ! i) else None)"
  by (simp add: parser_bytes_def rb_at_contents)

lemma rb_copy_parser_bytes [gw_refine]:
  "buffer_ok p \<Longrightarrow> rb_copy (buffer p) 0 n =
     (if n \<le> length (parser_bytes p) then Some (take n (parser_bytes p)) else None)"
  by (simp add: buffer_ok_def parser_bytes_def rb.copy_contents)

lemma rb_size_parser_bytes [gw_refine]: "rb_size (buffer p) = length (parser_bytes p)"
  by (simp add: parser_bytes_def)

lemma rb_empty_parser_bytes [gw_refine]: "rb_empty (buffer p) \<longleftrightarrow> parser_bytes p = []"
  by (simp add: rb_empty_def rb_size_parser_bytes)

text \<open>One round of the loop takes the decision of \<^const>\<open>scan_step\<close>.\<close>

lemma drain_buffer_unfold:
  assumes ok: "buffer_ok p"
  shows "drain_buffer p frames =
    (case scan_step (parser_bytes p) of
       Wait \<Rightarrow> Some (p, frames)
     | Skip \<Rightarrow> drain_buffer (p\<lparr>buffer := rb_consume (buffer p) 1\<rparr>) frames
     | Bad_Length \<Rightarrow> drain_buffer (p\<lparr>length_error_count := length_error_count p + 1,
         buffer := rb_consume (buffer p) 1\<rparr>) frames
     | Bad_Crc \<Rightarrow> drain_buffer (p\<lparr>crc_error_count := crc_error_count p + 1,
         buffer := rb_consume (buffer p) 1\<rparr>) frames
     | Emit f \<Rightarrow> drain_buffer (p\<lparr>buffer := rb_consume (buffer p) (frame_length f)\<rparr>) (frames @ [f]))"
proof (cases "\<exists>f. scan_step (parser_bytes p) = Emit f")
  case True
  then obtain f where f: "scan_step (parser_bytes p) = Emit f" by blast
  note n = scan_step_Emit(4) [OF f]
  from f show ?thesis
    by (subst drain_buffer.simps)
      (auto simp: scan_step_def gw_refine ok n split: if_splits option.splits)
next
  case False
  then show ?thesis
    by (subst drain_buffer.simps)
      (auto simp: scan_step_def gw_refine ok split: if_splits option.splits)
qed

lemma drain_buffer_scan:
  assumes "buffer_ok p"
  shows "\<exists>p'. drain_buffer p frames = Some (p', frames @ sc_frames (scan (parser_bytes p)))
    \<and> buffer_ok p' \<and> add_counts p (scan (parser_bytes p)) p'"
  using assms
proof (induction "parser_bytes p" arbitrary: p frames rule: scan.induct)
  case 1
  let ?xs = "parser_bytes p"
  note unfold = drain_buffer_unfold [OF 1(5), of frames] scan.simps [of ?xs]
  show ?case
  proof (cases "scan_step ?xs")
    case Wait
    with 1(5) show ?thesis by (simp add: unfold add_counts_def)
  next
    case Skip
    show ?thesis
      using 1(1) [OF Skip, of "p\<lparr>buffer := rb_consume (buffer p) 1\<rparr>" frames] 1(5) Skip
      by (simp add: unfold parser_bytes_consume add_counts_def)
  next
    case Bad_Length
    let ?p = "p\<lparr>length_error_count := length_error_count p + 1, buffer := rb_consume (buffer p) 1\<rparr>"
    have "buffer_ok ?p" "parser_bytes ?p = drop 1 ?xs"
      using 1(5) by (simp_all add: buffer_ok_def parser_bytes_def rb.consume_invar rb.consume_contents)
    with 1(2) [OF Bad_Length, of ?p frames] Bad_Length show ?thesis
      by (simp add: unfold add_counts_def Let_def)
  next
    case Bad_Crc
    let ?p = "p\<lparr>crc_error_count := crc_error_count p + 1, buffer := rb_consume (buffer p) 1\<rparr>"
    have "buffer_ok ?p" "parser_bytes ?p = drop 1 ?xs"
      using 1(5) by (simp_all add: buffer_ok_def parser_bytes_def rb.consume_invar rb.consume_contents)
    with 1(3) [OF Bad_Crc, of ?p frames] Bad_Crc show ?thesis
      by (simp add: unfold add_counts_def Let_def)
  next
    case (Emit f)
    show ?thesis
      using 1(4) [OF Emit, of "p\<lparr>buffer := rb_consume (buffer p) (frame_length f)\<rparr>" "frames @ [f]"]
        1(5) Emit
      by (simp add: unfold parser_bytes_consume add_counts_def Let_def)
  qed
qed

lemma parser_invar_short: "parser_invar p \<Longrightarrow> rb_size (buffer p) \<le> 70"
  using wait_short [of "parser_bytes p"] by (simp add: parser_invar_def parser_bytes_def)

lemma parser_push_room:
  assumes "parser_invar p" "rb_push (buffer p) b = (pushed, buf)"
  shows "pushed \<and> buffer_ok (p\<lparr>buffer := buf\<rparr>)
    \<and> parser_bytes (p\<lparr>buffer := buf\<rparr>) = parser_bytes p @ [b]"
proof -
  have "length (rb_contents (buffer p)) < capacity (buffer p)"
    using assms(1) parser_invar_short [OF assms(1)]
    by (simp add: parser_invar_def buffer_ok_def kBufferCapacity_def)
  with assms rb.push_room [of "buffer p" b pushed buf] show ?thesis
    by (simp add: parser_invar_def buffer_ok_def parser_bytes_def)
qed

text \<open>Feeding byte by byte is scanning the whole input behind the bytes still held.\<close>

lemma feed_bytes_scan:
  assumes "parser_invar p"
  shows "\<exists>p'. feed_bytes p frames data
      = Some (p', frames @ sc_frames (scan (parser_bytes p @ data)))
    \<and> parser_invar p' \<and> add_counts p (scan (parser_bytes p @ data)) p'"
  using assms
proof (induction data arbitrary: p frames)
  case Nil
  then show ?case
    by (simp add: scan_wait parser_invar_def add_counts_def)
next
  case (Cons b data)
  obtain pushed buf where push: "rb_push (buffer p) b = (pushed, buf)" by fastforce
  let ?p1 = "p\<lparr>buffer := buf\<rparr>" and ?r = "scan (parser_bytes p @ [b])"
  note p1 = parser_push_room [OF Cons.prems push]
  then obtain p2 where p2: "drain_buffer ?p1 frames = Some (p2, frames @ sc_frames ?r)"
      "buffer_ok p2" "add_counts ?p1 ?r p2"
    using drain_buffer_scan [of ?p1 frames] by auto
  then have inv2: "parser_invar p2"
    by (simp add: parser_invar_def add_counts_def scan_rest_waits)
  obtain p' where p': "feed_bytes p2 (frames @ sc_frames ?r) data
      = Some (p', (frames @ sc_frames ?r) @ sc_frames (scan (parser_bytes p2 @ data)))"
      "parser_invar p'" "add_counts p2 (scan (parser_bytes p2 @ data)) p'"
    using Cons.IH [OF inv2] by blast
  have rest: "parser_bytes p2 = sc_rest ?r" using p2(3) by (simp add: add_counts_def)
  have all: "scan (parser_bytes p @ b # data) = (let r' = scan (sc_rest ?r @ data) in
     \<lparr>sc_frames = sc_frames ?r @ sc_frames r', sc_crc_errors = sc_crc_errors ?r + sc_crc_errors r',
      sc_length_errors = sc_length_errors ?r + sc_length_errors r', sc_rest = sc_rest r'\<rparr>)"
    using scan_append [of "parser_bytes p @ [b]" data] by (simp add: Let_def)
  have "feed_bytes p frames (b # data) = feed_bytes p2 (frames @ sc_frames ?r) data"
    using push p1 p2(1) by simp
  with p' p2(3) show ?case
    by (simp add: all rest add_counts_def Let_def)
qed

lemma feed_scan:
  assumes "parser_invar p"
  obtains p' where "feed p data = Some (p', sc_frames (scan (parser_bytes p @ data)))"
    "parser_invar p'" "add_counts p (scan (parser_bytes p @ data)) p'"
  using feed_bytes_scan [OF assms, of "[]" data] by (auto simp: feed_def)

lemma parser_invar_init [gw_invar]: "parser_invar frame_parser_init" "parser_bytes frame_parser_init = []"
  by (simp_all add: parser_invar_def buffer_ok_def frame_parser_init_def parser_bytes_def
      ring_buffer_init_contents kBufferCapacity_def)

lemma parser_invar_reset [gw_invar]:
  "parser_invar p \<Longrightarrow> parser_invar (parser_reset p) \<and> parser_bytes (parser_reset p) = []"
  by (simp add: parser_invar_def buffer_ok_def parser_reset_def parser_bytes_def rb_clear_contents)

section \<open>The leftmost-frame reference\<close>

definition frame_at_start :: "u8 list \<Rightarrow> frame option" where
  "frame_at_start s =
     (if length s < 3 then None else parse_complete_frame (take (kFixedFieldSize + unat (s ! 2)) s))"

function leftmost_frames :: "u8 list \<Rightarrow> frame list" where
  "leftmost_frames s =
     (if s = [] then []
      else case frame_at_start s of
             Some f \<Rightarrow> f # leftmost_frames (drop (frame_length f) s)
           | None \<Rightarrow> leftmost_frames (drop 1 s))"
  by pat_completeness auto
termination
  by (relation "measure length") (auto simp: frame_length_def kFixedFieldSize_def)

declare leftmost_frames.simps [simp del]

lemma frame_at_start_iff: "frame_at_start s = Some f \<longleftrightarrow> frame_ok f \<and> prefix (encode_frame f) s"
proof
  assume "frame_at_start s = Some f"
  then show "frame_ok f \<and> prefix (encode_frame f) s"
    by (auto simp: frame_at_start_def parse_complete_frame_iff split: if_splits)
      (metis take_is_prefix)
next
  assume f: "frame_ok f \<and> prefix (encode_frame f) s"
  then obtain zs where zs: "s = encode_frame f @ zs" by (auto simp: prefix_def)
  have "s ! 2 = word_of_nat (length (f_payload f))"
    by (simp add: zs encode_frame_def crc_region_def)
  then have "kFixedFieldSize + unat (s ! 2) = frame_length f"
    using f by (simp add: frame_ok_def unat_payload_length frame_length_def)
  moreover have "3 \<le> length s"
    using f frame_length_bounds [of f] by (simp add: zs)
  ultimately show "frame_at_start s = Some f"
    using f by (simp add: frame_at_start_def zs parse_encode_frame)
qed

lemma scan_step_frame_at_start:
  "scan_step s = Emit f \<Longrightarrow> frame_at_start s = Some f"
  "scan_step s \<in> {Skip, Bad_Length, Bad_Crc} \<Longrightarrow> frame_at_start s = None"
proof -
  show "scan_step s = Emit f \<Longrightarrow> frame_at_start s = Some f"
    by (auto simp: frame_at_start_def scan_step_def split: if_splits option.splits)
  show "frame_at_start s = None" if step: "scan_step s \<in> {Skip, Bad_Length, Bad_Crc}"
  proof (rule ccontr)
    assume "frame_at_start s \<noteq> None"
    then obtain f where "frame_at_start s = Some f" by blast
    then have ok: "frame_ok f" and "prefix (encode_frame f) s"
      by (simp_all add: frame_at_start_iff)
    then obtain zs where s: "s = encode_frame f @ zs" by (auto simp: prefix_def)
    have "scan_step (encode_frame f) = Emit f"
      using ok parse_encode_frame [OF ok] length_encode_frame [of f]
      by (simp add: scan_step_def encode_frame_def crc_region_def max_payload_less frame_ok_def
          unat_payload_length frame_length_def kFixedFieldSize_def)
    then have "scan_step s = Emit f" by (simp add: s scan_step_append)
    with step show False by simp
  qed
qed

lemma leftmost_frames_scan:
  "leftmost_frames s = sc_frames (scan s) @ leftmost_frames (sc_rest (scan s))"
proof (induction s rule: scan.induct)
  case (1 s)
  show ?case
  proof (cases "scan_step s")
    case Wait
    then show ?thesis by (simp add: scan_wait)
  next
    case (Emit f)
    then show ?thesis
      using "1.IH"(4) [OF Emit] scan_step_frame_at_start(1) [OF Emit]
      by (cases "s = []") (simp_all add: scan.simps [of s] leftmost_frames.simps [of s] Let_def)
  qed (use "1.IH" scan_step_frame_at_start(2) [of s] in
      \<open>auto simp: scan.simps [of s] leftmost_frames.simps [of s] Let_def\<close>)
qed

section \<open>Properties of the parser\<close>

text \<open>
  C3: feeding any bytes to a parser in a state between two calls returns normally (no
  out-of-range access of the ring buffer, no endless loop), keeps the invariant, and the frames
  returned are exactly those the leftmost-frame reference finds in the bytes held plus the bytes
  fed, up to what it would still find in the bytes now held back.
\<close>

theorem feed_refines_leftmost:
  assumes "parser_invar p"
  shows "\<exists>p' frames. feed p data = Some (p', frames) \<and> parser_invar p'
    \<and> leftmost_frames (parser_bytes p @ data) = frames @ leftmost_frames (parser_bytes p')"
proof -
  obtain p' where p': "feed p data = Some (p', sc_frames (scan (parser_bytes p @ data)))"
      "parser_invar p'" "add_counts p (scan (parser_bytes p @ data)) p'"
    by (rule feed_scan [OF assms])
  with leftmost_frames_scan [of "parser_bytes p @ data"] show ?thesis
    by (auto simp: add_counts_def)
qed

theorem feed_refines_leftmost_witness:
  "\<exists>p' frames. feed frame_parser_init [0xAA, 0x55, 0x41, 0xAA] = Some (p', frames) \<and> parser_invar p'
    \<and> leftmost_frames (parser_bytes frame_parser_init @ [0xAA, 0x55, 0x41, 0xAA])
      = frames @ leftmost_frames (parser_bytes p')"
  by (rule feed_refines_leftmost) (rule parser_invar_init)

lemma drain_buffer_accumulates:
  "drain_buffer p (frames @ acc) = map_option (\<lambda>(p', fs). (p', frames @ fs)) (drain_buffer p acc)"
proof (induction "rb_size (buffer p)" arbitrary: p acc rule: less_induct)
  case less
  have IH: "drain_buffer q (frames @ fs) = map_option (\<lambda>(p', gs). (p', frames @ gs)) (drain_buffer q fs)"
    if "rb_size (buffer q) < rb_size (buffer p)" for q fs
    using less that by blast
  show ?case
  proof (cases "rb_empty (buffer p)")
    case True
    then show ?thesis by (simp add: drain_buffer.simps [of p])
  next
    case False
    then have "0 < rb_size (buffer p)"
      by (simp add: rb_empty_def)
    then show ?thesis
      by (simp add: drain_buffer.simps [of p "frames @ acc"] drain_buffer.simps [of p acc]
          kFixedFieldSize_def IH split: option.splits)
  qed
qed

lemma feed_bytes_accumulates:
  "feed_bytes p (frames @ acc) data = map_option (\<lambda>(p', fs). (p', frames @ fs)) (feed_bytes p acc data)"
proof (induction data arbitrary: p acc)
  case Nil
  then show ?case by simp
next
  case (Cons b data)
  then show ?case
    by (simp add: Let_def drain_buffer_accumulates split: option.splits)
qed

lemma feed_bytes_append:
  "feed_bytes p frames (xs @ ys) =
     (case feed_bytes p frames xs of None \<Rightarrow> None | Some (p1, frames1) \<Rightarrow> feed_bytes p1 frames1 ys)"
  by (induction xs arbitrary: p frames) (auto simp: Let_def split: option.splits)

text \<open>
  C12: how the byte stream is cut into reads does not matter. Feeding two chunks one after the
  other returns the same frames in the same order, and leaves the same parser state, as feeding
  their concatenation: half frames and glued frames need no special treatment by the caller.
\<close>

theorem feed_chunks:
  "feed p (xs @ ys) =
     (case feed p xs of
        None \<Rightarrow> None
      | Some (p1, frames1) \<Rightarrow>
          (case feed p1 ys of
             None \<Rightarrow> None
           | Some (p2, frames2) \<Rightarrow> Some (p2, frames1 @ frames2)))"
proof (cases "feed_bytes p [] xs")
  case None
  then show ?thesis by (simp add: feed_def feed_bytes_append)
next
  case (Some r)
  obtain p1 frames1 where r: "r = (p1, frames1)" by fastforce
  have "feed_bytes p1 frames1 ys = map_option (\<lambda>(p', fs). (p', frames1 @ fs)) (feed_bytes p1 [] ys)"
    using feed_bytes_accumulates [of p1 frames1 "[]" ys] by simp
  then show ?thesis
    by (simp add: feed_def feed_bytes_append Some r split: option.splits)
qed

text \<open>
  The states a parser can be in: fresh, after feeding, after taking a counter, after a reset.
\<close>

inductive parser_reachable :: "frame_parser \<Rightarrow> bool" where
  fresh: "parser_reachable frame_parser_init"
| fed: "parser_reachable p \<Longrightarrow> feed p data = Some (p', frames) \<Longrightarrow> parser_reachable p'"
| took_crc: "parser_reachable p \<Longrightarrow> parser_reachable (snd (take_crc_error_count p))"
| took_length: "parser_reachable p \<Longrightarrow> parser_reachable (snd (take_length_error_count p))"
| took_overflow: "parser_reachable p \<Longrightarrow> parser_reachable (snd (take_overflow_byte_count p))"
| was_reset: "parser_reachable p \<Longrightarrow> parser_reachable (parser_reset p)"

lemmas take_counts = take_crc_error_count_def take_length_error_count_def take_overflow_byte_count_def

lemma parser_reachable_invar:
  "parser_reachable p \<Longrightarrow> parser_invar p \<and> overflow_byte_count p = 0"
proof (induction rule: parser_reachable.induct)
  case fresh
  show ?case using parser_invar_init by (simp add: frame_parser_init_def)
next
  case (fed p data p' frames)
  then have "parser_invar p" by simp
  then obtain p'' where "feed p data = Some (p'', sc_frames (scan (parser_bytes p @ data)))"
      "parser_invar p''" "add_counts p (scan (parser_bytes p @ data)) p''"
    by (rule feed_scan)
  with fed show ?case by (simp add: add_counts_def)
next
  case (was_reset p)
  then show ?case by (simp add: parser_invar_reset) (simp add: parser_reset_def)
qed (simp_all add: take_counts parser_invar_def buffer_ok_def parser_bytes_def)

text \<open>
  C11: over the whole life of a parser the 256-byte buffer never overflows: between calls it
  holds at most 70 bytes (one byte less than the longest frame), so the defensive eviction of
  the oldest byte never runs and its counter stays 0.
\<close>

theorem parser_never_overflows:
  assumes "parser_reachable p"
  shows "overflow_byte_count p = 0 \<and> buffered_byte_count p \<le> 70 \<and> buffer_capacity p = 256"
  using parser_reachable_invar [OF assms] parser_invar_short [of p]
  by (simp add: buffered_byte_count_def buffer_capacity_def parser_invar_def buffer_ok_def
      kBufferCapacity_def)

theorem parser_never_overflows_witness:
  "\<exists>p' frames. feed frame_parser_init (replicate 1000 0xAA) = Some (p', frames)
    \<and> overflow_byte_count p' = 0 \<and> buffered_byte_count p' \<le> 70 \<and> buffer_capacity p' = 256"
proof -
  obtain p' where p': "feed frame_parser_init (replicate 1000 0xAA)
      = Some (p', sc_frames (scan (parser_bytes frame_parser_init @ replicate 1000 0xAA)))"
    by (rule feed_scan [OF parser_invar_init(1)])
  then have "parser_reachable p'" by (rule parser_reachable.fed [OF parser_reachable.fresh])
  with p' parser_never_overflows [of p'] show ?thesis by blast
qed

section \<open>What is accepted, and what is lost\<close>

text \<open>A stream of frames, each preceded by some other bytes.\<close>

fun tiled :: "(u8 list \<times> frame) list \<Rightarrow> u8 list" where
  "tiled [] = []"
| "tiled ((gap, f) # gfs) = gap @ encode_frame f @ tiled gfs"

definition tiles :: "u8 list \<Rightarrow> frame list \<Rightarrow> u8 list \<Rightarrow> bool" where
  "tiles s fs rest \<longleftrightarrow> (\<exists>gfs junk. map snd gfs = fs \<and> list_all (\<lambda>gf. frame_ok (snd gf)) gfs
     \<and> s = tiled gfs @ junk @ rest)"

lemma tiles_rest: "tiles s [] s"
  unfolding tiles_def by (intro exI [of _ "[]"]) simp

lemma tiles_skip: "tiles s fs rest \<Longrightarrow> tiles (b # s) fs rest"
proof -
  assume "tiles s fs rest"
  then obtain gfs junk where gfs: "map snd gfs = fs" "list_all (\<lambda>gf. frame_ok (snd gf)) gfs"
      "s = tiled gfs @ junk @ rest"
    by (auto simp: tiles_def)
  show ?thesis
  proof (cases gfs)
    case Nil
    with gfs show ?thesis
      unfolding tiles_def by (intro exI [of _ "[]"] exI [of _ "b # junk"]) simp
  next
    case (Cons gf gfs')
    with gfs show ?thesis
      unfolding tiles_def
      by (intro exI [of _ "(b # fst gf, snd gf) # gfs'"] exI [of _ junk]) (cases gf; simp)
  qed
qed

lemma tiles_frame: "frame_ok f \<Longrightarrow> tiles s fs rest \<Longrightarrow> tiles (encode_frame f @ s) (f # fs) rest"
proof -
  assume "frame_ok f" "tiles s fs rest"
  then obtain gfs junk where "map snd gfs = fs" "list_all (\<lambda>gf. frame_ok (snd gf)) gfs"
      "s = tiled gfs @ junk @ rest"
    by (auto simp: tiles_def)
  with \<open>frame_ok f\<close> show ?thesis
    unfolding tiles_def by (intro exI [of _ "([], f) # gfs"] exI [of _ junk]) simp
qed

lemma scan_tiles: "tiles s (sc_frames (scan s)) (sc_rest (scan s))"
proof (induction s rule: scan.induct)
  case (1 s)
  have skip: "tiles s fs rest" if "scan_step s \<noteq> Wait" "tiles (drop 1 s) fs rest" for fs rest
    using that tiles_skip by (cases s) auto
  show ?case
  proof (cases "scan_step s")
    case Wait
    then show ?thesis by (simp add: scan_wait tiles_rest)
  next
    case (Emit f)
    have "s = encode_frame f @ drop (frame_length f) s"
      using scan_step_Emit(2) [OF Emit] by (metis append_take_drop_id)
    with "1.IH"(4) [OF Emit] scan_step_Emit(1) [OF Emit]
    have "tiles s (f # sc_frames (scan (drop (frame_length f) s))) (sc_rest (scan (drop (frame_length f) s)))"
      by (metis tiles_frame)
    with Emit show ?thesis by (simp add: scan.simps [of s] Let_def)
  qed (use "1.IH" skip in \<open>simp_all add: scan.simps [of s] Let_def\<close>)
qed

text \<open>
  C10: nothing is invented. The bytes held plus the bytes fed are the accepted frames in their
  order, each present byte for byte as its wire encoding with a matching checksum and an allowed
  length, between stretches of skipped bytes, followed by the bytes held back.
\<close>

theorem feed_sound:
  assumes "parser_invar p" and "feed p data = Some (p', frames)"
  shows "\<exists>gfs junk. map snd gfs = frames \<and> list_all (\<lambda>gf. frame_ok (snd gf)) gfs
    \<and> parser_bytes p @ data = tiled gfs @ junk @ parser_bytes p'"
proof -
  obtain q where q: "feed p data = Some (q, sc_frames (scan (parser_bytes p @ data)))"
      "add_counts p (scan (parser_bytes p @ data)) q"
    by (rule feed_scan [OF assms(1)])
  then have "frames = sc_frames (scan (parser_bytes p @ data))"
      "parser_bytes p' = sc_rest (scan (parser_bytes p @ data))"
    using assms(2) by (simp_all add: add_counts_def)
  with scan_tiles [of "parser_bytes p @ data"] show ?thesis by (simp add: tiles_def)
qed

lemma scan_skip_noise: "kHeader1 \<notin> set g \<Longrightarrow> scan (g @ s) = scan s"
proof (induction g)
  case (Cons b g)
  then have "scan_step (b # g @ s) = Skip" by (auto simp: scan_step_def)
  with Cons show ?case by (simp add: scan.simps [of "b # g @ s"])
qed simp

lemma scan_encode_frame:
  assumes "frame_ok f"
  shows "scan (encode_frame f @ s) = (scan s)\<lparr>sc_frames := f # sc_frames (scan s)\<rparr>"
proof -
  have "frame_at_start (encode_frame f @ s) = Some f"
    using assms by (simp add: frame_at_start_iff)
  moreover have "scan_step (encode_frame f @ s) \<noteq> Wait"
    using assms length_encode_frame [of f]
    by (auto simp: scan_step_def encode_frame_def crc_region_def frame_ok_def unat_payload_length
        kFixedFieldSize_def frame_length_def max_payload_less split: option.splits)
  ultimately have "scan_step (encode_frame f @ s) = Emit f"
    using scan_step_frame_at_start [of "encode_frame f @ s"]
    by (cases "scan_step (encode_frame f @ s)") auto
  then show ?thesis
    by (simp add: scan.simps [of "encode_frame f @ s"] Let_def)
qed

lemma scan_tiled:
  assumes "list_all (\<lambda>(gap, f). kHeader1 \<notin> set gap \<and> frame_ok f) gfs"
  shows "scan (tiled gfs @ s) = (scan s)\<lparr>sc_frames := map snd gfs @ sc_frames (scan s)\<rparr>"
  using assms
  by (induction gfs rule: tiled.induct) (simp_all add: scan_skip_noise scan_encode_frame)

text \<open>
  C9: round trip through the wire. Any sequence of well-formed frames, sent back to back or
  with line noise in between that does not contain the first header byte, is returned by
  \<open>parse_stream\<close> completely and in order.
\<close>

theorem parse_stream_roundtrip:
  assumes "list_all (\<lambda>(gap, f). kHeader1 \<notin> set gap \<and> frame_ok f) gfs" and "kHeader1 \<notin> set tail"
  shows "parse_stream (tiled gfs @ tail) = Some (map snd gfs)"
proof -
  have "scan tail = scan []" using scan_skip_noise [OF assms(2), of "[]"] by simp
  then have "scan (tiled gfs @ tail) = (scan [])\<lparr>sc_frames := map snd gfs\<rparr>"
    using scan_tiled [OF assms(1), of tail] by (simp add: scan_wait)
  moreover obtain p' where "feed frame_parser_init (tiled gfs @ tail)
      = Some (p', sc_frames (scan (parser_bytes frame_parser_init @ tiled gfs @ tail)))"
    by (rule feed_scan [OF parser_invar_init(1)])
  ultimately show ?thesis
    by (simp add: parse_stream_def parser_invar_init)
qed

text \<open>The example frame of the protocol description, as bytes and as the frame it carries.\<close>

definition example_bytes :: "u8 list" where
  "example_bytes = [0xAA, 0x55, 0x0B, 0x01, 0x10, 0x00, 0xFD, 0x02, 0x60, 0x01, 0x2C, 0x0E, 0x74,
     0x00, 0x00, 0x01, 0x4D, 0x58]"

definition example_frame :: frame where
  "example_frame = \<lparr>f_cmd = 0x01, f_device_id = 0x10,
     f_payload = [0x00, 0xFD, 0x02, 0x60, 0x01, 0x2C, 0x0E, 0x74, 0x00, 0x00, 0x01],
     f_crc = 0x584D\<rparr>"

lemma example_frame_ok: "frame_ok example_frame"
  by (simp add: frame_ok_def crc_region_def example_frame_def crc16_eval)

lemma example_frame_encoded: "encode_frame example_frame = example_bytes"
  by (simp add: encode_frame_def crc_region_def example_frame_def example_bytes_def kHeader1_def
      kHeader2_def low_byte_def high_byte_def)

theorem feed_sound_witness:
  "\<exists>p' frames gfs junk. feed frame_parser_init example_bytes = Some (p', frames)
    \<and> map snd gfs = frames \<and> list_all (\<lambda>gf. frame_ok (snd gf)) gfs
    \<and> parser_bytes frame_parser_init @ example_bytes = tiled gfs @ junk @ parser_bytes p'"
proof -
  obtain p' frames where "feed frame_parser_init example_bytes = Some (p', frames)"
    by (rule feed_scan [OF parser_invar_init(1), of example_bytes])
  with feed_sound [OF parser_invar_init(1) this] show ?thesis by blast
qed

theorem parse_stream_roundtrip_witness:
  "parse_stream ([0x00, 0x55] @ example_bytes @ example_bytes @ [0x0D]) = Some [example_frame, example_frame]"
proof -
  let ?gfs = "[([0x00, 0x55 :: u8], example_frame), ([], example_frame)]"
  have "parse_stream (tiled ?gfs @ [0x0D]) = Some (map snd ?gfs)"
    by (rule parse_stream_roundtrip) (simp_all add: kHeader1_def example_frame_ok)
  then show ?thesis by (simp add: example_frame_encoded)
qed

definition frame_body :: "frame \<Rightarrow> u8 list" where
  "frame_body f = crc_region f @ [low_byte (f_crc f), high_byte (f_crc f)]"

lemma frame_ok_residue: "frame_ok f \<Longrightarrow> crc16_modbus (frame_body f) = 0"
  by (simp add: frame_body_def crc16_modbus_append crc16_low_high_residue frame_ok_def)

lemma encode_frame_body: "encode_frame f = kHeader1 # kHeader2 # frame_body f"
  by (simp add: encode_frame_def frame_body_def)

lemma length_frame_body: "length (frame_body f) = length (f_payload f) + 5"
  by (simp add: frame_body_def crc_region_def)

text \<open>
  C14: a frame damaged on the line in one byte or in two neighbouring bytes, anywhere in its
  header, length, command, device, payload or checksum, is never accepted, neither as the frame
  that was sent nor as any other.
\<close>

theorem damaged_frame_rejected:
  assumes "frame_ok f" and "Suc i < frame_length f"
    and "(encode_frame f)[i := a, Suc i := b] \<noteq> encode_frame f"
  shows "parse_complete_frame ((encode_frame f)[i := a, Suc i := b]) = None"
proof (rule ccontr)
  assume "parse_complete_frame ((encode_frame f)[i := a, Suc i := b]) \<noteq> None"
  then obtain g where g: "frame_ok g" "(encode_frame f)[i := a, Suc i := b] = encode_frame g"
    by (auto simp: parse_complete_frame_iff)
  have zero: "crc16_modbus (frame_body f) = 0" "crc16_modbus (frame_body g) = 0"
    using assms(1) g(1) by (simp_all add: frame_ok_residue)
  from g(2) assms(3) consider (one) "(frame_body f)[0 := b] = frame_body g" "frame_body g \<noteq> frame_body f"
    | (two) j where "i = Suc (Suc j)" "(frame_body f)[j := a, Suc j := b] = frame_body g"
        "frame_body g \<noteq> frame_body f"
    by (cases i; cases "i - 1") (auto simp: encode_frame_body)
  then show False
  proof cases
    case one
    with crc16_single_update [of "frame_body f" b] zero show False
      by (simp add: length_frame_body)
  next
    case two
    with crc16_pair_update [of j "frame_body f" a b] zero assms(2) show False
      by (simp add: length_frame_body frame_length_def kFixedFieldSize_def)
  qed
qed

theorem damaged_frame_rejected_witness:
  "parse_complete_frame ((encode_frame example_frame)[6 := 0xFE, 7 := 0x03]) = None"
proof -
  have "parse_complete_frame ((encode_frame example_frame)[6 := 0xFE, Suc 6 := 0x03]) = None"
    by (rule damaged_frame_rejected [OF example_frame_ok])
      (simp_all add: frame_length_def kFixedFieldSize_def example_frame_def example_frame_encoded
        encode_frame_def crc_region_def)
  then show ?thesis by simp
qed

lemma wait_header: "scan_step xs = Wait \<Longrightarrow> xs \<noteq> [] \<Longrightarrow> kHeader1 \<in> set xs"
  by (cases xs) (auto simp: scan_step_def split: if_splits)

lemma scan_rest_suffix: "suffix (sc_rest (scan s)) s"
  using scan_tiles [of s] by (auto simp: tiles_def suffix_def) (metis append_assoc)

lemma scan_idle_line:
  assumes "kHeader1 \<notin> set noise" and "70 \<le> length noise"
  shows "sc_rest (scan (s @ noise)) = []"
proof (rule ccontr)
  let ?r = "sc_rest (scan (s @ noise))"
  assume "?r \<noteq> []"
  with scan_rest_waits have "kHeader1 \<in> set ?r" by (blast intro: wait_header)
  moreover have "length ?r \<le> length noise"
    using wait_short [OF scan_rest_waits, of "s @ noise"] assms(2) by simp
  with scan_rest_suffix [of "s @ noise"] have "suffix ?r noise"
    by (metis suffix_length_suffix suffix_appendI suffix_order.refl)
  ultimately show False using assms(1) set_mono_suffix by blast
qed

text \<open>
  C13: recovery. Whatever a parser was fed before, after 70 bytes without the first header byte
  it is synchronised again: of any well-formed frames that follow (with more such noise in
  between) none is missed.
\<close>

theorem parser_resynchronises:
  assumes "parser_invar p" and "kHeader1 \<notin> set noise" and "70 \<le> length noise"
    and "list_all (\<lambda>(gap, f). kHeader1 \<notin> set gap \<and> frame_ok f) gfs"
  shows "\<exists>p' earlier. feed p (noise @ tiled gfs) = Some (p', earlier @ map snd gfs)"
proof -
  let ?s = "parser_bytes p @ noise"
  obtain p' where p': "feed p (noise @ tiled gfs)
      = Some (p', sc_frames (scan (parser_bytes p @ noise @ tiled gfs)))"
    by (rule feed_scan [OF assms(1)])
  have "sc_frames (scan (?s @ tiled gfs)) = sc_frames (scan ?s) @ sc_frames (scan (tiled gfs @ []))"
    using scan_append [of ?s "tiled gfs"] scan_idle_line [OF assms(2,3), of "parser_bytes p"]
    by (simp add: Let_def)
  also have "\<dots> = sc_frames (scan ?s) @ map snd gfs"
    by (subst scan_tiled [OF assms(4)]) (simp add: scan_wait)
  finally show ?thesis using p' by simp
qed

theorem parser_resynchronises_witness:
  "\<exists>p' earlier. feed frame_parser_init (replicate 70 0x00 @ tiled [([0x01], example_frame)])
    = Some (p', earlier @ map snd [([0x01 :: u8], example_frame)])"
  by (rule parser_resynchronises [OF parser_invar_init(1)])
    (simp_all add: kHeader1_def example_frame_ok)

end
