(* ===== verification/Double.thy ===== *)
theory Double
  imports Prelude
begin

text \<open>
  The part of IEEE binary64 arithmetic the gateway uses on readings: dividing a small integer by
  \<open>10.0\<close> with round-to-nearest-even, comparing with integral limits, and printing with one digit
  after the point (\<open>std::fixed << std::setprecision(1)\<close>, which rounds the exact binary value
  half to even). A finite double is \<open>mant / 2 ^ scale\<close>; infinities, NaN and negative zero cannot
  arise from these operations. The lemmas show that the rounding is never visible: limits
  are decided, and digits printed, exactly as on the integer number of tenths.
\<close>

section \<open>Values and operations\<close>

datatype double = Double (mant: int) (scale: nat)

definition round_half_even :: "int \<Rightarrow> int \<Rightarrow> int" where
  "round_half_even num den =
     (let q = num div den; r = num mod den
      in if 2 * r < den \<or> (2 * r = den \<and> even q) then q else q + 1)"

definition double_of_int :: "int \<Rightarrow> double" where
  "double_of_int k = Double k 0"

text \<open>The scale at which a quotient by 10 has a significand of 53 bits.\<close>

definition div10_scale :: "int \<Rightarrow> nat" where
  "div10_scale n = hd (filter (\<lambda>e. 10 * 2 ^ 52 \<le> n * 2 ^ e) [0..<57] @ [56])"

definition double_div10 :: "int \<Rightarrow> double" where
  "double_div10 x =
     (if x = 0 then Double 0 0
      else let e = div10_scale \<bar>x\<bar> in Double (round_half_even (x * 2 ^ e) 10) e)"

definition double_less :: "double \<Rightarrow> double \<Rightarrow> bool" where
  "double_less a b \<longleftrightarrow> mant a * 2 ^ scale b < mant b * 2 ^ scale a"

definition double_fixed1 :: "double \<Rightarrow> string" where
  "double_fixed1 d =
     (let tenths = nat (round_half_even (10 * \<bar>mant d\<bar>) (2 ^ scale d))
      in (if mant d < 0 then ''-'' else '''') @ nat_to_dec (tenths div 10) @ ''.''
         @ nat_to_dec (tenths mod 10))"

section \<open>Rounding\<close>

lemma round_half_even_bound:
  assumes "0 < den"
  shows "\<bar>2 * (round_half_even num den * den - num)\<bar> \<le> den"
proof -
  let ?q = "num div den" and ?r = "num mod den"
  have num: "num = ?q * den + ?r" by simp
  have r: "0 \<le> ?r" "?r < den" using assms by simp_all
  have "round_half_even num den = ?q \<and> 2 * ?r \<le> den \<or> round_half_even num den = ?q + 1 \<and> den \<le> 2 * ?r"
    by (auto simp: round_half_even_def Let_def)
  then show ?thesis
  proof
    assume "round_half_even num den = ?q \<and> 2 * ?r \<le> den"
    then have "round_half_even num den * den - num = - ?r" "2 * ?r \<le> den"
      using num by (auto simp: algebra_simps)
    with r show ?thesis by simp
  next
    assume "round_half_even num den = ?q + 1 \<and> den \<le> 2 * ?r"
    then have "round_half_even num den * den - num = den - ?r" "den \<le> 2 * ?r"
      using num by (auto simp: algebra_simps)
    with r show ?thesis by simp
  qed
qed

lemma round_half_even_nearest:
  assumes "0 < den" and "\<bar>2 * (k * den - num)\<bar> < den"
  shows "round_half_even num den = k"
proof -
  let ?m = "round_half_even num den"
  have "\<bar>2 * (?m * den - num)\<bar> \<le> den" by (rule round_half_even_bound [OF assms(1)])
  with assms(2) have "\<bar>(?m - k) * den\<bar> < 1 * den" by (simp add: left_diff_distrib)
  then have "\<bar>?m - k\<bar> < 1"
    using assms(1) by (simp add: abs_mult mult_less_cancel_right)
  then show ?thesis by simp
qed

lemma div10_scale_props:
  assumes "0 < n"
  shows "10 * 2 ^ 52 \<le> n * 2 ^ div10_scale n"
proof -
  have "10 * 2 ^ 52 \<le> (1 :: int) * 2 ^ 56" by simp
  also have "\<dots> \<le> n * 2 ^ 56" using assms by simp
  finally have "56 \<in> set (filter (\<lambda>e. 10 * 2 ^ 52 \<le> n * 2 ^ e) [0..<57])" by simp
  then have "filter (\<lambda>e. 10 * 2 ^ 52 \<le> n * 2 ^ e) [0..<57] \<noteq> []"
    by (metis empty_iff list.set(1))
  then obtain e es where "filter (\<lambda>e. 10 * 2 ^ 52 \<le> n * 2 ^ e) [0..<57] = e # es"
    by (meson neq_Nil_conv)
  then show ?thesis
    by (auto simp: div10_scale_def filter_eq_Cons_iff)
qed

lemma div10_scale_large:
  assumes "0 < n" and "n < 131072"
  shows "8 \<le> div10_scale n"
proof (rule ccontr)
  assume "\<not> 8 \<le> div10_scale n"
  then have "(2 :: int) ^ div10_scale n \<le> 2 ^ 7" by (intro power_increasing) auto
  then have "n * 2 ^ div10_scale n \<le> 131072 * 2 ^ 7"
    using assms by (intro mult_mono) auto
  with div10_scale_props [OF assms(1)] show False by simp
qed

text \<open>The quotient is the nearest representable value: its error is at most half a unit.\<close>

lemma double_div10_error:
  "\<bar>10 * mant (double_div10 x) - x * 2 ^ scale (double_div10 x)\<bar> \<le> 5"
proof (cases "x = 0")
  case False
  then show ?thesis
    using round_half_even_bound [of 10 "x * 2 ^ div10_scale \<bar>x\<bar>"]
    by (simp add: double_div10_def Let_def)
qed (simp add: double_div10_def)

lemma double_div10_scale:
  "\<bar>x\<bar> < 131072 \<Longrightarrow> x = 0 \<and> double_div10 x = Double 0 0 \<or> 8 \<le> scale (double_div10 x)"
  using div10_scale_large [of "\<bar>x\<bar>"] by (auto simp: double_div10_def Let_def)

section \<open>The rounding is not visible\<close>

lemma double_div10_less_int:
  assumes "\<bar>x\<bar> < 131072"
  shows "double_less (double_div10 x) (double_of_int k) \<longleftrightarrow> x < 10 * k"
    and "double_less (double_of_int k) (double_div10 x) \<longleftrightarrow> 10 * k < x"
proof -
  let ?m = "mant (double_div10 x)" and ?E = "2 ^ scale (double_div10 x) :: int"
  note err = double_div10_error [of x]
  have E: "?m = 0 \<and> ?E = 1 \<and> x = 0 \<or> 256 \<le> ?E"
    using double_div10_scale [OF assms]
  proof
    assume "8 \<le> scale (double_div10 x)"
    then have "(2 :: int) ^ 8 \<le> ?E" by (rule power_increasing) simp
    then show ?thesis by simp
  qed auto
  have pos: "0 < ?E" by simp
  have low: "x * ?E \<le> (10 * k - 1) * ?E" if "x < 10 * k"
    using that pos by (intro mult_right_mono) auto
  have high: "(10 * k + 1) * ?E \<le> x * ?E" if "10 * k < x"
    using that pos by (intro mult_right_mono) auto
  have eq: "x * ?E = 10 * (k * ?E)" if "x = 10 * k" using that by simp
  consider "x < 10 * k" | "x = 10 * k" | "10 * k < x" by linarith
  then have "(?m < k * ?E \<longleftrightarrow> x < 10 * k) \<and> (k * ?E < ?m \<longleftrightarrow> 10 * k < x)"
  proof cases
    case 1
    with low E err show ?thesis by (auto simp: left_diff_distrib)
  next
    case 2
    with eq err show ?thesis by auto
  next
    case 3
    with high E err show ?thesis by (auto simp: distrib_right)
  qed
  then show "double_less (double_div10 x) (double_of_int k) \<longleftrightarrow> x < 10 * k"
    and "double_less (double_of_int k) (double_div10 x) \<longleftrightarrow> 10 * k < x"
    by (simp_all add: double_less_def double_of_int_def)
qed

definition tenths_text :: "int \<Rightarrow> string" where
  "tenths_text x = (if x < 0 then ''-'' else '''') @ nat_to_dec (nat \<bar>x\<bar> div 10) @ ''.''
     @ nat_to_dec (nat \<bar>x\<bar> mod 10)"

lemma double_fixed1_div10:
  assumes "\<bar>x\<bar> < 131072"
  shows "double_fixed1 (double_div10 x) = tenths_text x"
proof -
  let ?m = "mant (double_div10 x)" and ?E = "2 ^ scale (double_div10 x) :: int"
  have sign: "?m < 0 \<longleftrightarrow> x < 0"
    using double_div10_less_int(1) [OF assms, of 0] by (simp add: double_less_def double_of_int_def)
  have "round_half_even (10 * \<bar>?m\<bar>) ?E = \<bar>x\<bar>"
    using double_div10_scale [OF assms]
  proof
    assume "x = 0 \<and> double_div10 x = Double 0 0"
    then show ?thesis by (simp add: round_half_even_def double_div10_def)
  next
    assume "8 \<le> scale (double_div10 x)"
    then have "(2 :: int) ^ 8 \<le> ?E" by (rule power_increasing) simp
    moreover have "\<bar>\<bar>x\<bar> * ?E - 10 * \<bar>?m\<bar>\<bar> = \<bar>\<bar>x * ?E\<bar> - \<bar>10 * ?m\<bar>\<bar>"
      by (simp add: abs_mult)
    then have "\<bar>\<bar>x\<bar> * ?E - 10 * \<bar>?m\<bar>\<bar> \<le> 5"
      using double_div10_error [of x] by linarith
    ultimately show ?thesis
      by (intro round_half_even_nearest) auto
  qed
  with sign show ?thesis by (simp add: double_fixed1_def tenths_text_def Let_def)
qed

end
