(* ===== verification/SensorData.thy ===== *)
theory SensorData
  imports FrameParser Double
begin

text \<open>
  \<^verbatim>\<open>src/src/app/sensor_data.{h,cpp}\<close>: from a frame to a reading, the range and status
  checks with their warnings, and the JSON text. Output parameters become results, so
  \<open>parse_sensor_data\<close> returns the boolean of the source together with the reading.
\<close>

section \<open>Readings\<close>

record sensor_data =
  s_device_id :: u8
  s_cmd :: u8
  temperature_c :: double
  humidity_percent :: double
  gas_ppm :: u16
  battery_mv :: u16
  s_status :: u8
  s_sequence :: u16
  s_valid :: bool
  s_warnings :: "string list"

definition sensor_data_init :: sensor_data where
  "sensor_data_init = \<lparr>s_device_id = 0, s_cmd = 0, temperature_c = double_of_int 0,
     humidity_percent = double_of_int 0, gas_ppm = 0, battery_mv = 0, s_status = 0,
     s_sequence = 0, s_valid = True, s_warnings = []\<rparr>"

definition kSensorPayloadSize :: nat where "kSensorPayloadSize = 11"

definition read_u16_be :: "u8 list \<Rightarrow> nat \<Rightarrow> u16" where
  "read_u16_be data offset = word_of_be (data ! offset) (data ! (offset + 1))"

definition read_i16_be :: "u8 list \<Rightarrow> nat \<Rightarrow> int" where
  "read_i16_be data offset = sint (word_of_be (data ! offset) (data ! (offset + 1)))"

definition add_warning :: "sensor_data \<Rightarrow> string \<Rightarrow> sensor_data" where
  "add_warning data warning = data\<lparr>s_valid := False, s_warnings := s_warnings data @ [warning]\<rparr>"

definition warn_if :: "bool \<Rightarrow> string \<Rightarrow> sensor_data \<Rightarrow> sensor_data" where
  "warn_if condition warning data = (if condition then add_warning data warning else data)"

definition validate_sensor_data_impl :: "sensor_data \<Rightarrow> sensor_data" where
  "validate_sensor_data_impl d0 =
     (let d1 = warn_if (double_less (temperature_c d0) (double_of_int (-40))
                 \<or> double_less (double_of_int 85) (temperature_c d0)) ''temperature out of range'' d0;
          d2 = warn_if (double_less (humidity_percent d1) (double_of_int 0)
                 \<or> double_less (double_of_int 100) (humidity_percent d1)) ''humidity out of range'' d1;
          d3 = warn_if (5000 < gas_ppm d2) ''gas concentration out of range'' d2;
          d4 = warn_if (battery_mv d3 < 3000 \<or> 4200 < battery_mv d3) ''battery voltage out of range'' d3;
          d5 = warn_if (s_status d4 AND 0x01 \<noteq> 0) ''device reports sensor fault'' d4;
          d6 = warn_if (s_status d5 AND 0x02 \<noteq> 0) ''device reports low battery'' d5
      in warn_if (s_status d6 AND 0x04 \<noteq> 0) ''device is calibrating'' d6)"

definition parse_sensor_data :: "frame \<Rightarrow> bool \<times> sensor_data" where
  "parse_sensor_data frame =
     (let out0 = sensor_data_init\<lparr>s_device_id := f_device_id frame, s_cmd := f_cmd frame\<rparr>
      in if length (f_payload frame) \<noteq> kSensorPayloadSize then
           (False, add_warning out0 ''invalid payload length'')
         else
           let temperature_x10 = read_i16_be (f_payload frame) 0;
               humidity_x10 = read_u16_be (f_payload frame) 2;
               out1 = out0\<lparr>temperature_c := double_div10 temperature_x10,
                 humidity_percent := double_div10 (uint humidity_x10),
                 gas_ppm := read_u16_be (f_payload frame) 4,
                 battery_mv := read_u16_be (f_payload frame) 6,
                 s_status := f_payload frame ! 8,
                 s_sequence := read_u16_be (f_payload frame) 9\<rparr>;
               out2 = validate_sensor_data_impl out1
           in (s_valid out2, out2))"

definition validate_sensor_data :: "sensor_data \<Rightarrow> sensor_data" where
  "validate_sensor_data data = validate_sensor_data_impl (data\<lparr>s_valid := True, s_warnings := []\<rparr>)"

section \<open>JSON\<close>

fun json_warnings :: "nat \<Rightarrow> string list \<Rightarrow> string" where
  \<open>json_warnings i [] = ''''\<close>
| \<open>json_warnings i (w # ws) =
     (if i \<noteq> 0 then '','' else '''') @ ''"'' @ w @ ''"'' @ json_warnings (Suc i) ws\<close>

definition sensor_data_to_json :: "sensor_data \<Rightarrow> string" where
  \<open>sensor_data_to_json data =
     ''{''
     @ ''"device_id":'' @ nat_to_dec (unat (s_device_id data)) @ '',''
     @ ''"cmd":'' @ nat_to_dec (unat (s_cmd data)) @ '',''
     @ ''"temperature_c":'' @ double_fixed1 (temperature_c data) @ '',''
     @ ''"humidity_percent":'' @ double_fixed1 (humidity_percent data) @ '',''
     @ ''"gas_ppm":'' @ nat_to_dec (unat (gas_ppm data)) @ '',''
     @ ''"battery_mv":'' @ nat_to_dec (unat (battery_mv data)) @ '',''
     @ ''"status":'' @ nat_to_dec (unat (s_status data)) @ '',''
     @ ''"sequence":'' @ nat_to_dec (unat (s_sequence data)) @ '',''
     @ ''"valid":'' @ (if s_valid data then ''true'' else ''false'')
     @ (if s_warnings data \<noteq> []
        then '',"warnings":['' @ json_warnings 0 (s_warnings data) @ '']''
        else '''')
     @ ''}''\<close>

section \<open>The checks, in tenths and integers\<close>

text \<open>
  What the checks amount to when temperature and humidity are numbers of tenths: the limits of
  the protocol description, one warning per violated limit or raised status bit, in this order.
\<close>

definition range_warnings :: "int \<Rightarrow> int \<Rightarrow> u16 \<Rightarrow> u16 \<Rightarrow> u8 \<Rightarrow> string list" where
  "range_warnings t h gas battery status =
     (if t < -400 \<or> 850 < t then [''temperature out of range''] else [])
     @ (if h < 0 \<or> 1000 < h then [''humidity out of range''] else [])
     @ (if 5000 < unat gas then [''gas concentration out of range''] else [])
     @ (if unat battery < 3000 \<or> 4200 < unat battery then [''battery voltage out of range''] else [])
     @ (if bit status 0 then [''device reports sensor fault''] else [])
     @ (if bit status 1 then [''device reports low battery''] else [])
     @ (if bit status 2 then [''device is calibrating''] else [])"

lemma status_bits:
  "(s :: u8) AND 1 \<noteq> 0 \<longleftrightarrow> bit s 0" "s AND 2 \<noteq> 0 \<longleftrightarrow> bit s 1" "s AND 4 \<noteq> 0 \<longleftrightarrow> bit s 2"
proof -
  have and_exp: "s AND 2 ^ n \<noteq> 0 \<longleftrightarrow> bit s n" if "n < 8" for n :: nat
    using that by (subst bit_eq_iff) (auto simp: bit_and_iff bit_exp_iff)
  show "s AND 1 \<noteq> 0 \<longleftrightarrow> bit s 0" "s AND 2 \<noteq> 0 \<longleftrightarrow> bit s 1" "s AND 4 \<noteq> 0 \<longleftrightarrow> bit s 2"
    using and_exp [of 0] and_exp [of 1] and_exp [of 2] by simp_all
qed

lemma add_warning_simps [simp]:
  "s_valid (add_warning d w) = False" "s_warnings (add_warning d w) = s_warnings d @ [w]"
  by (simp_all add: add_warning_def)

lemma warn_if_simps [simp]:
  "s_valid (warn_if c w d) \<longleftrightarrow> s_valid d \<and> \<not> c"
  "s_warnings (warn_if c w d) = s_warnings d @ (if c then [w] else [])"
  "s_device_id (warn_if c w d) = s_device_id d" "s_cmd (warn_if c w d) = s_cmd d"
  "temperature_c (warn_if c w d) = temperature_c d"
  "humidity_percent (warn_if c w d) = humidity_percent d"
  "gas_ppm (warn_if c w d) = gas_ppm d" "battery_mv (warn_if c w d) = battery_mv d"
  "s_status (warn_if c w d) = s_status d" "s_sequence (warn_if c w d) = s_sequence d"
  by (simp_all add: warn_if_def add_warning_def)

lemma validate_impl_frame [simp]:
  "s_device_id (validate_sensor_data_impl d) = s_device_id d"
  "s_cmd (validate_sensor_data_impl d) = s_cmd d"
  "temperature_c (validate_sensor_data_impl d) = temperature_c d"
  "humidity_percent (validate_sensor_data_impl d) = humidity_percent d"
  "gas_ppm (validate_sensor_data_impl d) = gas_ppm d"
  "battery_mv (validate_sensor_data_impl d) = battery_mv d"
  "s_status (validate_sensor_data_impl d) = s_status d"
  "s_sequence (validate_sensor_data_impl d) = s_sequence d"
  by (simp_all add: validate_sensor_data_impl_def Let_def)

lemma u16_limits:
  "(5000 :: u16) < g \<longleftrightarrow> 5000 < unat g" "(b :: u16) < 3000 \<longleftrightarrow> unat b < 3000"
  "(4200 :: u16) < b \<longleftrightarrow> 4200 < unat b"
  by (simp_all add: word_less_nat_alt)

lemma validate_impl_warnings:
  assumes "temperature_c d = double_div10 t" "\<bar>t\<bar> < 131072"
    and "humidity_percent d = double_div10 h" "\<bar>h\<bar> < 131072"
  defines "ws \<equiv> range_warnings t h (gas_ppm d) (battery_mv d) (s_status d)"
  shows "s_warnings (validate_sensor_data_impl d) = s_warnings d @ ws"
    and "s_valid (validate_sensor_data_impl d) \<longleftrightarrow> s_valid d \<and> ws = []"
proof -
  have t: "double_less (temperature_c d) (double_of_int (-40)) \<longleftrightarrow> t < -400"
      "double_less (double_of_int 85) (temperature_c d) \<longleftrightarrow> 850 < t"
    using double_div10_less_int [OF assms(2)] by (simp_all add: assms(1))
  have h: "double_less (humidity_percent d) (double_of_int 0) \<longleftrightarrow> h < 0"
      "double_less (double_of_int 100) (humidity_percent d) \<longleftrightarrow> 1000 < h"
    using double_div10_less_int [OF assms(4)] by (simp_all add: assms(3))
  note eqs = t h u16_limits status_bits
  show "s_warnings (validate_sensor_data_impl d) = s_warnings d @ ws"
    by (simp add: validate_sensor_data_impl_def Let_def ws_def range_warnings_def eqs)
  show "s_valid (validate_sensor_data_impl d) \<longleftrightarrow> s_valid d \<and> ws = []"
    by (simp add: validate_sensor_data_impl_def Let_def ws_def range_warnings_def eqs)
qed

lemma sint_u16_bound: "\<bar>sint (w :: u16)\<bar> < 131072"
  using sint_greater_eq [of w] sint_less [of w] by auto

lemma uint_u16_bound: "uint (w :: u16) < 131072"
  using unsigned_less [of w, where 'a = int] by simp

section \<open>Decoding a payload\<close>

text \<open>The documented layout of a sensor payload: big-endian fields at offsets 0, 2, 4, 6, 8 and 9.\<close>

definition sensor_payload :: "u16 \<Rightarrow> u16 \<Rightarrow> u16 \<Rightarrow> u16 \<Rightarrow> u8 \<Rightarrow> u16 \<Rightarrow> u8 list" where
  "sensor_payload t h gas battery status seq =
     [high_byte t, low_byte t, high_byte h, low_byte h, high_byte gas, low_byte gas,
      high_byte battery, low_byte battery, status, high_byte seq, low_byte seq]"

definition reading :: "u8 \<Rightarrow> u8 \<Rightarrow> int \<Rightarrow> int \<Rightarrow> u16 \<Rightarrow> u16 \<Rightarrow> u8 \<Rightarrow> u16 \<Rightarrow> sensor_data" where
  "reading dev cmd t h gas battery status seq =
     (let ws = range_warnings t h gas battery status in
      \<lparr>s_device_id = dev, s_cmd = cmd, temperature_c = double_div10 t,
       humidity_percent = double_div10 h, gas_ppm = gas, battery_mv = battery, s_status = status,
       s_sequence = seq, s_valid = (ws = []), s_warnings = ws\<rparr>)"

lemma sensor_data_eqI:
  fixes a b :: sensor_data
  assumes "s_device_id a = s_device_id b" "s_cmd a = s_cmd b" "temperature_c a = temperature_c b"
    "humidity_percent a = humidity_percent b" "gas_ppm a = gas_ppm b" "battery_mv a = battery_mv b"
    "s_status a = s_status b" "s_sequence a = s_sequence b" "s_valid a = s_valid b"
    "s_warnings a = s_warnings b"
  shows "a = b"
  using assms by (cases a; cases b) simp

text \<open>The shared last step of all three input protocols: checks on a reading in tenths.\<close>

lemma validate_reading:
  assumes "\<bar>t\<bar> < 131072" "\<bar>h\<bar> < 131072"
  shows "validate_sensor_data_impl
      \<lparr>s_device_id = dev, s_cmd = cmd, temperature_c = double_div10 t,
       humidity_percent = double_div10 h, gas_ppm = gas, battery_mv = battery, s_status = status,
       s_sequence = seq, s_valid = True, s_warnings = []\<rparr>
    = reading dev cmd t h gas battery status seq"
  by (rule sensor_data_eqI)
    (simp_all add: reading_def Let_def validate_impl_warnings [where t = t and h = h] assms)

lemma sensor_payload_ex:
  assumes "length p = kSensorPayloadSize"
  shows "\<exists>t h gas battery status seq. p = sensor_payload t h gas battery status seq"
proof -
  obtain a b c d e f g h i j k where p: "p = [a, b, c, d, e, f, g, h, i, j, k]"
    using assms by (auto simp: kSensorPayloadSize_def eval_nat_numeral length_Suc_conv)
  show ?thesis
    by (rule exI [of _ "word_of_be a b"], rule exI [of _ "word_of_be c d"],
        rule exI [of _ "word_of_be e f"], rule exI [of _ "word_of_be g h"], rule exI [of _ i],
        rule exI [of _ "word_of_be j k"]) (simp add: p sensor_payload_def)
qed

lemma parse_sensor_data_correct_payload:
  assumes "f_payload f = sensor_payload t h gas battery status seq"
  shows "parse_sensor_data f = (range_warnings (sint t) (uint h) gas battery status = [],
    reading (f_device_id f) (f_cmd f) (sint t) (uint h) gas battery status seq)"
  by (simp add: parse_sensor_data_def assms sensor_payload_def kSensorPayloadSize_def
      sensor_data_init_def Let_def read_i16_be_def read_u16_be_def validate_reading sint_u16_bound
      uint_u16_bound)
    (simp add: reading_def Let_def)

text \<open>
  C19: decoding a sensor payload. Every 11-byte payload decodes to the reading its six fields
  stand for: temperature as signed and humidity as unsigned tenths, no warning and the result
  \<open>true\<close> exactly when all limits hold and the three status bits are clear, otherwise one
  warning per violation. Any other payload length is refused with the result \<open>false\<close>.
\<close>

theorem parse_sensor_data_correct:
  "parse_sensor_data f =
     (if length (f_payload f) = 11 then
        let t = sint (word_of_be (f_payload f ! 0) (f_payload f ! 1));
            h = uint (word_of_be (f_payload f ! 2) (f_payload f ! 3));
            gas = word_of_be (f_payload f ! 4) (f_payload f ! 5);
            battery = word_of_be (f_payload f ! 6) (f_payload f ! 7);
            status = f_payload f ! 8;
            seq = word_of_be (f_payload f ! 9) (f_payload f ! 10)
        in (range_warnings t h gas battery status = [],
            reading (f_device_id f) (f_cmd f) t h gas battery status seq)
      else (False, add_warning (sensor_data_init\<lparr>s_device_id := f_device_id f, s_cmd := f_cmd f\<rparr>)
              ''invalid payload length''))"
proof (cases "length (f_payload f) = 11")
  case True
  then show ?thesis
    by (simp add: parse_sensor_data_def kSensorPayloadSize_def sensor_data_init_def Let_def
        read_i16_be_def read_u16_be_def validate_reading sint_u16_bound uint_u16_bound)
      (simp add: reading_def Let_def)
next
  case False
  then show ?thesis by (simp add: parse_sensor_data_def kSensorPayloadSize_def)
qed

section \<open>The JSON text\<close>

lemma printable_double_fixed1 [simp]: "printable (double_fixed1 d)"
  by (simp add: double_fixed1_def Let_def)

lemma printable_json_warnings:
  "list_all printable ws \<Longrightarrow> printable (json_warnings i ws)"
  by (induction ws arbitrary: i) auto

lemma printable_sensor_json:
  "list_all printable (s_warnings d) \<Longrightarrow> printable (sensor_data_to_json d)"
  by (simp add: sensor_data_to_json_def printable_json_warnings)

lemma printable_range_warnings: "list_all printable (range_warnings t h gas battery status)"
  by (simp add: range_warnings_def)

text \<open>
  C20: the JSON text of a decoded reading shows the transmitted numbers exactly. In particular
  temperature and humidity appear as the raw number of tenths with the point before the last
  digit, although the code computes them in binary floating point and rounds twice.
\<close>

theorem sensor_json_exact:
  assumes "f_payload f = sensor_payload t h gas battery status seq"
    and "range_warnings (sint t) (uint h) gas battery status = []"
  shows \<open>sensor_data_to_json (snd (parse_sensor_data f)) =
    ''{"device_id":'' @ nat_to_dec (unat (f_device_id f))
    @ '',"cmd":'' @ nat_to_dec (unat (f_cmd f))
    @ '',"temperature_c":'' @ tenths_text (sint t)
    @ '',"humidity_percent":'' @ tenths_text (uint h)
    @ '',"gas_ppm":'' @ nat_to_dec (unat gas)
    @ '',"battery_mv":'' @ nat_to_dec (unat battery)
    @ '',"status":'' @ nat_to_dec (unat status)
    @ '',"sequence":'' @ nat_to_dec (unat seq)
    @ '',"valid":true}''\<close>
proof -
  have "snd (parse_sensor_data f) = reading (f_device_id f) (f_cmd f) (sint t) (uint h) gas battery status seq"
    using parse_sensor_data_correct_payload [OF assms(1)] by simp
  then show ?thesis
    using assms(2)
    by (simp add: sensor_data_to_json_def reading_def Let_def double_fixed1_div10 sint_u16_bound
        uint_u16_bound)
qed

theorem sensor_json_exact_witness:
  \<open>sensor_data_to_json (snd (parse_sensor_data example_frame)) =
    ''{"device_id":16,"cmd":1,"temperature_c":25.3,"humidity_percent":60.8,"gas_ppm":300,'' @
    ''"battery_mv":3700,"status":0,"sequence":1,"valid":true}''\<close>
proof -
  have payload: "f_payload example_frame = sensor_payload 0x00FD 0x0260 0x012C 0x0E74 0x00 0x0001"
    by (simp add: example_frame_def sensor_payload_def high_byte_def low_byte_def)
  have "range_warnings (sint (0x00FD :: u16)) (uint (0x0260 :: u16)) 0x012C 0x0E74 0x00 = []"
    by (simp add: range_warnings_def)
  from sensor_json_exact [OF payload this] show ?thesis
    by (simp add: example_frame_def tenths_text_def dec_eval)
qed

section \<open>Size of the text\<close>

lemma length_dec_u8: "length (nat_to_dec (unat (b :: u8))) \<le> 3"
  using unat_u8_less [of b] by (intro length_nat_to_dec) simp_all

lemma length_dec_u16: "length (nat_to_dec (unat (w :: u16))) \<le> 5"
  using unat_u16_less [of w] by (intro length_nat_to_dec) simp_all

lemma length_tenths_text:
  assumes "\<bar>x\<bar> < 131072"
  shows "length (tenths_text x) \<le> 8"
proof -
  have "nat \<bar>x\<bar> div 10 < 10 ^ 5" using assms by simp
  then have "length (nat_to_dec (nat \<bar>x\<bar> div 10)) \<le> 5" by (rule length_nat_to_dec) simp
  moreover have "length (nat_to_dec (nat \<bar>x\<bar> mod 10)) \<le> 1" by (rule length_nat_to_dec) simp_all
  ultimately show ?thesis by (cases "x < 0") (simp_all add: tenths_text_def)
qed

lemma length_json_warnings: "length (json_warnings i ws) \<le> sum_list (map (\<lambda>w. length w + 3) ws)"
  by (induction i ws rule: json_warnings.induct) auto

lemma length_range_warnings: "sum_list (map (\<lambda>w. length w + 3) (range_warnings t h gas battery status)) \<le> 198"
  by (simp add: range_warnings_def)

lemma length_reading_json:
  assumes "\<bar>t\<bar> < 131072" "\<bar>h\<bar> < 131072" "data = reading dev cmd t h gas battery status seq"
  shows "length (sensor_data_to_json data) \<le> (if s_valid data then 160 else 400)"
proof -
  note parts = length_dec_u8 [of dev] length_dec_u8 [of cmd] length_dec_u8 [of status] length_dec_u16 [of gas]
    length_dec_u16 [of battery] length_dec_u16 [of seq] length_tenths_text [OF assms(1)] length_tenths_text [OF assms(2)]
    order_trans [OF length_json_warnings [of 0] length_range_warnings [of t h gas battery status]]
  show ?thesis
    using parts
    by (cases "range_warnings t h gas battery status = []")
      (simp_all add: assms(3) reading_def sensor_data_to_json_def double_fixed1_div10 assms(1,2) Let_def)
qed

end
