(* ===== verification/Posix.thy ===== *)
theory Posix
  imports Prelude
begin

text \<open>
  What the gateway sees of the operating system. Every system call the code makes appears in the
  model as the answer it gets: an error number or a value. The retry loops around interrupted
  calls consume a list of answers; running out of answers means the call has not returned yet.
\<close>

datatype errno = EINTR | EAGAIN | Errno string

fun strerror :: "errno \<Rightarrow> string" where
  "strerror EINTR = ''Interrupted system call''"
| "strerror EAGAIN = ''Resource temporarily unavailable''"
| "strerror (Errno text) = text"

text \<open>An answer of \<open>poll\<close> on one descriptor: failure, timeout, or ready with its \<open>revents\<close>.\<close>

datatype poll_answer = PollFailed errno | PollTimeout | PollReady u16

definition POLLIN :: u16 where "POLLIN = 0x01"
definition POLLOUT :: u16 where "POLLOUT = 0x04"
definition POLLERR :: u16 where "POLLERR = 0x08"
definition POLLHUP :: u16 where "POLLHUP = 0x10"
definition POLLNVAL :: u16 where "POLLNVAL = 0x20"

lemmas poll_bits = POLLIN_def POLLOUT_def POLLERR_def POLLHUP_def POLLNVAL_def

fun poll_retry :: "poll_answer list \<Rightarrow> poll_answer option" where
  "poll_retry [] = None"
| "poll_retry (PollFailed EINTR # answers) = poll_retry answers"
| "poll_retry (answer # answers) = Some answer"

lemma poll_retry_None_iff: "poll_retry answers = None \<longleftrightarrow> set answers \<subseteq> {PollFailed EINTR}"
  by (induction answers rule: poll_retry.induct) auto

lemma poll_retry_in_set: "poll_retry answers = Some a \<Longrightarrow> a \<in> set answers \<and> a \<noteq> PollFailed EINTR"
  by (induction answers rule: poll_retry.induct) auto

text \<open>Any number of interruptions is invisible: the first other answer is the result.\<close>

lemma poll_retry_interrupted:
  "a \<noteq> PollFailed EINTR \<Longrightarrow> poll_retry (replicate n (PollFailed EINTR) @ a # answers) = Some a"
proof (induction n)
  case 0
  then show ?case by (cases a; cases "case a of PollFailed e \<Rightarrow> e | _ \<Rightarrow> EAGAIN") auto
qed simp

section \<open>Clock\<close>

text \<open>Conversion from and to milliseconds; \<open>duration_cast\<close> rounds towards zero.\<close>

definition ns_of_ms :: "int \<Rightarrow> int" where
  "ns_of_ms ms = ms * 1000000"

definition ms_of_ns :: "int \<Rightarrow> int" where
  "ms_of_ns ns = (if 0 \<le> ns then ns div 1000000 else - ((- ns) div 1000000))"

section \<open>Files\<close>

text \<open>The parent of a path is empty when the path has no directory part.\<close>

definition has_parent :: "string \<Rightarrow> bool" where
  "has_parent path \<longleftrightarrow> CHR ''/'' \<in> set path"

text \<open>\<open>None\<close> for a write is complete success, \<open>Some k\<close> a failure after \<open>k\<close> characters.\<close>

definition written :: "nat option \<Rightarrow> string \<Rightarrow> bool \<times> string" where
  "written outcome text = (case outcome of None \<Rightarrow> (True, text) | Some k \<Rightarrow> (False, take k text))"

end
