(* ===== verification/DeviceInterface.thy ===== *)
theory DeviceInterface
  imports SensorData Posix
begin

text \<open>
  \<^verbatim>\<open>src/src/device/device_data.{h,cpp}\<close> and \<^verbatim>\<open>device_interface.h\<close>: the protocol-independent
  reading, the result of one read call, the status every device keeps, and the abstract class
  \<open>DeviceInterface\<close>. The class becomes a record of its virtual functions; what the clients rely
  on is the locale \<open>device_interface\<close>, interpreted by each of the three device classes.
\<close>

section \<open>Readings of any protocol\<close>

datatype ProtocolType = Uart | ModbusRtu | SocketCan

fun to_string :: "ProtocolType \<Rightarrow> string" where
  "to_string Uart = ''UART''"
| "to_string ModbusRtu = ''MODBUS_RTU''"
| "to_string SocketCan = ''SOCKETCAN''"

record device_data =
  dd_device_id :: u8
  dd_protocol :: ProtocolType
  dd_temperature_c :: double
  dd_humidity_percent :: double
  dd_gas_ppm :: u16
  dd_battery_mv :: u16
  dd_status :: u8
  dd_sequence :: u16

definition device_data_init :: device_data where
  "device_data_init = \<lparr>dd_device_id = 0, dd_protocol = Uart, dd_temperature_c = double_of_int 0,
     dd_humidity_percent = double_of_int 0, dd_gas_ppm = 0, dd_battery_mv = 0, dd_status = 0,
     dd_sequence = 0\<rparr>"

definition to_sensor_data :: "device_data \<Rightarrow> sensor_data" where
  "to_sensor_data input = validate_sensor_data (sensor_data_init
     \<lparr>s_device_id := dd_device_id input, s_cmd := 0x01, temperature_c := dd_temperature_c input,
      humidity_percent := dd_humidity_percent input, gas_ppm := dd_gas_ppm input,
      battery_mv := dd_battery_mv input, s_status := dd_status input,
      s_sequence := dd_sequence input\<rparr>)"

text \<open>Readings from Modbus and CAN pass the same range checks as those from a serial frame.\<close>

lemma to_sensor_data_reading:
  assumes "\<bar>t\<bar> < 131072" "\<bar>h\<bar> < 131072"
    and "dd_temperature_c input = double_div10 t" "dd_humidity_percent input = double_div10 h"
  shows "to_sensor_data input = reading (dd_device_id input) 0x01 t h (dd_gas_ppm input)
    (dd_battery_mv input) (dd_status input) (dd_sequence input)"
  using validate_reading [OF assms(1,2)]
  by (simp add: to_sensor_data_def validate_sensor_data_def sensor_data_init_def assms(3,4))

section \<open>Results and status\<close>

datatype ReadCode = Data | Timeout | ProtocolError | TransportError

record protocol_error_stats =
  crc_errors :: nat
  length_errors :: nat
  overflow_bytes :: nat
  generic_errors :: nat

definition no_error_stats :: protocol_error_stats where
  "no_error_stats = \<lparr>crc_errors = 0, length_errors = 0, overflow_bytes = 0, generic_errors = 0\<rparr>"

definition stats_total :: "protocol_error_stats \<Rightarrow> nat" where
  "stats_total s = crc_errors s + length_errors s + overflow_bytes s + generic_errors s"

definition invalid_frame_count :: "protocol_error_stats \<Rightarrow> nat" where
  "invalid_frame_count s = crc_errors s + length_errors s + generic_errors s"

definition stats_empty :: "protocol_error_stats \<Rightarrow> bool" where
  "stats_empty s \<longleftrightarrow> stats_total s = 0"

record device_read_result =
  r_code :: ReadCode
  r_data :: "sensor_data option"
  r_error :: string
  r_error_stats :: protocol_error_stats

definition read_result_init :: device_read_result where
  "read_result_init = \<lparr>r_code = Timeout, r_data = None, r_error = [], r_error_stats = no_error_stats\<rparr>"

definition read_failed :: "ReadCode \<Rightarrow> string \<Rightarrow> device_read_result" where
  "read_failed code error = read_result_init\<lparr>r_code := code, r_error := error\<rparr>"

definition read_data :: "sensor_data \<Rightarrow> device_read_result" where
  "read_data data = read_result_init\<lparr>r_code := Data, r_data := Some data\<rparr>"

record device_status =
  ds_device_id :: u32
  ds_protocol :: ProtocolType
  ds_online :: bool
  last_update_unix_seconds :: u64
  error_count :: u64

definition device_status_init :: device_status where
  "device_status_init = \<lparr>ds_device_id = 0, ds_protocol = Uart, ds_online = False,
     last_update_unix_seconds = 0, error_count = 0\<rparr>"

lemmas read_result_defs = read_failed_def read_data_def read_result_init_def no_error_stats_def

lemma stats_empty_none [simp]: "stats_empty no_error_stats" "stats_total no_error_stats = 0"
  by (simp_all add: stats_empty_def stats_total_def no_error_stats_def)

lemma read_result_fields [simp]:
  "r_code read_result_init = Timeout" "r_data read_result_init = None" "r_error read_result_init = []"
  "r_error_stats read_result_init = no_error_stats"
  "r_code (read_failed c e) = c" "r_data (read_failed c e) = None" "r_error (read_failed c e) = e"
  "r_error_stats (read_failed c e) = no_error_stats"
  "r_code (read_data x) = Data" "r_data (read_data x) = Some x" "r_error (read_data x) = []"
  "r_error_stats (read_data x) = no_error_stats"
  by (simp_all add: read_result_defs)

text \<open>
  How many errors a read call reports: the counted protocol errors when there are any, else one
  for a protocol or transport error and for a timeout that names a reason.
\<close>

definition read_error_count :: "device_read_result \<Rightarrow> nat" where
  "read_error_count r =
     (if \<not> stats_empty (r_error_stats r) then stats_total (r_error_stats r)
      else case r_code r of
        Data \<Rightarrow> 0 | Timeout \<Rightarrow> (if r_error r = [] then 0 else 1)
      | ProtocolError \<Rightarrow> 1 | TransportError \<Rightarrow> 1)"

lemma read_error_count_simps [simp]:
  "read_error_count read_result_init = 0" "read_error_count (read_data d) = 0"
  "read_error_count (read_failed ProtocolError e) = 1"
  "read_error_count (read_failed TransportError e) = 1"
  "read_error_count (read_failed Timeout e) = (if e = [] then 0 else 1)"
  by (simp_all add: read_error_count_def read_result_init_def read_data_def read_failed_def)

section \<open>The device interface\<close>

text \<open>The laws on one call, as relations between the status before, the result and the status after.\<close>

definition read_law :: "device_status \<Rightarrow> device_read_result \<Rightarrow> device_status \<Rightarrow> bool" where
  "read_law s res s' \<longleftrightarrow> (r_data res \<noteq> None \<longleftrightarrow> r_code res = Data) \<and> ds_protocol s' = ds_protocol s
     \<and> error_count s' = error_count s + of_nat (read_error_count res)
     \<and> (r_code res = TransportError \<longrightarrow> \<not> ds_online s')
     \<and> (r_code res = Data \<longrightarrow> ds_online s \<longrightarrow> ds_online s')
     \<and> (r_code res = Timeout \<longrightarrow> r_error res = [] \<or> ds_protocol s' = ModbusRtu)"

definition start_law :: "device_status \<Rightarrow> bool \<Rightarrow> device_status \<Rightarrow> bool" where
  "start_law s ok s' \<longleftrightarrow> s' = (if ok then s\<lparr>ds_online := True\<rparr> else s\<lparr>error_count := error_count s + 1\<rparr>)"

record ('d, 's, 'r) device_ops =
  dev_start :: "'s \<Rightarrow> 'd \<Rightarrow> bool \<times> string \<times> 'd"
  dev_stop :: "'d \<Rightarrow> 'd"
  dev_read :: "'r \<Rightarrow> 'd \<Rightarrow> (device_read_result \<times> 'd) option"
  get_device_status :: "'d \<Rightarrow> device_status"

locale device_interface =
  fixes ops :: "('d, 's, 'r) device_ops" and invar :: "'d \<Rightarrow> bool"
  assumes invar_start: "invar d \<Longrightarrow> dev_start ops s d = (ok, e, d') \<Longrightarrow> invar d'"
    and invar_stop: "invar d \<Longrightarrow> invar (dev_stop ops d)"
    and invar_read: "invar d \<Longrightarrow> dev_read ops r d = Some (res, d') \<Longrightarrow> invar d'"
    and start_ok: "invar d \<Longrightarrow> dev_start ops s d = (True, e, d')
      \<Longrightarrow> get_device_status ops d' = (get_device_status ops d)\<lparr>ds_online := True\<rparr>"
    and start_failed: "invar d \<Longrightarrow> dev_start ops s d = (False, e, d') \<Longrightarrow> get_device_status ops d'
        = (get_device_status ops d)\<lparr>error_count := error_count (get_device_status ops d) + 1\<rparr>"
    and stop_status: "get_device_status ops (dev_stop ops d) = (get_device_status ops d)\<lparr>ds_online := False\<rparr>"
    and read_data_iff: "invar d \<Longrightarrow> dev_read ops r d = Some (res, d')
      \<Longrightarrow> r_data res \<noteq> None \<longleftrightarrow> r_code res = Data"
    and read_protocol: "invar d \<Longrightarrow> dev_read ops r d = Some (res, d')
      \<Longrightarrow> ds_protocol (get_device_status ops d') = ds_protocol (get_device_status ops d)"
    and read_errors: "invar d \<Longrightarrow> dev_read ops r d = Some (res, d')
      \<Longrightarrow> error_count (get_device_status ops d')
        = error_count (get_device_status ops d) + of_nat (read_error_count res)"
    and read_transport: "invar d \<Longrightarrow> dev_read ops r d = Some (res, d') \<Longrightarrow> r_code res = TransportError
      \<Longrightarrow> \<not> ds_online (get_device_status ops d')"
    and read_keeps_online: "invar d \<Longrightarrow> dev_read ops r d = Some (res, d') \<Longrightarrow> r_code res = Data
      \<Longrightarrow> ds_online (get_device_status ops d) \<Longrightarrow> ds_online (get_device_status ops d')"
    and read_timeout: "invar d \<Longrightarrow> dev_read ops r d = Some (res, d') \<Longrightarrow> r_code res = Timeout
      \<Longrightarrow> r_error res = [] \<or> ds_protocol (get_device_status ops d') = ModbusRtu"
begin

lemma read_lawful:
  "invar d \<Longrightarrow> dev_read ops r d = Some (res, d')
    \<Longrightarrow> invar d' \<and> read_law (get_device_status ops d) res (get_device_status ops d')"
  using invar_read [of d r res d'] read_data_iff [of d r res d'] read_protocol [of d r res d']
    read_errors [of d r res d'] read_transport [of d r res d'] read_keeps_online [of d r res d']
    read_timeout [of d r res d']
  by (simp add: read_law_def)

lemma start_lawful:
  "invar d \<Longrightarrow> dev_start ops s d = (ok, e, d')
    \<Longrightarrow> invar d' \<and> start_law (get_device_status ops d) ok (get_device_status ops d')"
  using invar_start [of d s ok e d'] start_ok [of d s e d'] start_failed [of d s e d']
  by (cases ok) (auto simp: start_law_def)

lemma start_protocol:
  "invar d \<Longrightarrow> dev_start ops s d = (ok, e, d')
    \<Longrightarrow> ds_protocol (get_device_status ops d') = ds_protocol (get_device_status ops d)"
  by (cases ok) (auto dest: start_ok start_failed)

lemma stop_protocol [simp]:
  "ds_protocol (get_device_status ops (dev_stop ops d)) = ds_protocol (get_device_status ops d)"
  by (simp add: stop_status)

lemma stop_offline [simp]: "\<not> ds_online (get_device_status ops (dev_stop ops d))"
  by (simp add: stop_status)

lemma stop_error_count [simp]:
  "error_count (get_device_status ops (dev_stop ops d)) = error_count (get_device_status ops d)"
  by (simp add: stop_status)

end

end
