(* ===== verification/SerialPort.thy ===== *)
theory SerialPort
  imports Posix "HOL-Library.Sublist"
begin

text \<open>
  \<^verbatim>\<open>src/src/device/serial_port.{h,cpp}\<close>: the serial descriptor. The answers of the system calls
  are arguments; the write loop consumes a list of answers and has no result while it is still
  retrying.
\<close>

section \<open>Terminal settings\<close>

text \<open>The part of \<open>struct termios\<close> the code touches, with the Linux flag values.\<close>

record termios =
  c_iflag :: u32
  c_oflag :: u32
  c_cflag :: u32
  c_lflag :: u32
  c_ispeed :: u32
  c_ospeed :: u32
  c_vmin :: u8
  c_vtime :: u8

definition CSIZE :: u32 where "CSIZE = 0x30"
definition CS8 :: u32 where "CS8 = 0x30"
definition CSTOPB :: u32 where "CSTOPB = 0x40"
definition CREAD :: u32 where "CREAD = 0x80"
definition PARENB :: u32 where "PARENB = 0x100"
definition CLOCAL :: u32 where "CLOCAL = 0x800"
definition CRTSCTS :: u32 where "CRTSCTS = 0x80000000"

lemmas cflag_consts = CSIZE_def CS8_def CSTOPB_def CREAD_def PARENB_def CLOCAL_def CRTSCTS_def

text \<open>
  The library function \<open>cfmakeraw\<close>: input and output processing, echo, line mode and signals
  off (the masks are those of its documentation), eight data bits without parity.
\<close>

definition cfmakeraw :: "termios \<Rightarrow> termios" where
  "cfmakeraw t = t\<lparr>c_iflag := c_iflag t AND NOT 0x5EB, c_oflag := c_oflag t AND NOT 0x1,
     c_lflag := c_lflag t AND NOT 0x804B, c_cflag := (c_cflag t AND NOT (CSIZE OR PARENB)) OR CS8,
     c_vmin := 1, c_vtime := 0\<rparr>"

definition to_speed :: "int \<Rightarrow> u32" where
  "to_speed baud_rate =
     (if baud_rate = 9600 then 0xD else if baud_rate = 19200 then 0xE
      else if baud_rate = 38400 then 0xF else if baud_rate = 57600 then 0x1001
      else if baud_rate = 115200 then 0x1002 else 0)"

definition configure_line :: "u32 \<Rightarrow> termios \<Rightarrow> termios" where
  "configure_line speed tty0 =
     (let t1 = cfmakeraw tty0;
          t2 = t1\<lparr>c_ispeed := speed\<rparr>;
          t3 = t2\<lparr>c_ospeed := speed\<rparr>;
          t4 = t3\<lparr>c_cflag := c_cflag t3 OR (CLOCAL OR CREAD)\<rparr>;
          t5 = t4\<lparr>c_cflag := c_cflag t4 AND NOT CSIZE\<rparr>;
          t6 = t5\<lparr>c_cflag := c_cflag t5 OR CS8\<rparr>;
          t7 = t6\<lparr>c_cflag := c_cflag t6 AND NOT PARENB\<rparr>;
          t8 = t7\<lparr>c_cflag := c_cflag t7 AND NOT CSTOPB\<rparr>;
          t9 = t8\<lparr>c_cflag := c_cflag t8 AND NOT CRTSCTS\<rparr>
      in t9\<lparr>c_vmin := 0, c_vtime := 0\<rparr>)"

section \<open>Open and close\<close>

record serial_port =
  fd :: int

definition serial_port_init :: serial_port where
  "serial_port_init = \<lparr>fd = -1\<rparr>"

record serial_open_answers =
  sa_open :: "string \<Rightarrow> errno + nat"
  sa_tcgetattr :: "errno + termios"
  sa_tcsetattr :: "termios \<Rightarrow> errno option"

definition close_port :: "serial_port \<Rightarrow> serial_port" where
  "close_port p = (if fd p \<ge> 0 then p\<lparr>fd := -1\<rparr> else p)"

definition is_open :: "serial_port \<Rightarrow> bool" where
  "is_open p \<longleftrightarrow> fd p \<ge> 0"

definition open_port ::
  "serial_open_answers \<Rightarrow> string \<Rightarrow> int \<Rightarrow> serial_port \<Rightarrow> bool \<times> string \<times> serial_port" where
  "open_port os path baud_rate p0 =
     (let p1 = close_port p0; speed = to_speed baud_rate in
      if speed = 0 then (False, ''unsupported baud rate'', p1)
      else (case sa_open os path of
        Inl e \<Rightarrow> (False, strerror e, p1\<lparr>fd := -1\<rparr>)
      | Inr n \<Rightarrow>
          let p2 = p1\<lparr>fd := int n\<rparr> in
          (case sa_tcgetattr os of
            Inl e \<Rightarrow> (False, strerror e, close_port p2)
          | Inr tty \<Rightarrow>
              (case sa_tcsetattr os (configure_line speed tty) of
                Some e \<Rightarrow> (False, strerror e, close_port p2)
              | None \<Rightarrow> (True, [], p2)))))"

definition discard_input :: "errno option \<Rightarrow> serial_port \<Rightarrow> bool \<times> string" where
  "discard_input tcflush p =
     (if fd p < 0 then (False, ''serial port is closed'')
      else case tcflush of Some e \<Rightarrow> (False, strerror e) | None \<Rightarrow> (True, []))"

section \<open>Writing and reading\<close>

text \<open>
  \<open>write_all\<close>: the answers of \<open>write\<close> in order; a count is the number of bytes taken from the
  front of what was offered. The result has the bytes handed to the kernel as its last part.
\<close>

fun write_all :: "(errno + nat) list \<Rightarrow> u8 list \<Rightarrow> u8 list \<Rightarrow> (bool \<times> string \<times> u8 list) option" where
  "write_all answers [] sent = Some (True, [], sent)"
| "write_all [] (b # bs) sent = None"
| "write_all (Inr n # answers) (b # bs) sent =
     (if n > 0 then write_all answers (drop n (b # bs)) (sent @ take n (b # bs))
      else Some (False, ''serial write returned zero'', sent))"
| "write_all (Inl e # answers) (b # bs) sent =
     (if e = EINTR \<or> e = EAGAIN then write_all answers (b # bs) sent
      else Some (False, strerror e, sent))"

record serial_read_answers =
  sr_polls :: "poll_answer list"
  sr_read :: "errno + u8 list"

text \<open>The integer result, the bytes placed in the buffer, and the error text.\<close>

definition read_some :: "serial_read_answers \<Rightarrow> nat \<Rightarrow> (int \<times> u8 list \<times> string) option" where
  "read_some os cap =
     (case poll_retry (sr_polls os) of
        None \<Rightarrow> None
      | Some PollTimeout \<Rightarrow> Some (0, [], [])
      | Some (PollFailed e) \<Rightarrow> Some (-1, [], strerror e)
      | Some (PollReady revents) \<Rightarrow>
          if revents AND (POLLERR OR POLLHUP OR POLLNVAL) \<noteq> 0 then
            Some (-1, [], ''serial connection lost'')
          else (case sr_read os of
            Inl e \<Rightarrow> if e = EINTR \<or> e = EAGAIN then Some (0, [], []) else Some (-1, [], strerror e)
          | Inr bytes \<Rightarrow> Some (int (length (take cap bytes)), take cap bytes, [])))"

section \<open>Properties\<close>

lemma is_open_close_port [simp]: "\<not> is_open (close_port p)"
  by (simp add: is_open_def close_port_def)

lemma open_port_open: "open_port os path baud p = (ok, e, p') \<Longrightarrow> is_open p' \<longleftrightarrow> ok"
  by (auto simp: open_port_def Let_def is_open_def close_port_def
      split: if_splits sum.splits option.splits)

lemma read_some_returns:
  "\<not> set (sr_polls os) \<subseteq> {PollFailed EINTR} \<Longrightarrow> \<exists>r. read_some os cap = Some r"
  using poll_retry_None_iff [of "sr_polls os"]
  by (auto simp: read_some_def split: poll_answer.split sum.split)

lemma read_some_count:
  "read_some os cap = Some (n, bytes, e) \<Longrightarrow>
    (0 \<le> n \<longrightarrow> int (length bytes) = n \<and> length bytes \<le> cap \<and> e = []) \<and> (n < 0 \<longrightarrow> n = -1 \<and> bytes = [])"
  by (auto simp: read_some_def split: if_splits option.splits poll_answer.splits sum.splits)

lemma bit_exp_u32: "bit (2 ^ k :: u32) n \<longleftrightarrow> n = k \<and> n < 32"
  by (auto simp: bit_exp_iff)

lemma cflag_exp:
  "CSTOPB = 2 ^ 6" "CREAD = 2 ^ 7" "PARENB = 2 ^ 8" "CLOCAL = 2 ^ 11" "CRTSCTS = 2 ^ 31"
  "CSIZE = 2 ^ 4 OR 2 ^ 5" "CS8 = 2 ^ 4 OR 2 ^ 5"
  by (simp_all add: cflag_consts)

lemma cflag_bits [simp]:
  "bit CSTOPB n \<longleftrightarrow> n = 6" "bit CREAD n \<longleftrightarrow> n = 7" "bit PARENB n \<longleftrightarrow> n = 8"
  "bit CLOCAL n \<longleftrightarrow> n = 11" "bit CRTSCTS n \<longleftrightarrow> n = 31"
  "bit CSIZE n \<longleftrightarrow> n = 4 \<or> n = 5" "bit CS8 n \<longleftrightarrow> n = 4 \<or> n = 5"
  unfolding cflag_exp bit_exp_u32 bit_or_iff by auto

lemma configure_line_8n1:
  "c_cflag (configure_line speed t) AND (CSIZE OR PARENB OR CSTOPB OR CRTSCTS OR CLOCAL OR CREAD)
     = CS8 OR CLOCAL OR CREAD"
  by (rule bit_word_eqI) (auto simp: configure_line_def cfmakeraw_def Let_def bit_simps)

text \<open>
  Opening a serial line. It succeeds exactly for one of the five supported rates with all
  three system calls succeeding; then the line was set to that rate in both directions, eight
  data bits, no parity, one stop bit, no flow control, non-blocking reads. After every failure
  the port is closed, so no descriptor stays behind.
\<close>

theorem open_port_correct:
  "let (ok, e, p') = open_port os path baud p in
     is_open p' = ok
     \<and> (ok \<longleftrightarrow> to_speed baud \<noteq> 0 \<and> (\<exists>n tty line. sa_open os path = Inr n \<and> sa_tcgetattr os = Inr tty
          \<and> sa_tcsetattr os line = None \<and> line = configure_line (to_speed baud) tty
          \<and> c_cflag line AND (CSIZE OR PARENB OR CSTOPB OR CRTSCTS OR CLOCAL OR CREAD)
              = CS8 OR CLOCAL OR CREAD
          \<and> c_ispeed line = to_speed baud \<and> c_ospeed line = to_speed baud
          \<and> c_vmin line = 0 \<and> c_vtime line = 0))
     \<and> (to_speed baud \<noteq> 0 \<longleftrightarrow> baud \<in> {9600, 19200, 38400, 57600, 115200})"
proof -
  have line: "c_ispeed (configure_line v t) = v" "c_ospeed (configure_line v t) = v"
      "c_vmin (configure_line v t) = 0" "c_vtime (configure_line v t) = 0" for v t
    by (simp_all add: configure_line_def Let_def)
  obtain ok e p' where eq: "open_port os path baud p = (ok, e, p')" by (metis prod_cases3)
  have "ok \<longleftrightarrow> to_speed baud \<noteq> 0 \<and> (\<exists>n tty. sa_open os path = Inr n \<and> sa_tcgetattr os = Inr tty
      \<and> sa_tcsetattr os (configure_line (to_speed baud) tty) = None)"
    using eq by (auto simp: open_port_def Let_def split: if_splits sum.splits option.splits)
  moreover have "to_speed baud \<noteq> 0 \<longleftrightarrow> baud \<in> {9600, 19200, 38400, 57600, 115200}"
    by (simp add: to_speed_def)
  ultimately show ?thesis
    using open_port_open [OF eq] line configure_line_8n1 by (simp add: eq)
qed

lemma write_all_correct:
  assumes "write_all answers bytes sent = Some (ok, e, sent')"
  shows "(ok \<longrightarrow> sent' = sent @ bytes \<and> e = []) \<and> prefix sent' (sent @ bytes)"
  using assms
proof (induction answers bytes sent rule: write_all.induct)
  case (3 n answers b bs sent)
  have pieces: "take n (b # bs) @ drop n (b # bs) = b # bs" by (rule append_take_drop_id)
  show ?case
  proof (cases "n > 0")
    case True
    with 3 have "(ok \<longrightarrow> sent' = (sent @ take n (b # bs)) @ drop n (b # bs) \<and> e = [])
        \<and> prefix sent' ((sent @ take n (b # bs)) @ drop n (b # bs))"
      by simp
    then show ?thesis unfolding append_assoc pieces by blast
  next
    case False
    with 3 show ?thesis by simp
  qed
qed (auto split: if_splits)

text \<open>The loop ends: without errors, one answer per byte beyond the retried ones suffices.\<close>

definition retried :: "errno + nat \<Rightarrow> bool" where
  "retried a \<longleftrightarrow> a = Inl EINTR \<or> a = Inl EAGAIN"

lemma write_all_ends:
  assumes "length bytes \<le> length (filter (\<lambda>a. \<not> retried a) answers)"
  shows "\<exists>r. write_all answers bytes sent = Some r"
  using assms
proof (induction answers bytes sent rule: write_all.induct)
  case (3 n answers b bs sent)
  then show ?case by (auto simp: retried_def)
qed (auto simp: retried_def)

text \<open>
  Sending on the serial line. However the system splits the data and however often a write
  is interrupted or would block, success means that exactly the given bytes were handed over, in
  order and once; after a failure they are a prefix. The call returns as soon as the answers
  other than "try again" outnumber the bytes.
\<close>

theorem write_all_complete:
  assumes "length bytes \<le> length (filter (\<lambda>a. \<not> retried a) answers)"
  shows "\<exists>ok e sent. write_all answers bytes [] = Some (ok, e, sent) \<and> prefix sent bytes
    \<and> (if ok then sent = bytes else \<exists>a\<in>set answers. a = Inr 0 \<or> (\<exists>text. a = Inl (Errno text)))"
proof -
  have cause: "\<exists>a\<in>set answers. a = Inr 0 \<or> (\<exists>text. a = Inl (Errno text))"
    if "write_all answers bytes sent = Some (False, e, sent')" for answers bytes sent e sent'
    using that
  proof (induction answers bytes sent rule: write_all.induct)
    case (4 er answers b bs sent)
    then show ?case by (cases er) auto
  qed (auto split: if_splits)
  obtain ok e sent where r: "write_all answers bytes [] = Some (ok, e, sent)"
    using write_all_ends [OF assms] by (metis prod_cases3)
  with write_all_correct [OF r] cause [of answers bytes "[]"] show ?thesis
    by (cases ok) auto
qed

theorem write_all_complete_witness:
  "\<exists>ok e sent. write_all [Inl EAGAIN, Inr 2, Inl EINTR, Inr 1, Inr 7] [1, 2, 3] [] = Some (ok, e, sent)
    \<and> prefix sent [1, 2, 3]
    \<and> (if ok then sent = [1, 2, 3] else \<exists>a\<in>set [Inl EAGAIN, Inr (2 :: nat), Inl EINTR, Inr 1, Inr 7].
         a = Inr 0 \<or> (\<exists>text. a = Inl (Errno text)))"
  by (rule write_all_complete) (simp add: retried_def)

end
