(* ===== verification/UartDevice.thy ===== *)
theory UartDevice
  imports DeviceInterface SerialPort
begin

text \<open>
  \<^verbatim>\<open>src/src/device/uart_device.{h,cpp}\<close>: the serial device. It owns a port and a frame parser,
  turns received bytes into readings, queues the readings of one chunk and hands them out one per
  call, and keeps the status. The clock and the system calls answer through the arguments.
\<close>

section \<open>State and operations\<close>

record uart_device =
  u_path :: string
  u_baud_rate :: int
  u_port :: serial_port
  u_parser :: frame_parser
  u_pending :: "sensor_data list"
  u_status :: device_status

record uart_read_input =
  ur_serial :: serial_read_answers
  ur_unix_seconds :: u64

definition uart_new :: "string \<Rightarrow> int \<Rightarrow> uart_device" where
  "uart_new path baud_rate = \<lparr>u_path = path, u_baud_rate = baud_rate, u_port = serial_port_init,
     u_parser = frame_parser_init, u_pending = [],
     u_status = device_status_init\<lparr>ds_protocol := Uart\<rparr>\<rparr>"

definition uart_record_errors :: "nat \<Rightarrow> uart_device \<Rightarrow> uart_device" where
  "uart_record_errors n d =
     d\<lparr>u_status := (u_status d)\<lparr>error_count := error_count (u_status d) + of_nat n\<rparr>\<rparr>"

definition uart_start :: "serial_open_answers \<Rightarrow> uart_device \<Rightarrow> bool \<times> string \<times> uart_device" where
  "uart_start os d =
     (case open_port os (u_path d) (u_baud_rate d) (u_port d) of
        (False, e, p) \<Rightarrow> (False, e, uart_record_errors 1 (d\<lparr>u_port := p\<rparr>))
      | (True, e, p) \<Rightarrow> (True, e, d\<lparr>u_port := p, u_parser := parser_reset (u_parser d),
            u_status := (u_status d)\<lparr>ds_online := True\<rparr>\<rparr>))"

definition uart_stop :: "uart_device \<Rightarrow> uart_device" where
  "uart_stop d = d\<lparr>u_port := close_port (u_port d), u_status := (u_status d)\<lparr>ds_online := False\<rparr>\<rparr>"

text \<open>The loop over the frames of one chunk: queue what decodes, count what does not.\<close>

fun collect_readings :: "frame list \<Rightarrow> sensor_data list \<Rightarrow> nat \<Rightarrow> sensor_data list \<times> nat" where
  "collect_readings [] pending generic = (pending, generic)"
| "collect_readings (frame # frames) pending generic =
     (case parse_sensor_data frame of
        (True, data) \<Rightarrow> collect_readings frames (pending @ [data]) generic
      | (False, data) \<Rightarrow> collect_readings frames pending (generic + 1))"

definition uart_decode :: "u64 \<Rightarrow> frame list \<Rightarrow> uart_device \<Rightarrow> device_read_result \<times> uart_device" where
  "uart_decode now frames d0 =
     (let (crc, p1) = take_crc_error_count (u_parser d0);
          (len, p2) = take_length_error_count p1;
          (ovf, p3) = take_overflow_byte_count p2;
          (pending, generic) = collect_readings frames (u_pending d0) 0;
          stats = \<lparr>crc_errors = crc, length_errors = len, overflow_bytes = ovf, generic_errors = generic\<rparr>;
          d1 = d0\<lparr>u_parser := p3, u_pending := pending\<rparr>;
          d2 = (if \<not> stats_empty stats then uart_record_errors (stats_total stats) d1 else d1)
      in case pending of
           [] \<Rightarrow>
             ((if \<not> stats_empty stats
               then \<lparr>r_code = ProtocolError, r_data = None, r_error = ''UART frame rejected'',
                     r_error_stats = stats\<rparr>
               else read_result_init), d2)
         | data # rest \<Rightarrow>
             (\<lparr>r_code = Data, r_data = Some data,
               r_error = (if stats_empty stats then [] else ''UART frame rejected''),
               r_error_stats = stats\<rparr>,
              d2\<lparr>u_pending := rest, u_status := (u_status d2)
                 \<lparr>ds_device_id := ucast (s_device_id data), ds_online := True,
                  last_update_unix_seconds := now\<rparr>\<rparr>))"

definition uart_read :: "uart_read_input \<Rightarrow> uart_device \<Rightarrow> (device_read_result \<times> uart_device) option" where
  "uart_read input d =
     (case u_pending d of
        data # rest \<Rightarrow> Some (read_data data, d\<lparr>u_pending := rest\<rparr>)
      | [] \<Rightarrow>
          (case read_some (ur_serial input) 256 of
             None \<Rightarrow> None
           | Some (received, bytes, error) \<Rightarrow>
               if received < 0 then
                 Some (read_failed TransportError error, uart_stop (uart_record_errors 1 d))
               else if received = 0 then Some (read_result_init, d)
               else (case feed (u_parser d) bytes of
                 None \<Rightarrow> None
               | Some (p', frames) \<Rightarrow>
                   Some (uart_decode (ur_unix_seconds input) frames (d\<lparr>u_parser := p'\<rparr>)))))"

definition uart_ops :: "(uart_device, serial_open_answers, uart_read_input) device_ops" where
  "uart_ops = \<lparr>dev_start = uart_start, dev_stop = uart_stop, dev_read = uart_read,
     get_device_status = u_status\<rparr>"

section \<open>Invariant and effect\<close>

definition uart_invar :: "uart_device \<Rightarrow> bool" where
  "uart_invar d \<longleftrightarrow> parser_invar (u_parser d) \<and> ds_protocol (u_status d) = Uart
     \<and> list_all s_valid (u_pending d)"

definition valid_readings :: "frame list \<Rightarrow> sensor_data list" where
  "valid_readings frames = map (snd \<circ> parse_sensor_data) (filter (fst \<circ> parse_sensor_data) frames)"

lemma valid_readings_append [simp]:
  "valid_readings (xs @ ys) = valid_readings xs @ valid_readings ys"
  by (simp add: valid_readings_def)

lemma collect_readings_eq:
  "collect_readings frames pending generic = (pending @ valid_readings frames,
     generic + length (filter (Not \<circ> fst \<circ> parse_sensor_data) frames))"
  by (induction frames pending generic rule: collect_readings.induct)
    (auto simp: valid_readings_def split: prod.split bool.split)

lemma parse_sensor_data_valid: "parse_sensor_data f = (ok, d) \<Longrightarrow> ok = s_valid d"
  by (auto simp: parse_sensor_data_def Let_def add_warning_def split: if_splits)

lemma valid_readings_valid: "list_all s_valid (valid_readings frames)"
proof -
  have "s_valid (snd (parse_sensor_data f))" if "fst (parse_sensor_data f)" for f
    using that parse_sensor_data_valid [of f] by (metis prod.collapse)
  then show ?thesis by (auto simp: valid_readings_def list_all_iff)
qed

lemma uart_record_errors_simps [simp]:
  "u_status (uart_record_errors n d) = (u_status d)\<lparr>error_count := error_count (u_status d) + of_nat n\<rparr>"
  "u_parser (uart_record_errors n d) = u_parser d" "u_pending (uart_record_errors n d) = u_pending d"
  "u_port (uart_record_errors n d) = u_port d"
  by (simp_all add: uart_record_errors_def)

lemma uart_stop_simps [simp]:
  "u_status (uart_stop d) = (u_status d)\<lparr>ds_online := False\<rparr>"
  "u_parser (uart_stop d) = u_parser d" "u_pending (uart_stop d) = u_pending d"
  "\<not> is_open (u_port (uart_stop d))"
  by (simp_all add: uart_stop_def)

lemma parser_invar_counts [simp, gw_invar]:
  "parser_invar (p\<lparr>crc_error_count := a\<rparr>) = parser_invar p"
  "parser_invar (p\<lparr>length_error_count := a\<rparr>) = parser_invar p"
  "parser_invar (p\<lparr>overflow_byte_count := a\<rparr>) = parser_invar p"
  "parser_bytes (p\<lparr>crc_error_count := a\<rparr>) = parser_bytes p"
  "parser_bytes (p\<lparr>length_error_count := a\<rparr>) = parser_bytes p"
  "parser_bytes (p\<lparr>overflow_byte_count := a\<rparr>) = parser_bytes p"
  by (simp_all add: parser_invar_def buffer_ok_def parser_bytes_def)

lemma uart_invar_stop [simp, gw_invar]: "uart_invar d \<Longrightarrow> uart_invar (uart_stop d)"
  by (simp add: uart_invar_def)

text \<open>What decoding a chunk does, field by field.\<close>

lemma uart_decode_effect:
  assumes "uart_decode now frames d = (res, d')"
  shows "(case r_data res of None \<Rightarrow> [] | Some x \<Rightarrow> [x]) @ u_pending d' = u_pending d @ valid_readings frames"
    and "r_code res = Data \<longleftrightarrow> r_data res \<noteq> None"
    and "r_code res \<noteq> TransportError \<and> (r_code res = Timeout \<longrightarrow> r_error res = [])"
    and "error_count (u_status d') = error_count (u_status d) + of_nat (read_error_count res)"
    and "parser_invar (u_parser d') = parser_invar (u_parser d)"
    and "parser_bytes (u_parser d') = parser_bytes (u_parser d)"
    and "ds_protocol (u_status d') = ds_protocol (u_status d)"
    and "ds_online (u_status d') \<longleftrightarrow> ds_online (u_status d) \<or> r_code res = Data"
  using assms
  by (auto simp: uart_decode_def collect_readings_eq take_counts Let_def read_result_init_def
      read_error_count_def split: list.splits if_splits)

text \<open>The bytes a read call takes from the line: none while readings are queued.\<close>

definition uart_consumed :: "uart_read_input \<Rightarrow> uart_device \<Rightarrow> u8 list" where
  "uart_consumed input d =
     (if u_pending d \<noteq> [] then [] else
        case read_some (ur_serial input) 256 of Some (received, bytes, error) \<Rightarrow> bytes | None \<Rightarrow> [])"

definition delivered :: "device_read_result \<Rightarrow> sensor_data list" where
  "delivered res = (case r_data res of None \<Rightarrow> [] | Some x \<Rightarrow> [x])"

lemma delivered_simps [simp]:
  "delivered read_result_init = []" "delivered (read_data x) = [x]" "delivered (read_failed c e) = []"
  by (simp_all add: delivered_def read_result_defs)

lemma scan_parser_wait:
  "parser_invar p \<Longrightarrow> sc_frames (scan (parser_bytes p)) = [] \<and> sc_rest (scan (parser_bytes p)) = parser_bytes p"
  by (simp add: parser_invar_def scan_wait)

lemma uart_read_cases:
  assumes "uart_invar d" and "uart_read input d = Some (res, d')"
  obtains (queued) x rest where "u_pending d = x # rest" "res = read_data x" "d' = d\<lparr>u_pending := rest\<rparr>"
  | (lost) e where "u_pending d = []" "res = read_failed TransportError e"
      "d' = uart_stop (uart_record_errors 1 d)" "uart_consumed input d = []"
  | (idle) "u_pending d = []" "res = read_result_init" "d' = d" "uart_consumed input d = []"
  | (fed) bytes p' where "u_pending d = []" "uart_consumed input d = bytes"
      "parser_invar p'" "parser_bytes p' = sc_rest (scan (parser_bytes (u_parser d) @ bytes))"
      "uart_decode (ur_unix_seconds input) (sc_frames (scan (parser_bytes (u_parser d) @ bytes)))
         (d\<lparr>u_parser := p'\<rparr>) = (res, d')"
proof (cases "u_pending d")
  case (Cons x rest)
  with assms(2) queued show ?thesis by (auto simp: uart_read_def)
next
  case Nil
  from assms(2) Nil obtain n bytes e where rs: "read_some (ur_serial input) 256 = Some (n, bytes, e)"
    by (auto simp: uart_read_def split: option.splits)
  have consumed: "uart_consumed input d = bytes" by (simp add: uart_consumed_def Nil rs)
  obtain p' where p': "feed (u_parser d) bytes
        = Some (p', sc_frames (scan (parser_bytes (u_parser d) @ bytes)))"
      "parser_invar p'" "add_counts (u_parser d) (scan (parser_bytes (u_parser d) @ bytes)) p'"
    using feed_scan [of "u_parser d" bytes] assms(1) by (auto simp: uart_invar_def)
  consider "n < 0" | "n = 0" | "n > 0" by linarith
  then show ?thesis
  proof cases
    case 1
    with lost [of e] show ?thesis
      using assms(2) Nil rs read_some_count [OF rs] consumed by (simp add: uart_read_def)
  next
    case 2
    with idle show ?thesis
      using assms(2) Nil rs read_some_count [OF rs] consumed by (simp add: uart_read_def)
  next
    case 3
    with fed [of bytes p'] show ?thesis
      using assms(2) Nil rs p' consumed by (simp add: uart_read_def add_counts_def)
  qed
qed

text \<open>One read call: what is handed out and queued afterwards is what was queued plus what the bytes complete.\<close>

lemma uart_read_step:
  assumes "uart_invar d" and "uart_read input d = Some (res, d')"
  defines "r \<equiv> scan (parser_bytes (u_parser d) @ uart_consumed input d)"
  shows "uart_invar d'"
    and "delivered res @ u_pending d' = u_pending d @ valid_readings (sc_frames r)"
    and "parser_bytes (u_parser d') = sc_rest r"
proof -
  note wait = scan_parser_wait [of "u_parser d"]
  from assms(1,2) have "uart_invar d' \<and> delivered res @ u_pending d' = u_pending d @ valid_readings (sc_frames r)
      \<and> parser_bytes (u_parser d') = sc_rest r"
  proof (cases rule: uart_read_cases)
    case (queued x rest)
    with assms(1) wait show ?thesis
      by (simp add: uart_invar_def r_def uart_consumed_def valid_readings_def)
  next
    case (fed bytes p')
    have "list_all s_valid (delivered res @ u_pending d')"
      using uart_decode_effect(1) [OF fed(5)] fed(1) valid_readings_valid
      by (simp add: delivered_def)
    then have "list_all s_valid (u_pending d')" by simp
    then show ?thesis
      using fed uart_decode_effect(1,5,6,7) [OF fed(5)] assms(1)
      by (simp add: uart_invar_def r_def delivered_def)
  qed (use assms(1) wait in \<open>simp_all add: uart_invar_def r_def valid_readings_def\<close>)
  then show "uart_invar d'" "delivered res @ u_pending d' = u_pending d @ valid_readings (sc_frames r)"
      "parser_bytes (u_parser d') = sc_rest r"
    by simp_all
qed

lemma uart_read_returns:
  assumes "uart_invar d" and "\<not> set (sr_polls (ur_serial input)) \<subseteq> {PollFailed EINTR}"
  shows "\<exists>res d'. uart_read input d = Some (res, d')"
proof -
  obtain n bytes e where rs: "read_some (ur_serial input) 256 = Some (n, bytes, e)"
    using read_some_returns [OF assms(2)] by (metis prod_cases3)
  have "parser_invar (u_parser d)" using assms(1) by (simp add: uart_invar_def)
  then obtain p' where "feed (u_parser d) bytes
      = Some (p', sc_frames (scan (parser_bytes (u_parser d) @ bytes)))"
    by (rule feed_scan)
  then show ?thesis
    by (auto simp: uart_read_def rs split: list.split)
qed

lemma uart_start_cases:
  "uart_start os d = (ok, e, d') \<Longrightarrow>
    (if ok then u_status d' = (u_status d)\<lparr>ds_online := True\<rparr> \<and> u_parser d' = parser_reset (u_parser d)
     else u_status d' = (u_status d)\<lparr>error_count := error_count (u_status d) + 1\<rparr> \<and> u_parser d' = u_parser d)
    \<and> u_pending d' = u_pending d \<and> is_open (u_port d') = ok"
  by (auto simp: uart_start_def dest: open_port_open split: prod.splits bool.splits)

lemma uart_read_status:
  assumes "uart_invar d" and "uart_read input d = Some (res, d')"
  shows "(r_data res \<noteq> None \<longleftrightarrow> r_code res = Data) \<and> (r_code res = Timeout \<longrightarrow> r_error res = [])
    \<and> ds_protocol (u_status d') = ds_protocol (u_status d)
    \<and> error_count (u_status d') = error_count (u_status d) + of_nat (read_error_count res)
    \<and> (r_code res = TransportError \<longrightarrow> \<not> ds_online (u_status d'))
    \<and> (r_code res = Data \<longrightarrow> ds_online (u_status d) \<longrightarrow> ds_online (u_status d'))"
  using assms
proof (cases rule: uart_read_cases)
  case (fed bytes p')
  then show ?thesis using uart_decode_effect(2,3,4,7,8) [OF fed(5)] by simp
qed simp_all

interpretation uart: device_interface uart_ops uart_invar
proof unfold_locales
  fix d d' :: uart_device and s ok e
  assume "uart_invar d" "dev_start uart_ops s d = (ok, e, d')"
  then show "uart_invar d'"
    using uart_start_cases [of s d ok e d'] parser_invar_reset [of "u_parser d"]
    by (cases ok) (auto simp: uart_ops_def uart_invar_def)
qed (auto simp: uart_ops_def dest: uart_start_cases uart_read_status uart_read_step(1))

section \<open>A session\<close>

text \<open>Consecutive read calls: the readings handed out, the bytes taken from the line, the state.\<close>

fun uart_reads :: "uart_read_input list \<Rightarrow> uart_device \<Rightarrow> (sensor_data list \<times> u8 list \<times> uart_device) option" where
  "uart_reads [] d = Some ([], [], d)"
| "uart_reads (i # is) d =
     (case uart_read i d of
        None \<Rightarrow> None
      | Some (res, d1) \<Rightarrow>
          (case uart_reads is d1 of
             None \<Rightarrow> None
           | Some (xs, bytes, d2) \<Rightarrow> Some (delivered res @ xs, uart_consumed i d @ bytes, d2)))"

lemma uart_reads_scan:
  assumes "uart_invar d"
    and "list_all (\<lambda>i. \<not> set (sr_polls (ur_serial i)) \<subseteq> {PollFailed EINTR}) is"
  shows "\<exists>xs bytes d'. uart_reads is d = Some (xs, bytes, d') \<and> uart_invar d'
    \<and> xs @ u_pending d' = u_pending d @ valid_readings (sc_frames (scan (parser_bytes (u_parser d) @ bytes)))
    \<and> parser_bytes (u_parser d') = sc_rest (scan (parser_bytes (u_parser d) @ bytes))"
  using assms
proof (induction "is" arbitrary: d)
  case Nil
  then show ?case
    using scan_parser_wait [of "u_parser d"] by (simp add: uart_invar_def valid_readings_def)
next
  case (Cons i "is")
  obtain res d1 where read: "uart_read i d = Some (res, d1)"
    using uart_read_returns [of d i] Cons.prems by auto
  note step = uart_read_step [OF Cons.prems(1) read]
  obtain xs bytes d' where rest: "uart_reads is d1 = Some (xs, bytes, d')" "uart_invar d'"
      "xs @ u_pending d' = u_pending d1 @ valid_readings (sc_frames (scan (parser_bytes (u_parser d1) @ bytes)))"
      "parser_bytes (u_parser d') = sc_rest (scan (parser_bytes (u_parser d1) @ bytes))"
    using Cons.IH [OF step(1)] Cons.prems(2) by auto
  have "delivered res @ xs @ u_pending d'
      = u_pending d @ valid_readings (sc_frames (scan (parser_bytes (u_parser d) @ uart_consumed i d @ bytes)))"
    using step(2,3) rest(3) scan_append [of "parser_bytes (u_parser d) @ uart_consumed i d" bytes]
    by (simp add: Let_def)
  moreover have "parser_bytes (u_parser d')
      = sc_rest (scan (parser_bytes (u_parser d) @ uart_consumed i d @ bytes))"
    using step(3) rest(4) scan_append [of "parser_bytes (u_parser d) @ uart_consumed i d" bytes]
    by (simp add: Let_def)
  ultimately show ?case using read rest(1,2) by simp
qed

text \<open>
  C4: the serial device from the line to the readings. After a successful start, any number of
  read calls whose waiting is not interrupted for ever returns (no exception, no endless loop);
  the readings handed out, followed by those still queued, are the decoded readings of the frames
  the leftmost-frame reference finds in the bytes taken from the line, without the ones that
  fail the checks: in order, none lost, none twice, however the bytes were split into reads.
\<close>

theorem uart_delivers_stream:
  assumes "uart_start os (uart_new path baud) = (True, e, d)"
    and "list_all (\<lambda>i. \<not> set (sr_polls (ur_serial i)) \<subseteq> {PollFailed EINTR}) is"
  shows "\<exists>xs bytes d' frames. uart_reads is d = Some (xs, bytes, d')
    \<and> leftmost_frames bytes = frames @ leftmost_frames (parser_bytes (u_parser d'))
    \<and> xs @ u_pending d' = map (snd \<circ> parse_sensor_data) (filter (fst \<circ> parse_sensor_data) frames)"
proof -
  have new: "uart_invar (uart_new path baud)"
    by (simp add: uart_invar_def uart_new_def parser_invar_init device_status_init_def)
  have d: "uart_invar d" "u_pending d = []" "parser_bytes (u_parser d) = []"
    using uart.invar_start [OF new, of os True e d] uart_start_cases [OF assms(1)] assms(1)
      parser_invar_reset [OF parser_invar_init(1)]
    by (simp_all add: uart_ops_def uart_new_def)
  obtain xs bytes d' where "uart_reads is d = Some (xs, bytes, d')"
      "xs @ u_pending d' = valid_readings (sc_frames (scan bytes))"
      "parser_bytes (u_parser d') = sc_rest (scan bytes)"
    using uart_reads_scan [OF d(1) assms(2)] d by auto
  then show ?thesis
    using leftmost_frames_scan [of bytes] by (auto simp: valid_readings_def)
qed

definition example_open :: serial_open_answers where
  "example_open = \<lparr>sa_open = (\<lambda>_. Inr 3), sa_tcgetattr = Inr \<lparr>c_iflag = 0, c_oflag = 0, c_cflag = 0,
     c_lflag = 0, c_ispeed = 0, c_ospeed = 0, c_vmin = 0, c_vtime = 0\<rparr>, sa_tcsetattr = (\<lambda>_. None)\<rparr>"

definition example_read :: "u8 list \<Rightarrow> uart_read_input" where
  "example_read bytes = \<lparr>ur_serial = \<lparr>sr_polls = [PollFailed EINTR, PollReady POLLIN], sr_read = Inr bytes\<rparr>,
     ur_unix_seconds = 1700000000\<rparr>"

theorem uart_delivers_stream_witness:
  "\<exists>xs bytes d' frames. uart_reads [example_read example_bytes, example_read [0xAA]]
      (snd (snd (uart_start example_open (uart_new ''/dev/ttyUSB0'' 115200)))) = Some (xs, bytes, d')
    \<and> leftmost_frames bytes = frames @ leftmost_frames (parser_bytes (u_parser d'))
    \<and> xs @ u_pending d' = map (snd \<circ> parse_sensor_data) (filter (fst \<circ> parse_sensor_data) frames)"
proof -
  obtain e d where start: "uart_start example_open (uart_new ''/dev/ttyUSB0'' 115200) = (True, e, d)"
    by (simp add: uart_start_def open_port_def example_open_def uart_new_def to_speed_def)
  have "list_all (\<lambda>i. \<not> set (sr_polls (ur_serial i)) \<subseteq> {PollFailed EINTR})
      [example_read example_bytes, example_read [0xAA]]"
    by (simp add: example_read_def)
  from uart_delivers_stream [OF start this] show ?thesis by (simp only: start snd_conv)
qed

end
