(* ===== verification/ModbusRtu.thy ===== *)
theory ModbusRtu
  imports DeviceInterface
begin

text \<open>
  \<^verbatim>\<open>src/src/modbus/modbus_rtu.{h,cpp}\<close>: the Modbus RTU codec. Requests for holding or input
  registers, the answers of a slave with every way they can be rejected, and the mapping of six
  registers to a reading.
\<close>

section \<open>Codec\<close>

datatype FunctionCode = ReadHoldingRegisters | ReadInputRegisters

fun function_byte :: "FunctionCode \<Rightarrow> u8" where
  "function_byte ReadHoldingRegisters = 0x03"
| "function_byte ReadInputRegisters = 0x04"

datatype ResponseStatus = RsOk | CrcError | ExceptionResponse | LengthError | AddressMismatch
  | FunctionMismatch

record read_request =
  slave_id :: u8
  rq_function :: FunctionCode
  start_address :: u16
  register_count :: u16

definition read_request_init :: read_request where
  "read_request_init = \<lparr>slave_id = 1, rq_function = ReadHoldingRegisters, start_address = 0,
     register_count = 6\<rparr>"

record read_response =
  rs_status :: ResponseStatus
  registers :: "u16 list"
  exception_code :: u8
  rs_error :: string

definition read_response_init :: read_response where
  "read_response_init = \<lparr>rs_status = LengthError, registers = [], exception_code = 0, rs_error = []\<rparr>"

definition append_u16_be :: "u8 list \<Rightarrow> u16 \<Rightarrow> u8 list" where
  "append_u16_be output v = output @ [high_byte v, low_byte v]"

definition mb_read_u16_be :: "u8 list \<Rightarrow> nat \<Rightarrow> u16" where
  "mb_read_u16_be input offset = word_of_be (input ! offset) (input ! (offset + 1))"

definition has_valid_crc :: "u8 list \<Rightarrow> bool" where
  "has_valid_crc frame \<longleftrightarrow>
     (if length frame < 4 then False
      else let payload_size = length frame - 2;
               expected = crc16_modbus (take payload_size frame);
               received = word_of_be (frame ! (payload_size + 1)) (frame ! payload_size)
           in expected = received)"

definition build_read_request :: "read_request \<Rightarrow> u8 list" where
  "build_read_request request =
     (let frame1 = [slave_id request, function_byte (rq_function request)];
          frame2 = append_u16_be frame1 (start_address request);
          frame3 = append_u16_be frame2 (register_count request);
          crc = crc16_modbus frame3
      in frame3 @ [low_byte crc, high_byte crc])"

text \<open>The register loop: \<open>for (offset = 3; offset < 3 + byte_count; offset += 2)\<close>.\<close>

function read_registers :: "u8 list \<Rightarrow> nat \<Rightarrow> nat \<Rightarrow> u16 list" where
  "read_registers frame offset stop =
     (if offset < stop then mb_read_u16_be frame offset # read_registers frame (offset + 2) stop
      else [])"
  by pat_completeness auto
termination by (relation "measure (\<lambda>(_, offset, stop). stop - offset)") auto

declare read_registers.simps [simp del]

definition parse_read_response :: "u8 list \<Rightarrow> read_request \<Rightarrow> read_response" where
  "parse_read_response frame request =
     (if length frame < 5 then
        read_response_init\<lparr>rs_error := ''Modbus response is too short''\<rparr>
      else if \<not> has_valid_crc frame then
        read_response_init\<lparr>rs_status := CrcError, rs_error := ''Modbus response CRC mismatch''\<rparr>
      else if frame ! 0 \<noteq> slave_id request then
        read_response_init\<lparr>rs_status := AddressMismatch,
          rs_error := ''Modbus slave address mismatch''\<rparr>
      else let function = function_byte (rq_function request) in
        if frame ! 1 = (function OR 0x80) then
          (if length frame \<noteq> 5 then
             read_response_init\<lparr>rs_status := LengthError,
               rs_error := ''Modbus exception response length is invalid''\<rparr>
           else
             read_response_init\<lparr>rs_status := ExceptionResponse, exception_code := frame ! 2,
               rs_error := ''Modbus slave exception code='' @ nat_to_dec (unat (frame ! 2))\<rparr>)
        else if frame ! 1 \<noteq> function then
          read_response_init\<lparr>rs_status := FunctionMismatch,
            rs_error := ''Modbus function code mismatch''\<rparr>
        else let byte_count = unat (frame ! 2);
                 expected_byte_count = unat (register_count request) * 2 in
          if byte_count \<noteq> expected_byte_count \<or> length frame \<noteq> byte_count + 5 then
            read_response_init\<lparr>rs_status := LengthError,
              rs_error := ''Modbus register byte count is invalid''\<rparr>
          else
            read_response_init\<lparr>registers := read_registers frame 3 (3 + byte_count),
              rs_status := RsOk, rs_error := []\<rparr>)"

text \<open>Output parameters: the boolean, the reading (unchanged on failure) and the error text.\<close>

definition registers_to_device_data ::
  "read_response \<Rightarrow> u8 \<Rightarrow> device_data \<Rightarrow> bool \<times> device_data \<times> string" where
  "registers_to_device_data response device_id output =
     (if rs_status response \<noteq> RsOk then (False, output, rs_error response)
      else if length (registers response) < 6 then
        (False, output, ''six sensor registers are required'')
      else
        (True, device_data_init\<lparr>dd_device_id := device_id, dd_protocol := ModbusRtu,
           dd_temperature_c := double_div10 (sint (registers response ! 0)),
           dd_humidity_percent := double_div10 (uint (registers response ! 1)),
           dd_gas_ppm := registers response ! 2, dd_battery_mv := registers response ! 3,
           dd_status := ucast (registers response ! 4), dd_sequence := registers response ! 5\<rparr>, []))"

section \<open>The frames of the protocol\<close>

text \<open>Every Modbus RTU frame is a body followed by its checksum, low byte first.\<close>

definition rtu_frame :: "u8 list \<Rightarrow> u8 list" where
  "rtu_frame body = body @ [low_byte (crc16_modbus body), high_byte (crc16_modbus body)]"

definition registers_bytes :: "u16 list \<Rightarrow> u8 list" where
  "registers_bytes regs = concat (map (\<lambda>w. [high_byte w, low_byte w]) regs)"

definition encode_response :: "read_request \<Rightarrow> u16 list \<Rightarrow> u8 list" where
  "encode_response request regs = rtu_frame
     ([slave_id request, function_byte (rq_function request), word_of_nat (2 * length regs)]
      @ registers_bytes regs)"

definition encode_exception :: "read_request \<Rightarrow> u8 \<Rightarrow> u8 list" where
  "encode_exception request code = rtu_frame
     [slave_id request, function_byte (rq_function request) OR 0x80, code]"

lemma length_rtu_frame [simp]: "length (rtu_frame body) = length body + 2"
  by (simp add: rtu_frame_def)

lemma length_registers_bytes [simp]: "length (registers_bytes regs) = 2 * length regs"
  by (induction regs) (simp_all add: registers_bytes_def)

lemma rtu_frame_residue [simp]: "crc16_modbus (rtu_frame body) = 0"
  by (simp add: rtu_frame_def crc16_zero_iff)

lemma rtu_frame_nth [simp]: "i < length body \<Longrightarrow> rtu_frame body ! i = body ! i"
  by (simp add: rtu_frame_def nth_append)

lemma has_valid_crc_iff:
  "has_valid_crc frame \<longleftrightarrow> (\<exists>body. 2 \<le> length body \<and> frame = rtu_frame body)"
proof
  assume v: "has_valid_crc frame"
  then have len: "4 \<le> length frame" by (auto simp: has_valid_crc_def split: if_splits)
  define n where "n = length frame - 2"
  have "drop n frame = [frame ! n, frame ! (n + 1)]"
    using len by (simp add: n_def Cons_nth_drop_Suc [symmetric])
  moreover have "word_of_be (frame ! (n + 1)) (frame ! n) = crc16_modbus (take n frame)"
    using v len by (simp add: has_valid_crc_def Let_def n_def)
  ultimately have "frame = rtu_frame (take n frame)"
    by (metis append_take_drop_id high_byte_word_of_be low_byte_word_of_be rtu_frame_def)
  moreover have "2 \<le> length (take n frame)" using len by (simp add: n_def)
  ultimately show "\<exists>body. 2 \<le> length body \<and> frame = rtu_frame body" by blast
next
  assume "\<exists>body. 2 \<le> length body \<and> frame = rtu_frame body"
  then show "has_valid_crc frame"
    by (auto simp: has_valid_crc_def rtu_frame_def Let_def nth_append)
qed

lemma has_valid_crc_rtu_frame [simp]: "has_valid_crc (rtu_frame body) \<longleftrightarrow> 2 \<le> length body"
  by (metis has_valid_crc_iff length_rtu_frame add_right_cancel)

lemma function_byte_not_exception:
  "function_byte f OR 0x80 \<noteq> function_byte g" "function_byte f \<noteq> function_byte g OR 0x80"
  by (cases f; cases g; simp)+

lemma read_registers_bytes:
  "read_registers (pre @ registers_bytes regs @ post) (length pre) (length pre + 2 * length regs) = regs"
proof (induction regs arbitrary: pre)
  case Nil
  show ?case by (simp add: read_registers.simps)
next
  case (Cons w regs)
  have "read_registers ((pre @ [high_byte w, low_byte w]) @ registers_bytes regs @ post)
      (length pre + 2) (length pre + 2 + 2 * length regs) = regs"
    using Cons.IH [of "pre @ [high_byte w, low_byte w]"] by simp
  then show ?case
    by (subst read_registers.simps)
      (simp add: registers_bytes_def mb_read_u16_be_def nth_append)
qed

lemma registers_bytes_surj:
  "length bs = 2 * n \<Longrightarrow> \<exists>regs. length regs = n \<and> bs = registers_bytes regs"
proof (induction n arbitrary: bs)
  case (Suc n)
  then obtain a b bs' where bs: "bs = a # b # bs'" "length bs' = 2 * n"
    by (auto simp: length_Suc_conv eval_nat_numeral)
  with Suc.IH obtain regs where "length regs = n" "bs' = registers_bytes regs" by blast
  with bs show ?case
    by (intro exI [of _ "word_of_be a b # regs"]) (simp add: registers_bytes_def)
qed (simp add: registers_bytes_def)

lemma register_bytes_count:
  assumes "n \<le> 127"
  shows "unat (2 * word_of_nat n :: u8) = 2 * n"
proof -
  have "unat (word_of_nat (2 * n) :: u8) = 2 * n"
    using assms by (simp add: unat_of_nat del: of_nat_mult)
  then show ?thesis by simp
qed

lemma parse_encode_response:
  assumes "length regs = unat (register_count req)" and "length regs \<le> 127"
  shows "parse_read_response (encode_response req regs) req
    = read_response_init\<lparr>registers := regs, rs_status := RsOk, rs_error := []\<rparr>"
proof -
  let ?hdr = "[slave_id req, function_byte (rq_function req), word_of_nat (2 * length regs)]"
  let ?f = "encode_response req regs"
  have nth: "?f ! 0 = slave_id req" "?f ! 1 = function_byte (rq_function req)"
      "?f ! 2 = word_of_nat (2 * length regs)" "length ?f = 2 * length regs + 5" "has_valid_crc ?f"
    by (simp_all add: encode_response_def)
  have "read_registers ?f 3 (3 + 2 * length regs) = regs"
    using read_registers_bytes [of ?hdr regs] by (simp add: encode_response_def rtu_frame_def eval_nat_numeral)
  moreover have "unat (?f ! 2) = 2 * length regs"
    using assms(2) by (simp add: nth register_bytes_count)
  ultimately show ?thesis
    using assms(1) nth function_byte_not_exception
    by (simp add: parse_read_response_def Let_def read_response_init_def)
qed

lemma parse_read_response_ok:
  assumes "rs_status (parse_read_response frame req) = RsOk"
  shows "\<exists>regs. length regs = unat (register_count req) \<and> length regs \<le> 127
    \<and> frame = encode_response req regs"
proof -
  let ?fc = "function_byte (rq_function req)" and ?n = "unat (register_count req)"
  have checks: "has_valid_crc frame" "frame ! 0 = slave_id req" "frame ! 1 = ?fc"
      "unat (frame ! 2) = 2 * ?n" "length frame = 2 * ?n + 5"
    using assms
    by (auto simp: parse_read_response_def Let_def read_response_init_def split: if_splits)
  then obtain body where body: "frame = rtu_frame body" "length body = 2 * ?n + 3"
    by (auto simp: has_valid_crc_iff)
  then obtain a b c bs where bs: "body = [a, b, c] @ bs" "length bs = 2 * ?n"
    by (auto simp: eval_nat_numeral length_Suc_conv)
  then obtain regs where regs: "length regs = ?n" "bs = registers_bytes regs"
    using registers_bytes_surj by blast
  have "a = slave_id req" "b = ?fc" "unat c = 2 * length regs"
    using checks body bs regs by simp_all
  moreover from this(3) have "c = word_of_nat (2 * length regs)"
    by (metis of_nat_unat ucast_id)
  moreover have "length regs \<le> 127"
    using \<open>unat c = 2 * length regs\<close> unat_u8_less [of c] by simp
  ultimately show ?thesis
    using regs body bs by (auto simp: encode_response_def)
qed

text \<open>
  C15: the Modbus answer codec is exact. A byte string is accepted as the answer to a request
  with given register values if and only if it is the one encoding of these values: right slave,
  right function, the requested number of registers, byte count and length in agreement, correct
  checksum. So no answer is accepted twice with different meaning, none is misread, and a slave
  that answers by the protocol is always understood.
\<close>

theorem modbus_response_exact:
  "rs_status (parse_read_response frame req) = RsOk \<and> registers (parse_read_response frame req) = regs
    \<longleftrightarrow> frame = encode_response req regs \<and> length regs = unat (register_count req) \<and> length regs \<le> 127"
proof
  assume ok: "rs_status (parse_read_response frame req) = RsOk \<and> registers (parse_read_response frame req) = regs"
  then obtain regs' where regs': "length regs' = unat (register_count req)" "length regs' \<le> 127"
      "frame = encode_response req regs'"
    using parse_read_response_ok by blast
  with ok parse_encode_response [of regs' req] show "frame = encode_response req regs
      \<and> length regs = unat (register_count req) \<and> length regs \<le> 127"
    by simp
qed (auto simp: parse_encode_response)

text \<open>
  An answer that was damaged on the line in one byte or in two neighbouring bytes is
  rejected as a checksum error, in whatever field the damage is, for register answers and for
  exception answers.
\<close>

theorem damaged_response_rejected:
  assumes "frame = rtu_frame body" and "3 \<le> length body" and "Suc i < length frame"
    and "frame[i := a, Suc i := b] \<noteq> frame"
  shows "rs_status (parse_read_response (frame[i := a, Suc i := b]) req) = CrcError"
proof -
  have "crc16_modbus (frame[i := a, Suc i := b]) \<noteq> 0"
    using crc16_pair_update [OF assms(3,4)] assms(1) by simp
  then have "\<not> has_valid_crc (frame[i := a, Suc i := b])"
    by (metis has_valid_crc_iff rtu_frame_residue)
  then show ?thesis
    using assms(1,2) by (simp add: parse_read_response_def)
qed

theorem damaged_response_rejected_witness:
  "rs_status (parse_read_response
     ((encode_response read_request_init [253, 608, 300, 3700, 0, 1])[4 := 0xFE, Suc 4 := 0x03])
     read_request_init) = CrcError"
  by (rule damaged_response_rejected [OF encode_response_def])
    (simp_all add: encode_response_def registers_bytes_def rtu_frame_def high_byte_def low_byte_def)

text \<open>
  C36: the other answers of a slave. An exception answer is reported with its code, an answer of
  another slave and an answer with another function code are refused as such, whatever the
  rest of the frame holds, and a request sent by the gateway is itself a valid eight-byte frame.
\<close>

theorem modbus_response_errors:
  assumes "slave \<noteq> slave_id req"
    and "fc \<noteq> function_byte (rq_function req)" "fc \<noteq> (function_byte (rq_function req) OR 0x80)"
  shows "parse_read_response (encode_exception req code) req
      = read_response_init\<lparr>rs_status := ExceptionResponse, exception_code := code,
          rs_error := ''Modbus slave exception code='' @ nat_to_dec (unat code)\<rparr>
    \<and> rs_status (parse_read_response (rtu_frame ([slave, any, n] @ rest)) req) = AddressMismatch
    \<and> rs_status (parse_read_response (rtu_frame ([slave_id req, fc, n] @ rest)) req) = FunctionMismatch
    \<and> length (build_read_request req) = 8 \<and> has_valid_crc (build_read_request req)"
proof -
  have "build_read_request req = rtu_frame [slave_id req, function_byte (rq_function req),
      high_byte (start_address req), low_byte (start_address req),
      high_byte (register_count req), low_byte (register_count req)]"
    by (simp add: build_read_request_def append_u16_be_def rtu_frame_def Let_def)
  moreover have "parse_read_response (encode_exception req code) req
      = read_response_init\<lparr>rs_status := ExceptionResponse, exception_code := code,
          rs_error := ''Modbus slave exception code='' @ nat_to_dec (unat code)\<rparr>"
    by (simp add: parse_read_response_def encode_exception_def Let_def)
  ultimately show ?thesis
    using assms by (simp add: parse_read_response_def Let_def)
qed

theorem modbus_response_errors_witness:
  "rs_status (parse_read_response (encode_exception read_request_init 2) read_request_init)
     = ExceptionResponse
   \<and> rs_status (parse_read_response (rtu_frame ([2, 3, 0] @ [])) read_request_init) = AddressMismatch
   \<and> rs_status (parse_read_response (rtu_frame ([slave_id read_request_init, 6, 0] @ []))
        read_request_init) = FunctionMismatch"
  using modbus_response_errors [of 2 read_request_init 6 2 3 0 "[]"]
  by (simp add: read_request_init_def)

section \<open>Registers to readings\<close>

lemma registers_to_device_data_ok:
  assumes "rs_status response = RsOk"
    and "registers response = [t, h, gas, battery, status, seq] @ others"
  shows "\<exists>dd. registers_to_device_data response dev out = (True, dd, [])
    \<and> dd_protocol dd = ModbusRtu
    \<and> to_sensor_data dd = reading dev 0x01 (sint t) (uint h) gas battery (ucast status) seq"
  using assms
  by (simp add: registers_to_device_data_def to_sensor_data_reading [where t = "sint t" and h = "uint h"]
      sint_u16_bound uint_u16_bound)

lemma six_or_more:
  "6 \<le> length xs \<Longrightarrow> xs = [xs ! 0, xs ! 1, xs ! 2, xs ! 3, xs ! 4, xs ! 5] @ drop 6 xs"
  by (auto simp: Suc_le_length_iff eval_nat_numeral)

text \<open>
  From registers to a reading. With at least six registers the conversion succeeds and the
  reading carries registers 0 to 5 as signed and unsigned tenths, integers and the low byte of the
  status register, checked against the common limits; with fewer registers it always fails.
\<close>

theorem registers_reading:
  assumes "rs_status response = RsOk"
  shows "if length (registers response) < 6
    then registers_to_device_data response dev out = (False, out, ''six sensor registers are required'')
    else \<exists>dd. registers_to_device_data response dev out = (True, dd, [])
      \<and> dd_protocol dd = ModbusRtu
      \<and> to_sensor_data dd = reading dev 0x01 (sint (registers response ! 0))
          (uint (registers response ! 1)) (registers response ! 2) (registers response ! 3)
          (ucast (registers response ! 4)) (registers response ! 5)"
  using assms registers_to_device_data_ok [OF assms six_or_more]
  by (simp add: registers_to_device_data_def)

theorem registers_reading_witness:
  "\<exists>dd. registers_to_device_data
      (parse_read_response (encode_response read_request_init [253, 608, 300, 3700, 0, 1]) read_request_init)
      1 device_data_init = (True, dd, [])
    \<and> dd_protocol dd = ModbusRtu
    \<and> to_sensor_data dd = reading 1 0x01 (sint (253 :: u16)) (uint (608 :: u16)) 300 3700 (ucast (0 :: u16)) 1"
  using registers_reading [of "parse_read_response (encode_response read_request_init
      [253, 608, 300, 3700, 0, 1]) read_request_init" 1 device_data_init]
  by (simp add: parse_encode_response read_request_init_def read_response_init_def)

end
