(* ===== verification/ModbusDevice.thy ===== *)
theory ModbusDevice
  imports ModbusRtu SerialPort
begin

text \<open>
  \<^verbatim>\<open>src/src/device/modbus_device.{h,cpp}\<close>: the polling Modbus master. A read call sends a request
  when the poll interval has passed and collects the answer until it is complete, the response
  timeout is over or the line fails. Clock readings (nanoseconds of the steady clock) and system
  call answers are arguments; each round of the collecting loop has its own.
\<close>

section \<open>State and operations\<close>

record modbus_options =
  mo_port :: string
  mo_baud_rate :: int
  mo_request :: read_request
  mo_poll_interval_ms :: int
  mo_response_timeout_ms :: int

record modbus_device =
  m_options :: modbus_options
  m_port :: serial_port
  m_next_poll :: int
  m_status :: device_status

text \<open>One round of the loop: the clock in the condition, the clock for the rest time, the line.\<close>

record modbus_round =
  rd_now :: int
  rd_now_remaining :: int
  rd_serial :: "int \<Rightarrow> serial_read_answers"

record modbus_read_input =
  mr_now :: int
  mr_tcflush :: "errno option"
  mr_writes :: "(errno + nat) list"
  mr_sent_at :: int
  mr_rounds :: "modbus_round list"
  mr_unix_seconds :: u64

record modbus_start_input =
  ms_serial :: serial_open_answers
  ms_now :: int

definition modbus_new :: "modbus_options \<Rightarrow> modbus_device" where
  "modbus_new options = \<lparr>m_options = options, m_port = serial_port_init, m_next_poll = 0,
     m_status = device_status_init\<lparr>ds_device_id := ucast (slave_id (mo_request options)),
       ds_protocol := ModbusRtu\<rparr>\<rparr>"

definition modbus_record_error :: "modbus_device \<Rightarrow> modbus_device" where
  "modbus_record_error d = d\<lparr>m_status := (m_status d)\<lparr>error_count := error_count (m_status d) + 1\<rparr>\<rparr>"

definition modbus_start :: "modbus_start_input \<Rightarrow> modbus_device \<Rightarrow> bool \<times> string \<times> modbus_device" where
  "modbus_start input d =
     (case open_port (ms_serial input) (mo_port (m_options d)) (mo_baud_rate (m_options d)) (m_port d) of
        (False, e, p) \<Rightarrow> (False, e, modbus_record_error (d\<lparr>m_port := p\<rparr>))
      | (True, e, p) \<Rightarrow> (True, e, d\<lparr>m_port := p, m_next_poll := ms_now input,
            m_status := (m_status d)\<lparr>ds_online := True\<rparr>\<rparr>))"

definition modbus_stop :: "modbus_device \<Rightarrow> modbus_device" where
  "modbus_stop d = d\<lparr>m_port := close_port (m_port d), m_status := (m_status d)\<lparr>ds_online := False\<rparr>\<rparr>"

definition next_expected_size :: "u8 list \<Rightarrow> nat \<Rightarrow> nat" where
  "next_expected_size response expected_size =
     (if length response \<ge> 2 \<and> (response ! 1) AND 0x80 \<noteq> 0 then 5
      else if length response \<ge> 3 then 3 + unat (response ! 2) + 2
      else expected_size)"

text \<open>The collecting loop: an error text, or the bytes received when the loop ends.\<close>

fun collect_response ::
  "int \<Rightarrow> modbus_round list \<Rightarrow> nat \<Rightarrow> u8 list \<Rightarrow> (string + u8 list) option" where
  "collect_response deadline [] expected_size response = None"
| "collect_response deadline (round # rounds) expected_size response =
     (if \<not> (rd_now round < deadline \<and> length response < expected_size) then Some (Inr response)
      else
        let remaining = ms_of_ns (deadline - rd_now_remaining round) in
        (case read_some (rd_serial round remaining) 256 of
           None \<Rightarrow> None
         | Some (received, bytes, error) \<Rightarrow>
             if received < 0 then Some (Inl error)
             else if received = 0 then Some (Inr response)
             else let response' = response @ bytes in
               collect_response deadline rounds (next_expected_size response' expected_size) response'))"

text \<open>The part of a read call after the answer was collected.\<close>

definition modbus_finish :: "u64 \<Rightarrow> u8 list \<Rightarrow> modbus_device \<Rightarrow> device_read_result \<times> modbus_device" where
  "modbus_finish now response d =
     (if response = [] then
        let d1 = modbus_record_error d in
        (read_failed Timeout ''Modbus response timeout'',
         d1\<lparr>m_status := (m_status d1)\<lparr>ds_online := False\<rparr>\<rparr>)
      else
        let parsed = parse_read_response response (mo_request (m_options d)) in
        if rs_status parsed \<noteq> RsOk then
          (read_failed ProtocolError (rs_error parsed), modbus_record_error d)
        else (case registers_to_device_data parsed (slave_id (mo_request (m_options d))) device_data_init of
          (False, _, error) \<Rightarrow> (read_failed ProtocolError error, modbus_record_error d)
        | (True, device_data, _) \<Rightarrow>
            (read_data (to_sensor_data device_data),
             d\<lparr>m_status := (m_status d)\<lparr>ds_online := True, last_update_unix_seconds := now\<rparr>\<rparr>)))"

definition modbus_lost :: "string \<Rightarrow> modbus_device \<Rightarrow> device_read_result \<times> modbus_device" where
  "modbus_lost error d = (read_failed TransportError error, modbus_stop (modbus_record_error d))"

definition modbus_read ::
  "modbus_read_input \<Rightarrow> modbus_device \<Rightarrow> (device_read_result \<times> modbus_device) option" where
  "modbus_read input d0 =
     (if mr_now input < m_next_poll d0 then Some (read_result_init, d0)
      else
        let d = d0\<lparr>m_next_poll := mr_now input + ns_of_ms (mo_poll_interval_ms (m_options d0))\<rparr> in
        (case discard_input (mr_tcflush input) (m_port d) of
           (False, error) \<Rightarrow> Some (modbus_lost error d)
         | (True, _) \<Rightarrow>
             (case write_all (mr_writes input) (build_read_request (mo_request (m_options d))) [] of
                None \<Rightarrow> None
              | Some (False, error, _) \<Rightarrow> Some (modbus_lost error d)
              | Some (True, _, _) \<Rightarrow>
                  let deadline = mr_sent_at input + ns_of_ms (mo_response_timeout_ms (m_options d)) in
                  (case collect_response deadline (mr_rounds input) 5 [] of
                     None \<Rightarrow> None
                   | Some (Inl error) \<Rightarrow> Some (modbus_lost error d)
                   | Some (Inr response) \<Rightarrow> Some (modbus_finish (mr_unix_seconds input) response d)))))"

definition modbus_ops :: "(modbus_device, modbus_start_input, modbus_read_input) device_ops" where
  "modbus_ops = \<lparr>dev_start = modbus_start, dev_stop = modbus_stop, dev_read = modbus_read,
     get_device_status = m_status\<rparr>"

definition modbus_invar :: "modbus_device \<Rightarrow> bool" where
  "modbus_invar d \<longleftrightarrow> ds_protocol (m_status d) = ModbusRtu
     \<and> ds_device_id (m_status d) = ucast (slave_id (mo_request (m_options d)))"

section \<open>The interface laws\<close>

lemma modbus_status_simps [simp]:
  "m_status (modbus_record_error d) = (m_status d)\<lparr>error_count := error_count (m_status d) + 1\<rparr>"
  "m_status (modbus_stop d) = (m_status d)\<lparr>ds_online := False\<rparr>"
  "m_options (modbus_record_error d) = m_options d" "m_options (modbus_stop d) = m_options d"
  "\<not> is_open (m_port (modbus_stop d))"
  by (simp_all add: modbus_record_error_def modbus_stop_def)

lemma modbus_start_status:
  "modbus_start input d = (ok, e, d') \<Longrightarrow> m_options d' = m_options d
    \<and> m_status d' = (if ok then (m_status d)\<lparr>ds_online := True\<rparr>
        else (m_status d)\<lparr>error_count := error_count (m_status d) + 1\<rparr>)"
  by (auto simp: modbus_start_def split: prod.splits bool.splits)

definition modbus_law :: "modbus_device \<Rightarrow> device_read_result \<Rightarrow> modbus_device \<Rightarrow> bool" where
  "modbus_law d res d' \<longleftrightarrow> m_options d' = m_options d \<and> (r_data res \<noteq> None \<longleftrightarrow> r_code res = Data)
     \<and> ds_protocol (m_status d') = ds_protocol (m_status d)
     \<and> ds_device_id (m_status d') = ds_device_id (m_status d)
     \<and> error_count (m_status d') = error_count (m_status d) + of_nat (read_error_count res)
     \<and> (r_code res = TransportError \<longrightarrow> \<not> ds_online (m_status d'))
     \<and> (r_code res = Data \<longrightarrow> ds_online (m_status d'))"

lemma modbus_finish_law: "modbus_law d (fst (modbus_finish now response d)) (snd (modbus_finish now response d))"
  by (simp add: modbus_finish_def modbus_law_def Let_def split: prod.split bool.split)

lemma modbus_lost_law: "modbus_law d (fst (modbus_lost e d)) (snd (modbus_lost e d))"
  by (simp add: modbus_lost_def modbus_law_def)

lemma modbus_law_next_poll [simp]: "modbus_law (d\<lparr>m_next_poll := t\<rparr>) res d' = modbus_law d res d'"
  by (simp add: modbus_law_def)

lemma modbus_read_cases:
  assumes "modbus_read input d = Some (res, d')"
  obtains (idle) "mr_now input < m_next_poll d" "res = read_result_init" "d' = d"
  | (lost) e t where "modbus_lost e (d\<lparr>m_next_poll := t\<rparr>) = (res, d')"
  | (finished) response t where "modbus_finish (mr_unix_seconds input) response (d\<lparr>m_next_poll := t\<rparr>) = (res, d')"
  using assms that
  by (auto simp: modbus_read_def Let_def split: if_splits prod.splits bool.splits option.splits sum.splits)

lemma modbus_read_law:
  assumes "modbus_read input d = Some (res, d')"
  shows "modbus_law d res d'"
  using assms
proof (cases rule: modbus_read_cases)
  case idle
  then show ?thesis by (simp add: modbus_law_def)
next
  case (lost e t)
  then show ?thesis
    using modbus_lost_law [of "d\<lparr>m_next_poll := t\<rparr>" e] by simp
next
  case (finished response t)
  then show ?thesis
    using modbus_finish_law [of "d\<lparr>m_next_poll := t\<rparr>" "mr_unix_seconds input" response] by simp
qed

interpretation modbus: device_interface modbus_ops modbus_invar
  by unfold_locales
    (auto simp: modbus_ops_def modbus_invar_def modbus_law_def dest!: modbus_start_status modbus_read_law)

section \<open>Collecting an answer\<close>

text \<open>A round in which the line delivers a chunk in time, whatever rest time is passed to it.\<close>

definition delivers :: "int \<Rightarrow> modbus_round \<Rightarrow> u8 list \<Rightarrow> bool" where
  "delivers deadline round chunk \<longleftrightarrow> rd_now round < deadline \<and> chunk \<noteq> []
     \<and> read_some (rd_serial round (ms_of_ns (deadline - rd_now_remaining round))) 256
         = Some (int (length chunk), chunk, [])"

lemma function_byte_low: "function_byte f AND 0x80 = 0"
  by (cases f) simp_all

lemma next_expected_size_prefix:
  assumes "response @ rest = encode_response req regs" and "length regs \<le> 127"
  shows "next_expected_size response n = (if length response < 3 then n else length (encode_response req regs))"
proof -
  let ?f = "encode_response req regs"
  have nth: "?f ! 1 = function_byte (rq_function req)" "unat (?f ! 2) = 2 * length regs"
      "length ?f = 2 * length regs + 5"
    using assms(2) by (simp_all add: encode_response_def register_bytes_count)
  have "response ! i = ?f ! i" if "i < length response" for i
    using that assms(1) by (metis nth_append)
  then have "2 \<le> length response \<Longrightarrow> response ! 1 AND 0x80 = 0" "3 \<le> length response \<Longrightarrow> response ! 2 = ?f ! 2"
    using nth(1) function_byte_low by simp_all
  with nth show ?thesis by (auto simp: next_expected_size_def)
qed

lemma collect_response_chunks:
  assumes "list_all2 (delivers deadline) rounds chunks" and "length regs \<le> 127"
    and "response @ concat chunks = encode_response req regs"
    and "expected = (if length response < 3 then 5 else length (encode_response req regs))"
  shows "collect_response deadline (rounds @ [round]) expected response = Some (Inr (encode_response req regs))"
  using assms
proof (induction rounds chunks arbitrary: response expected rule: list_all2_induct)
  case Nil
  then show ?case by (simp add: encode_response_def)
next
  case (Cons r rounds chunk chunks)
  let ?f = "encode_response req regs"
  have len: "5 \<le> length ?f" by (simp add: encode_response_def)
  have "length response + length chunk + length (concat chunks) = length ?f"
    using Cons.prems(2) by (metis append_assoc concat.simps(2) length_append)
  then have "length response < expected"
    using Cons.hyps(1) Cons.prems(3) len by (cases chunk) (auto simp: delivers_def)
  moreover have "next_expected_size (response @ chunk) expected
      = (if length (response @ chunk) < 3 then 5 else length ?f)"
    using next_expected_size_prefix [of "response @ chunk" "concat chunks" req regs expected] Cons.prems
    by auto
  moreover note Cons.IH [of "response @ chunk" "next_expected_size (response @ chunk) expected"]
  ultimately show ?case
    using Cons.hyps(1) Cons.prems(1,2) by (simp add: delivers_def Let_def)
qed

text \<open>The loop ends: each round that continues has received at least one byte.\<close>

lemma next_expected_size_le: "next_expected_size response n \<le> max n 260"
  using unat_u8_less [of "response ! 2"] by (auto simp: next_expected_size_def)

lemma collect_response_returns:
  assumes "list_all (\<lambda>r. \<forall>t. \<not> set (sr_polls (rd_serial r t)) \<subseteq> {PollFailed EINTR}) rounds"
    and "expected \<le> 260" and "260 < length response + length rounds" and "rounds \<noteq> []"
  shows "\<exists>r. collect_response deadline rounds expected response = Some r"
  using assms
proof (induction rounds arbitrary: response expected)
  case (Cons r rounds)
  obtain n bytes e where rs: "read_some (rd_serial r (ms_of_ns (deadline - rd_now_remaining r))) 256
      = Some (n, bytes, e)"
    using read_some_returns [of "rd_serial r (ms_of_ns (deadline - rd_now_remaining r))" 256] Cons.prems(1)
    by auto
  have "next_expected_size (response @ bytes) expected \<le> 260"
    using next_expected_size_le [of "response @ bytes" expected] Cons.prems(2) by simp
  then have "n > 0 \<Longrightarrow> length response < expected \<Longrightarrow> \<exists>x. collect_response deadline rounds
      (next_expected_size (response @ bytes) expected) (response @ bytes) = Some x"
    using Cons.IH [of _ "response @ bytes"] Cons.prems read_some_count [OF rs] by (cases rounds) auto
  then show ?case by (auto simp: rs Let_def)
qed auto

section \<open>Properties of the device\<close>

text \<open>
  C16: a healthy poll. When the poll is due, the port is open, the request goes out and the slave
  answers by the protocol with six registers, in any number of chunks arriving before the
  deadline, the read call returns the reading of these registers, the device is online with the
  current time and its error count is unchanged.
\<close>

theorem modbus_poll_reading:
  assumes "m_next_poll d \<le> mr_now input" and "is_open (m_port d)" and "mr_tcflush input = None"
    and "write_all (mr_writes input) (build_read_request (mo_request (m_options d))) []
          = Some (True, e, build_read_request (mo_request (m_options d)))"
    and "mr_rounds input = rounds @ [round]"
    and "list_all2 (delivers (mr_sent_at input + ns_of_ms (mo_response_timeout_ms (m_options d)))) rounds chunks"
    and "concat chunks = encode_response (mo_request (m_options d)) [t, h, gas, battery, status, seq]"
    and "register_count (mo_request (m_options d)) = 6"
  shows "\<exists>d'. modbus_read input d = Some (read_data (reading (slave_id (mo_request (m_options d))) 0x01
        (sint t) (uint h) gas battery (ucast status) seq), d')
    \<and> m_status d' = (m_status d)\<lparr>ds_online := True, last_update_unix_seconds := mr_unix_seconds input\<rparr>
    \<and> m_next_poll d' = mr_now input + ns_of_ms (mo_poll_interval_ms (m_options d))"
proof -
  let ?req = "mo_request (m_options d)" and ?regs = "[t, h, gas, battery, status, seq]"
  let ?resp = "encode_response ?req ?regs" and ?dl = "mr_sent_at input + ns_of_ms (mo_response_timeout_ms (m_options d))"
  have collect: "collect_response ?dl (mr_rounds input) 5 [] = Some (Inr ?resp)"
    using collect_response_chunks [OF assms(6), of ?regs "[]" ?req 5 round] assms(5,7) by simp
  have parsed: "parse_read_response ?resp ?req
      = read_response_init\<lparr>registers := ?regs, rs_status := RsOk, rs_error := []\<rparr>"
    using assms(8) by (intro parse_encode_response) simp_all
  obtain dd where dd: "registers_to_device_data (parse_read_response ?resp ?req) (slave_id ?req) device_data_init
        = (True, dd, [])"
      "to_sensor_data dd = reading (slave_id ?req) 0x01 (sint t) (uint h) gas battery (ucast status) seq"
    using registers_to_device_data_ok [of "parse_read_response ?resp ?req" t h gas battery status seq "[]"
        "slave_id ?req" device_data_init] by (auto simp: parsed)
  have "?resp \<noteq> []" by (simp add: encode_response_def rtu_frame_def)
  then show ?thesis
    using assms(1-4) collect dd parsed
    by (simp add: modbus_read_def modbus_finish_def Let_def discard_input_def is_open_def)
qed

text \<open>
  C17: a read call of the Modbus device always returns: the collecting loop needs at most 261
  rounds, and the request is sent after at most eight answers other than "try again".
\<close>

theorem modbus_read_returns:
  assumes "list_all (\<lambda>r. \<forall>t. \<not> set (sr_polls (rd_serial r t)) \<subseteq> {PollFailed EINTR}) (mr_rounds input)"
    and "261 \<le> length (mr_rounds input)"
    and "8 \<le> length (filter (\<lambda>a. \<not> retried a) (mr_writes input))"
  shows "\<exists>res d'. modbus_read input d = Some (res, d')"
proof -
  have "length (build_read_request req) = 8" for req
    by (simp add: build_read_request_def append_u16_be_def Let_def)
  then have sends: "\<exists>r. write_all (mr_writes input) (build_read_request req) [] = Some r" for req
    using assms(3) by (intro write_all_ends) simp
  have collect: "\<exists>r. collect_response deadline (mr_rounds input) 5 [] = Some r" for deadline
    using assms(1,2) by (intro collect_response_returns) auto
  show ?thesis
    using sends [of "mo_request (m_options d)"]
      collect [of "mr_sent_at input + ns_of_ms (mo_response_timeout_ms (m_options d))"]
    by (auto simp: modbus_read_def Let_def modbus_lost_def split: prod.split bool.split sum.split)
qed

definition example_modbus :: modbus_device where
  "example_modbus = (modbus_new \<lparr>mo_port = ''/dev/ttyUSB1'', mo_baud_rate = 9600, mo_request = read_request_init,
     mo_poll_interval_ms = 1000, mo_response_timeout_ms = 500\<rparr>)\<lparr>m_port := \<lparr>fd = 4\<rparr>\<rparr>"

definition example_round :: "u8 list \<Rightarrow> modbus_round" where
  "example_round chunk = \<lparr>rd_now = 0, rd_now_remaining = 0,
     rd_serial = (\<lambda>_. \<lparr>sr_polls = [PollReady POLLIN], sr_read = Inr chunk\<rparr>)\<rparr>"

definition example_poll :: "u8 list \<Rightarrow> modbus_read_input" where
  "example_poll chunk = \<lparr>mr_now = 0, mr_tcflush = None, mr_writes = replicate 8 (Inr 8), mr_sent_at = 0,
     mr_rounds = replicate 261 (example_round chunk), mr_unix_seconds = 1700000000\<rparr>"

lemma delivers_example_round:
  "chunk \<noteq> [] \<Longrightarrow> length chunk \<le> 256 \<Longrightarrow> 0 < deadline \<Longrightarrow> delivers deadline (example_round chunk) chunk"
  by (simp add: delivers_def example_round_def read_some_def poll_bits)

theorem modbus_poll_reading_witness:
  "\<exists>d'. modbus_read ((example_poll [])\<lparr>mr_rounds :=
      [example_round (encode_response read_request_init [253, 608, 300, 3700, 0, 1])] @ [example_round []]\<rparr>)
      example_modbus = Some (read_data (reading (slave_id (mo_request (m_options example_modbus))) 0x01
        (sint (253 :: u16)) (uint (608 :: u16)) 300 3700 (ucast (0 :: u16)) 1), d')
    \<and> m_status d' = (m_status example_modbus)\<lparr>ds_online := True, last_update_unix_seconds :=
        mr_unix_seconds ((example_poll [])\<lparr>mr_rounds :=
          [example_round (encode_response read_request_init [253, 608, 300, 3700, 0, 1])] @ [example_round []]\<rparr>)\<rparr>
    \<and> m_next_poll d' = mr_now ((example_poll [])\<lparr>mr_rounds :=
          [example_round (encode_response read_request_init [253, 608, 300, 3700, 0, 1])] @ [example_round []]\<rparr>)
        + ns_of_ms (mo_poll_interval_ms (m_options example_modbus))"
proof -
  let ?chunk = "encode_response read_request_init [253, 608, 300, 3700, 0, 1]"
  have len: "length ?chunk = 17" "?chunk \<noteq> []" by (simp_all add: encode_response_def rtu_frame_def)
  have "length (build_read_request read_request_init) = 8"
    by (simp add: build_read_request_def append_u16_be_def Let_def)
  then obtain b bs where req: "build_read_request read_request_init = b # bs" "length bs = 7"
    by (auto simp: eval_nat_numeral length_Suc_conv)
  show ?thesis
    by (rule modbus_poll_reading [where chunks = "[?chunk]" and e = "[]" and rounds = "[example_round ?chunk]"
          and round = "example_round []"])
      (use len delivers_example_round [of ?chunk] req in
        \<open>simp_all add: example_modbus_def modbus_new_def example_poll_def is_open_def ns_of_ms_def
          numeral_eq_Suc read_request_init_def\<close>)
qed

theorem modbus_read_returns_witness:
  "\<exists>res d'. modbus_read (example_poll [1]) example_modbus = Some (res, d')"
  by (rule modbus_read_returns)
    (simp_all add: example_poll_def example_round_def list_all_iff retried_def)

text \<open>
  The rest time is computed from a second clock reading. When the thread is delayed by a
  millisecond or more between the two, past the deadline, \<open>poll\<close> gets a negative timeout, which
  means waiting without limit.
\<close>

lemma modbus_rest_time_negative:
  "\<exists>round :: modbus_round. rd_now round < deadline \<and> rd_now round \<le> rd_now_remaining round
    \<and> ms_of_ns (deadline - rd_now_remaining round) < 0"
  by (rule exI [of _ "\<lparr>rd_now = deadline - 1, rd_now_remaining = deadline + 1000000, rd_serial = undefined\<rparr>"])
    (simp add: ms_of_ns_def)

text \<open>A request for fewer than six registers never gives a reading.\<close>

lemma length_read_registers: "length (read_registers frame k (k + 2 * n)) = n"
proof (induction n arbitrary: k)
  case (Suc n)
  from Suc [of "k + 2"] show ?case by (subst read_registers.simps) (simp add: add.commute)
qed (simp add: read_registers.simps)

lemma parsed_register_count:
  "rs_status (parse_read_response frame request) = RsOk
    \<Longrightarrow> length (registers (parse_read_response frame request)) = unat (register_count request)"
  using length_read_registers [of frame 3 "unat (register_count request)"]
  by (auto simp: parse_read_response_def read_response_init_def Let_def mult.commute split: if_splits)

lemma short_request_no_data:
  assumes "modbus_read input d = Some (res, d')" and "unat (register_count (mo_request (m_options d))) < 6"
  shows "r_code res \<noteq> Data"
  using assms(1)
proof (cases rule: modbus_read_cases)
  case (finished response t)
  with assms(2) parsed_register_count [of response "mo_request (m_options d)"] show ?thesis
    by (auto simp: modbus_finish_def registers_to_device_data_def Let_def split: if_splits)
qed (auto simp: modbus_lost_def)

end
