(* ===== verification/CanBus.thy ===== *)
theory CanBus
  imports DeviceInterface
begin

text \<open>
  \<^verbatim>\<open>src/src/can/can_interface.h\<close>, \<^verbatim>\<open>can_parser.cpp\<close> and \<^verbatim>\<open>socketcan_device.{h,cpp}\<close>: the
  CAN sensor frame, its decoding, and the SocketCAN descriptor with its open, close and read
  operations. What the kernel answers to each system call is an argument.
\<close>

section \<open>Sensor frames\<close>

record can_frame =
  can_id :: u32
  extended :: bool
  dlc :: u8
  can_data :: "u8 list"

definition can_frame_init :: can_frame where
  "can_frame_init = \<lparr>can_id = 0, extended = False, dlc = 0, can_data = replicate 8 0\<rparr>"

definition can_read_u16_be :: "u8 list \<Rightarrow> nat \<Rightarrow> u16" where
  "can_read_u16_be data offset = word_of_be (data ! offset) (data ! (offset + 1))"

definition parse_sensor_frame :: "can_frame \<Rightarrow> device_data \<Rightarrow> bool \<times> device_data \<times> string" where
  "parse_sensor_frame frame output =
     (if extended frame \<or> (can_id frame AND 0x1FFFFFFF) > 0x7FF then
        (False, output, ''only standard 11-bit CAN identifiers are supported'')
      else if dlc frame \<noteq> 8 then (False, output, ''CAN sensor frame DLC must be 8'')
      else
        (True, device_data_init\<lparr>dd_device_id := ucast (can_id frame AND 0xFF),
           dd_protocol := SocketCan,
           dd_temperature_c := double_div10 (sint (can_read_u16_be (can_data frame) 0)),
           dd_humidity_percent := double_div10 (uint (can_read_u16_be (can_data frame) 2)),
           dd_gas_ppm := can_read_u16_be (can_data frame) 4,
           dd_battery_mv := ucast (can_data frame ! 6) * 100,
           dd_status := can_data frame ! 7, dd_sequence := 0\<rparr>, []))"

section \<open>The SocketCAN descriptor\<close>

definition CAN_EFF_FLAG :: u32 where "CAN_EFF_FLAG = 0x80000000"
definition CAN_RTR_FLAG :: u32 where "CAN_RTR_FLAG = 0x40000000"
definition CAN_ERR_FLAG :: u32 where "CAN_ERR_FLAG = 0x20000000"
definition CAN_SFF_MASK :: u32 where "CAN_SFF_MASK = 0x000007FF"
definition CAN_EFF_MASK :: u32 where "CAN_EFF_MASK = 0x1FFFFFFF"
definition IFNAMSIZ :: nat where "IFNAMSIZ = 16"

lemmas can_consts = CAN_EFF_FLAG_def CAN_RTR_FLAG_def CAN_ERR_FLAG_def CAN_SFF_MASK_def
  CAN_EFF_MASK_def

text \<open>The kernel's \<open>struct can_frame\<close>, and the answers to \<open>recv\<close>.\<close>

record kernel_can_frame =
  k_can_id :: u32
  k_can_dlc :: u8
  k_data :: "u8 list"

datatype can_recv = CanRecvFailed errno | CanRecvShort | CanRecv kernel_can_frame

record can_open_answers =
  ca_socket :: "errno + nat"
  ca_ifindex :: "string \<Rightarrow> errno + nat"
  ca_bind :: "nat \<Rightarrow> errno option"

record can_read_answers =
  ca_polls :: "poll_answer list"
  ca_recv :: can_recv

record socketcan =
  interface_name :: string
  socket_fd :: int

definition socketcan_new :: "string \<Rightarrow> socketcan" where
  "socketcan_new name = \<lparr>interface_name = name, socket_fd = -1\<rparr>"

definition close_device :: "socketcan \<Rightarrow> socketcan" where
  "close_device s = (if socket_fd s \<ge> 0 then s\<lparr>socket_fd := -1\<rparr> else s)"

definition open_device :: "can_open_answers \<Rightarrow> socketcan \<Rightarrow> bool \<times> string \<times> socketcan" where
  "open_device os s0 =
     (let s1 = close_device s0 in
      case ca_socket os of
        Inl e \<Rightarrow> (False, strerror e, s1\<lparr>socket_fd := -1\<rparr>)
      | Inr n \<Rightarrow>
          let s2 = s1\<lparr>socket_fd := int n\<rparr> in
          (case ca_ifindex os (take (IFNAMSIZ - 1) (interface_name s2)) of
            Inl e \<Rightarrow> (False, strerror e, close_device s2)
          | Inr ifindex \<Rightarrow>
              (case ca_bind os ifindex of
                Some e \<Rightarrow> (False, strerror e, close_device s2)
              | None \<Rightarrow> (True, [], s2))))"

text \<open>
  The integer result, the output frame (unchanged unless the result is 1) and the error text; no
  result while every \<open>poll\<close> so far was interrupted.
\<close>

definition read_frame ::
  "can_read_answers \<Rightarrow> socketcan \<Rightarrow> can_frame \<Rightarrow> (int \<times> can_frame \<times> string) option" where
  "read_frame os s output =
     (case poll_retry (ca_polls os) of
        None \<Rightarrow> None
      | Some PollTimeout \<Rightarrow> Some (0, output, [])
      | Some (PollFailed e) \<Rightarrow> Some (-1, output, strerror e)
      | Some (PollReady revents) \<Rightarrow>
          if revents AND (POLLERR OR POLLHUP OR POLLNVAL) \<noteq> 0 then
            Some (-1, output, ''SocketCAN connection lost'')
          else (case ca_recv os of
            CanRecvFailed e \<Rightarrow> Some (-1, output, strerror e)
          | CanRecvShort \<Rightarrow> Some (-1, output, ''short CAN frame'')
          | CanRecv frame \<Rightarrow>
              if k_can_id frame AND (CAN_RTR_FLAG OR CAN_ERR_FLAG) \<noteq> 0 then
                Some (2, output, ''CAN RTR or error frame is not sensor data'')
              else
                let ext = (k_can_id frame AND CAN_EFF_FLAG \<noteq> 0) in
                Some (1, \<lparr>can_id = (if ext then k_can_id frame AND CAN_EFF_MASK
                                   else k_can_id frame AND CAN_SFF_MASK),
                  extended = ext, dlc = k_can_dlc frame,
                  can_data = map (\<lambda>index. k_data frame ! index) [0..<8]\<rparr>, [])))"

lemma read_frame_returns:
  "\<not> set (ca_polls os) \<subseteq> {PollFailed EINTR} \<Longrightarrow> \<exists>r. read_frame os s output = Some r"
  using poll_retry_None_iff [of "ca_polls os"]
  by (auto simp: read_frame_def Let_def split: poll_answer.split can_recv.split)

section \<open>Decoding\<close>

text \<open>The documented layout of a CAN sensor frame.\<close>

definition can_payload :: "u16 \<Rightarrow> u16 \<Rightarrow> u16 \<Rightarrow> u8 \<Rightarrow> u8 \<Rightarrow> u8 list" where
  "can_payload t h gas battery100 status =
     [high_byte t, low_byte t, high_byte h, low_byte h, high_byte gas, low_byte gas, battery100, status]"

lemma masked_id_small: "(i :: u32) AND 0x7FF \<le> 0x7FF"
  by (simp add: word_and_le1)

lemma masked_id_standard: "\<not> 0x7FF < ((i :: u32) AND 0x7FF) AND 0x1FFFFFFF"
  using masked_id_small [of i] word_and_le1 [of "0x1FFFFFFF" "i AND 0x7FF"]
  by (metis leD order.trans word_and_le2)

lemma masked_id_device: "((i :: u32) AND 0x7FF) AND 0xFF = i AND 0xFF"
  by (simp add: and.assoc)

lemma parse_sensor_frame_ok:
  assumes "\<not> extended frame" "\<not> 0x7FF < can_id frame AND 0x1FFFFFFF" "dlc frame = 8"
    and "can_data frame = can_payload t h gas battery100 status"
  shows "\<exists>dd. parse_sensor_frame frame output = (True, dd, []) \<and> dd_protocol dd = SocketCan
    \<and> to_sensor_data dd = reading (ucast (can_id frame AND 0xFF)) 0x01 (sint t) (uint h) gas
        (ucast battery100 * 100) status 0"
  using assms
  by (simp add: parse_sensor_frame_def to_sensor_data_reading [where t = "sint t" and h = "uint h"]
      can_payload_def can_read_u16_be_def sint_u16_bound uint_u16_bound)

lemma can_battery_no_wrap: "unat (ucast (b :: u8) * 100 :: u16) = unat b * 100"
  using unat_u8_less [of b] by (simp add: unat_word_ariths)

text \<open>
  C37: the way of a CAN sensor frame from the socket to a reading. A data frame with a standard
  identifier and eight data bytes is delivered with the low byte of its identifier as device,
  the six fields of the payload, and the battery in steps of 100 mV, without wrap-around.
\<close>

theorem can_frame_reading:
  assumes "poll_retry (ca_polls os) = Some (PollReady POLLIN)"
    and "ca_recv os = CanRecv \<lparr>k_can_id = i, k_can_dlc = 8,
          k_data = can_payload t h gas battery100 status\<rparr>"
    and "i AND (CAN_EFF_FLAG OR CAN_RTR_FLAG OR CAN_ERR_FLAG) = 0"
  shows "\<exists>frame dd battery. read_frame os s output = Some (1, frame, [])
    \<and> parse_sensor_frame frame out = (True, dd, [])
    \<and> to_sensor_data dd = reading (ucast (i AND 0xFF)) 0x01 (sint t) (uint h) gas battery status 0
    \<and> unat battery = unat battery100 * 100"
proof -
  let ?frame = "\<lparr>can_id = i AND 0x7FF, extended = False, dlc = 8,
    can_data = can_payload t h gas battery100 status\<rparr>"
  have and_or: "i AND (a OR b) = 0 \<Longrightarrow> i AND b = 0" "i AND (a OR b) = 0 \<Longrightarrow> i AND a = 0" for a b
    by (auto simp: bit_eq_iff bit_simps)
  have flags: "i AND (CAN_RTR_FLAG OR CAN_ERR_FLAG) = 0" "i AND CAN_EFF_FLAG = 0"
    using assms(3) and_or [of CAN_EFF_FLAG "CAN_RTR_FLAG OR CAN_ERR_FLAG"] by (simp_all add: or.assoc)
  have "map (\<lambda>index. can_payload t h gas battery100 status ! index) [0..<8]
      = can_payload t h gas battery100 status"
    by (simp add: can_payload_def eval_nat_numeral)
  then have "read_frame os s output = Some (1, ?frame, [])"
    using assms(1,2) flags by (simp add: read_frame_def Let_def poll_bits CAN_SFF_MASK_def)
  moreover obtain dd where "parse_sensor_frame ?frame out = (True, dd, [])"
      "to_sensor_data dd = reading (ucast (i AND 0xFF)) 0x01 (sint t) (uint h) gas
        (ucast battery100 * 100) status 0"
    using parse_sensor_frame_ok [of ?frame t h gas battery100 status out]
    by (auto simp: masked_id_standard masked_id_device)
  ultimately show ?thesis using can_battery_no_wrap by blast
qed

theorem can_frame_reading_witness:
  "\<exists>frame dd battery. read_frame
      \<lparr>ca_polls = [PollFailed EINTR, PollReady POLLIN],
       ca_recv = CanRecv \<lparr>k_can_id = 0x123, k_can_dlc = 8, k_data = can_payload 253 608 300 37 0\<rparr>\<rparr>
      (socketcan_new ''can0'') can_frame_init = Some (1, frame, [])
    \<and> parse_sensor_frame frame device_data_init = (True, dd, [])
    \<and> to_sensor_data dd = reading (ucast ((0x123 :: u32) AND 0xFF)) 0x01 (sint (253 :: u16))
        (uint (608 :: u16)) 300 battery 0 0
    \<and> unat battery = unat (37 :: u8) * 100"
  by (rule can_frame_reading) (simp_all add: can_consts)

text \<open>
  Opening and closing the CAN socket. Opening reports success exactly when socket, interface
  lookup and bind all succeed; whatever fails, the descriptor obtained so far is closed again and
  the object is left closed, and the interface name never changes.
\<close>

lemma open_device_closes_on_failure:
  "let (ok, e, s') = open_device os s in
     interface_name s' = interface_name s
     \<and> (ok \<longleftrightarrow> (\<exists>n ifindex. ca_socket os = Inr n
           \<and> ca_ifindex os (take 15 (interface_name s)) = Inr ifindex \<and> ca_bind os ifindex = None))
     \<and> (if ok then 0 \<le> socket_fd s' \<and> e = [] else socket_fd s' = -1)
     \<and> socket_fd (close_device s') < 0"
  by (auto simp: open_device_def close_device_def Let_def IFNAMSIZ_def split: sum.split option.split)

end
