(* ===== verification/CanDevice.thy ===== *)
theory CanDevice
  imports CanBus
begin

text \<open>
  \<^verbatim>\<open>src/src/device/can_device.{h,cpp}\<close>: the CAN device, a SocketCAN descriptor with a status.
\<close>

record can_device =
  c_socketcan :: socketcan
  c_status :: device_status

record can_read_input =
  cr_can :: can_read_answers
  cr_unix_seconds :: u64

definition can_new :: "string \<Rightarrow> can_device" where
  "can_new name = \<lparr>c_socketcan = socketcan_new name,
     c_status = device_status_init\<lparr>ds_protocol := SocketCan\<rparr>\<rparr>"

definition can_record_error :: "can_device \<Rightarrow> can_device" where
  "can_record_error d = d\<lparr>c_status := (c_status d)\<lparr>error_count := error_count (c_status d) + 1\<rparr>\<rparr>"

definition can_start :: "can_open_answers \<Rightarrow> can_device \<Rightarrow> bool \<times> string \<times> can_device" where
  "can_start os d =
     (case open_device os (c_socketcan d) of
        (False, e, s) \<Rightarrow> (False, e, can_record_error (d\<lparr>c_socketcan := s\<rparr>))
      | (True, e, s) \<Rightarrow> (True, e, d\<lparr>c_socketcan := s, c_status := (c_status d)\<lparr>ds_online := True\<rparr>\<rparr>))"

definition can_stop :: "can_device \<Rightarrow> can_device" where
  "can_stop d = d\<lparr>c_socketcan := close_device (c_socketcan d),
     c_status := (c_status d)\<lparr>ds_online := False\<rparr>\<rparr>"

definition can_read :: "can_read_input \<Rightarrow> can_device \<Rightarrow> (device_read_result \<times> can_device) option" where
  "can_read input d =
     (case read_frame (cr_can input) (c_socketcan d) can_frame_init of
        None \<Rightarrow> None
      | Some (result, frame, error) \<Rightarrow>
          if result = 0 then Some (read_result_init, d)
          else if result < 0 then
            Some (read_failed TransportError error, can_stop (can_record_error d))
          else if result = 2 then Some (read_failed ProtocolError error, can_record_error d)
          else (case parse_sensor_frame frame device_data_init of
            (False, _, error') \<Rightarrow> Some (read_failed ProtocolError error', can_record_error d)
          | (True, device_data, _) \<Rightarrow>
              let sensor_data = to_sensor_data device_data in
              Some (read_data sensor_data, d\<lparr>c_status := (c_status d)
                \<lparr>ds_device_id := ucast (s_device_id sensor_data), ds_online := True,
                 last_update_unix_seconds := cr_unix_seconds input\<rparr>\<rparr>)))"

definition can_ops :: "(can_device, can_open_answers, can_read_input) device_ops" where
  "can_ops = \<lparr>dev_start = can_start, dev_stop = can_stop, dev_read = can_read,
     get_device_status = c_status\<rparr>"

definition can_invar :: "can_device \<Rightarrow> bool" where
  "can_invar d \<longleftrightarrow> ds_protocol (c_status d) = SocketCan"

lemma can_status_simps [simp]:
  "c_status (can_record_error d) = (c_status d)\<lparr>error_count := error_count (c_status d) + 1\<rparr>"
  "c_status (can_stop d) = (c_status d)\<lparr>ds_online := False\<rparr>"
  "socket_fd (c_socketcan (can_stop d)) < 0"
  by (simp_all add: can_record_error_def can_stop_def close_device_def)

lemma can_start_status:
  "can_start os d = (ok, e, d') \<Longrightarrow> c_status d' = (if ok then (c_status d)\<lparr>ds_online := True\<rparr>
     else (c_status d)\<lparr>error_count := error_count (c_status d) + 1\<rparr>)"
  by (auto simp: can_start_def split: prod.splits bool.splits)

lemma can_read_cases:
  assumes "can_read input d = Some (res, d')"
  obtains (idle) "res = read_result_init" "d' = d"
  | (lost) e where "res = read_failed TransportError e" "d' = can_stop (can_record_error d)"
  | (rejected) e where "res = read_failed ProtocolError e" "d' = can_record_error d"
  | (data) frame dd e where "read_frame (cr_can input) (c_socketcan d) can_frame_init = Some (1, frame, e)"
      "parse_sensor_frame frame device_data_init = (True, dd, [])" "res = read_data (to_sensor_data dd)"
      "d' = d\<lparr>c_status := (c_status d)\<lparr>ds_device_id := ucast (s_device_id (to_sensor_data dd)),
         ds_online := True, last_update_unix_seconds := cr_unix_seconds input\<rparr>\<rparr>"
proof -
  obtain n frame e where rf: "read_frame (cr_can input) (c_socketcan d) can_frame_init = Some (n, frame, e)"
    using assms by (auto simp: can_read_def split: option.splits)
  have n: "n \<in> {0, -1, 2, 1}"
    using rf by (auto simp: read_frame_def Let_def
        split: if_splits option.splits poll_answer.splits can_recv.splits)
  obtain ok dd e' where p: "parse_sensor_frame frame device_data_init = (ok, dd, e')" by (metis prod_cases3)
  have e': "ok \<Longrightarrow> e' = []" using p by (auto simp: parse_sensor_frame_def split: if_splits)
  from n assms rf p e' that show thesis
    by (cases ok) (auto simp: can_read_def Let_def)
qed

interpretation can: device_interface can_ops can_invar
proof unfold_locales
  fix d d' :: can_device and r res
  assume "can_invar d" and "dev_read can_ops r d = Some (res, d')"
  then have inv: "can_invar d" and read: "can_read r d = Some (res, d')" by (simp_all add: can_ops_def)
  from read have "can_invar d' \<and> (r_code res = Timeout \<longrightarrow> r_error res = []) \<and> (r_data res \<noteq> None \<longleftrightarrow> r_code res = Data)
      \<and> ds_protocol (c_status d') = ds_protocol (c_status d)
      \<and> error_count (c_status d') = error_count (c_status d) + of_nat (read_error_count res)
      \<and> (r_code res = TransportError \<longrightarrow> \<not> ds_online (c_status d'))
      \<and> (r_code res = Data \<longrightarrow> ds_online (c_status d'))"
    by (cases rule: can_read_cases) (use inv in \<open>simp_all add: can_invar_def\<close>)
  then show "can_invar d'" "(r_data res \<noteq> None) = (r_code res = Data)"
    "ds_protocol (get_device_status can_ops d') = ds_protocol (get_device_status can_ops d)"
    "error_count (get_device_status can_ops d')
       = error_count (get_device_status can_ops d) + of_nat (read_error_count res)"
    "r_code res = TransportError \<Longrightarrow> \<not> ds_online (get_device_status can_ops d')"
    "r_code res = Timeout \<Longrightarrow> r_error res = [] \<or> ds_protocol (get_device_status can_ops d') = ModbusRtu"
    "r_code res = Data \<Longrightarrow> ds_online (get_device_status can_ops d)
       \<Longrightarrow> ds_online (get_device_status can_ops d')"
    by (simp_all add: can_ops_def)
qed (auto simp: can_ops_def can_invar_def dest: can_start_status)

lemma can_read_returns:
  assumes "\<not> set (ca_polls (cr_can input)) \<subseteq> {PollFailed EINTR}"
  shows "\<exists>res d'. can_read input d = Some (res, d')"
proof -
  obtain n frame e where rf: "read_frame (cr_can input) (c_socketcan d) can_frame_init = Some (n, frame, e)"
    using read_frame_returns [OF assms] by (metis prod_cases3)
  then show ?thesis
    by (auto simp: can_read_def Let_def split: prod.split bool.split)
qed

end
