(* ===== verification/DeviceManager.thy ===== *)
theory DeviceManager
  imports DeviceInterface
begin

text \<open>
  \<^verbatim>\<open>src/src/device/device_manager.{h,cpp}\<close>: one worker per device that starts it, reads it in a
  loop, passes readings and errors to two handlers and reconnects after transport errors; and
  the heartbeat view of all devices. The manager only uses the device interface, so its lemmas are
  proved in the locale \<open>device_interface\<close>. The two handlers become the list of events they are
  called with, in order.
\<close>

section \<open>The worker loop\<close>

datatype manager_event =
    DataEvent sensor_data ProtocolType
  | ErrorEvent ProtocolType ReadCode string protocol_error_stats

record ('s, 'r) worker_input =
  wi_running :: bool
  wi_start :: 's
  wi_read :: 'r

definition report_error :: "ProtocolType \<Rightarrow> device_read_result \<Rightarrow> bool" where
  "report_error protocol result \<longleftrightarrow>
     \<not> stats_empty (r_error_stats result) \<or> r_code result = ProtocolError
     \<or> r_code result = TransportError \<or> (r_code result = Timeout \<and> protocol = ModbusRtu)"

text \<open>The events of one read result, with both handlers set.\<close>

definition data_events :: "ProtocolType \<Rightarrow> device_read_result \<Rightarrow> manager_event list" where
  "data_events protocol result =
     (case r_data result of
        Some data \<Rightarrow> if r_code result = Data then [DataEvent data protocol] else []
      | None \<Rightarrow> [])"

definition error_events :: "ProtocolType \<Rightarrow> device_read_result \<Rightarrow> manager_event list" where
  "error_events protocol result =
     (if report_error protocol result
      then [ErrorEvent protocol (r_code result) (r_error result) (r_error_stats result)] else [])"

text \<open>
  One pass through the loop body while \<open>running_\<close> holds: the events, the flag \<open>started\<close> and the
  device. A failed start ends the pass with \<open>continue\<close> after the reconnect pause.
\<close>

definition worker_pass ::
  "('d, 's, 'r) device_ops \<Rightarrow> ('s, 'r) worker_input \<Rightarrow> bool \<Rightarrow> 'd
    \<Rightarrow> (manager_event list \<times> bool \<times> 'd) option" where
  "worker_pass ops input started d =
     (let (ok, error, d1) = (if started then (True, [], d) else dev_start ops (wi_start input) d) in
      if \<not> ok then
        Some ([ErrorEvent (ds_protocol (get_device_status ops d1)) TransportError error no_error_stats],
              False, d1)
      else (case dev_read ops (wi_read input) d1 of
        None \<Rightarrow> None
      | Some (result, d2) \<Rightarrow>
          let protocol = ds_protocol (get_device_status ops d2);
              events = data_events protocol result @ error_events protocol result
          in if r_code result = TransportError then Some (events, False, dev_stop ops d2)
             else Some (events, True, d2)))"

text \<open>
  The whole loop: the events, whether the worker has ended, and the device. The inputs give what
  \<open>running_.load()\<close> returns at each pass; a worker whose inputs are used up is still running.
\<close>

fun run_device ::
  "('d, 's, 'r) device_ops \<Rightarrow> ('s, 'r) worker_input list \<Rightarrow> bool \<Rightarrow> 'd \<Rightarrow> manager_event list \<times> bool \<times> 'd" where
  "run_device ops [] started d = ([], False, d)"
| "run_device ops (input # inputs) started d =
     (if wi_running input then
        (case worker_pass ops input started d of
           None \<Rightarrow> ([], False, d)
         | Some (events, started', d') \<Rightarrow>
             (case run_device ops inputs started' d' of
                (events', ended, d'') \<Rightarrow> (events @ events', ended, d'')))
      else ([], True, dev_stop ops d))"

section \<open>The manager\<close>

record 'd device_manager =
  heartbeat_timeout :: u64
  devices :: "'d list"
  workers :: "bool list"
  running :: bool
  started_at_unix_seconds :: u64

definition device_manager_new :: "u64 \<Rightarrow> 'd device_manager" where
  "device_manager_new timeout = \<lparr>heartbeat_timeout = timeout, devices = [], workers = [],
     running = False, started_at_unix_seconds = 0\<rparr>"

definition manager_add :: "'d \<Rightarrow> 'd device_manager \<Rightarrow> 'd device_manager" where
  "manager_add d m = (if running m then m else m\<lparr>devices := devices m @ [d]\<rparr>)"

text \<open>Starting creates one worker per device, each with its flag \<open>started\<close> still false.\<close>

definition manager_start :: "u64 \<Rightarrow> 'd device_manager \<Rightarrow> 'd device_manager" where
  "manager_start now m =
     (if running m then m
      else m\<lparr>running := True, started_at_unix_seconds := now,
             workers := workers m @ replicate (length (devices m)) False\<rparr>)"

text \<open>
  Stopping clears the flag, stops every device and joins the workers, each of which leaves its
  loop at the next check of the flag and stops its device once more.
\<close>

definition manager_stop :: "('d, 's, 'r) device_ops \<Rightarrow> 'd device_manager \<Rightarrow> 'd device_manager" where
  "manager_stop ops m =
     (if \<not> running m \<and> workers m = [] then m
      else let stopped = map (dev_stop ops) (devices m);
               joined = map (dev_stop ops) (take (length (workers m)) stopped)
                        @ drop (length (workers m)) stopped
           in m\<lparr>running := False, devices := joined, workers := []\<rparr>)"

definition effective_status :: "u64 \<Rightarrow> u64 \<Rightarrow> u64 \<Rightarrow> device_status \<Rightarrow> device_status" where
  "effective_status now started_at timeout status =
     (let heartbeat_reference = (if last_update_unix_seconds status \<noteq> 0
            then last_update_unix_seconds status else started_at) in
      if ds_online status \<and> heartbeat_reference \<noteq> 0 \<and> now > heartbeat_reference
         \<and> now - heartbeat_reference > timeout
      then status\<lparr>ds_online := False\<rparr> else status)"

definition statuses :: "('d, 's, 'r) device_ops \<Rightarrow> u64 \<Rightarrow> 'd device_manager \<Rightarrow> device_status list" where
  "statuses ops now m =
     map (\<lambda>d. effective_status now (started_at_unix_seconds m) (heartbeat_timeout m)
                (get_device_status ops d)) (devices m)"

definition online_count :: "('d, 's, 'r) device_ops \<Rightarrow> u64 \<Rightarrow> 'd device_manager \<Rightarrow> nat" where
  "online_count ops now m = length (filter ds_online (statuses ops now m))"

text \<open>Two calls of \<open>statuses\<close> at two times; the difference is taken on unsigned 64-bit values.\<close>

definition offline_count :: "('d, 's, 'r) device_ops \<Rightarrow> u64 \<Rightarrow> u64 \<Rightarrow> 'd device_manager \<Rightarrow> u64" where
  "offline_count ops now now' m =
     of_nat (length (statuses ops now m)) - of_nat (online_count ops now' m)"

text \<open>One worker takes one pass; the passes of different workers interleave in any order.\<close>

definition worker_turn ::
  "('d, 's, 'r) device_ops \<Rightarrow> nat \<Rightarrow> ('s, 'r) worker_input \<Rightarrow> 'd device_manager
    \<Rightarrow> (manager_event list \<times> 'd device_manager) option" where
  "worker_turn ops i input m =
     (if running m \<and> i < length (workers m) \<and> i < length (devices m) then
        map_option (\<lambda>(events, started, d). (events,
            m\<lparr>devices := (devices m)[i := d], workers := (workers m)[i := started]\<rparr>))
          (worker_pass ops input (workers m ! i) (devices m ! i))
      else None)"

section \<open>Lemmas for every device\<close>

text \<open>How many errors an event stands for in the count its device keeps.\<close>

fun event_errors :: "manager_event \<Rightarrow> nat" where
  "event_errors (DataEvent data protocol) = 0"
| "event_errors (ErrorEvent protocol code error stats) =
     read_error_count \<lparr>r_code = code, r_data = None, r_error = error, r_error_stats = stats\<rparr>"

fun event_data :: "manager_event \<Rightarrow> sensor_data list" where
  "event_data (DataEvent data protocol) = [data]"
| "event_data (ErrorEvent protocol code error stats) = []"

fun event_protocol :: "manager_event \<Rightarrow> ProtocolType" where
  "event_protocol (DataEvent data protocol) = protocol"
| "event_protocol (ErrorEvent protocol code error stats) = protocol"

lemma event_protocol_events [simp]:
  "list_all (\<lambda>e. event_protocol e = p) (data_events p result)"
  "list_all (\<lambda>e. event_protocol e = p) (error_events p result)"
  by (simp_all add: data_events_def error_events_def split: option.split)

lemma sum_event_errors:
  assumes "r_code result = Timeout \<longrightarrow> r_error result = [] \<or> protocol = ModbusRtu"
  shows "sum_list (map event_errors (data_events protocol result @ error_events protocol result))
    = read_error_count result"
  using assms
  by (auto simp: data_events_def error_events_def report_error_def read_error_count_def
      split: option.split ReadCode.splits)

text \<open>What a worker relies on between two passes: a device not started is offline.\<close>

definition worker_ok :: "('d, 's, 'r) device_ops \<Rightarrow> ('d \<Rightarrow> bool) \<Rightarrow> bool \<Rightarrow> 'd \<Rightarrow> bool" where
  "worker_ok ops invar started d \<longleftrightarrow>
     invar d \<and> (\<not> started \<longrightarrow> \<not> ds_online (get_device_status ops d))"

text \<open>What a worker has done to its device: the protocol stays, every counted error was reported.\<close>

definition reported :: "('d, 's, 'r) device_ops \<Rightarrow> 'd \<Rightarrow> manager_event list \<Rightarrow> 'd \<Rightarrow> bool" where
  "reported ops d events d' \<longleftrightarrow>
     ds_protocol (get_device_status ops d') = ds_protocol (get_device_status ops d)
     \<and> list_all (\<lambda>e. event_protocol e = ds_protocol (get_device_status ops d)) events
     \<and> error_count (get_device_status ops d')
         = error_count (get_device_status ops d) + of_nat (sum_list (map event_errors events))"

lemma reported_refl: "reported ops d [] d"
  by (simp add: reported_def)

lemma reported_trans:
  "reported ops d ev d' \<Longrightarrow> reported ops d' ev' d'' \<Longrightarrow> reported ops d (ev @ ev') d''"
  by (simp add: reported_def)

context device_interface
begin

lemma stop_reported: "reported ops d [] (dev_stop ops d)"
  by (simp add: reported_def)

lemma read_reported:
  assumes "invar d" and "dev_read ops r d = Some (result, d')"
  shows "reported ops d (data_events (ds_protocol (get_device_status ops d')) result
    @ error_events (ds_protocol (get_device_status ops d')) result) d'"
proof -
  let ?p = "ds_protocol (get_device_status ops d')"
  have "r_code result = Timeout \<longrightarrow> r_error result = [] \<or> ?p = ModbusRtu"
    using read_timeout [OF assms] by blast
  note sums = sum_event_errors [OF this]
  show ?thesis
    using read_protocol [OF assms] read_errors [OF assms] sums event_protocol_events [of ?p result]
    by (simp add: reported_def del: map_append)
qed

lemma worker_pass_ok:
  assumes "worker_ok ops invar started d"
    and "worker_pass ops input started d = Some (events, started', d')"
  shows "worker_ok ops invar started' d' \<and> reported ops d events d'"
proof -
  obtain ok error d1 where d1: "(if started then (True, [], d) else dev_start ops (wi_start input) d) = (ok, error, d1)"
    by (metis prod_cases3)
  have inv: "invar d" using assms(1) by (simp add: worker_ok_def)
  show ?thesis
  proof (cases ok)
    case False
    then have s: "\<not> started" "dev_start ops (wi_start input) d = (False, error, d1)"
      using d1 by (auto split: if_splits)
    have "events = [ErrorEvent (ds_protocol (get_device_status ops d1)) TransportError error no_error_stats]"
        "started' = False" "d' = d1"
      using assms(2) False d1 by (auto simp: worker_pass_def)
    then show ?thesis
      using s assms(1) start_failed [OF inv s(2)] invar_start [OF inv s(2)]
      by (simp add: worker_ok_def reported_def read_error_count_def)
  next
    case True
    have d1_ok: "invar d1" "reported ops d [] d1"
      using d1 True inv start_ok [OF inv] invar_start [OF inv]
      by (auto simp: reported_def split: if_splits)
    obtain result d2 where r: "dev_read ops (wi_read input) d1 = Some (result, d2)"
      using assms(2) True d1 by (auto simp: worker_pass_def split: option.splits)
    note read = read_reported [OF d1_ok(1) r] invar_read [OF d1_ok(1) r]
    have "reported ops d events d2" and "started' = (r_code result \<noteq> TransportError)"
        and "d' = (if r_code result = TransportError then dev_stop ops d2 else d2)"
      using assms(2) True d1 r read(1) reported_trans [OF d1_ok(2) read(1)]
      by (auto simp: worker_pass_def Let_def split: if_splits)
    then show ?thesis
      using read(2) invar_stop [OF read(2)] stop_reported [of d2] reported_trans [of ops d events d2 "[]"]
      by (simp add: worker_ok_def)
  qed
qed

lemma run_device_ok:
  assumes "worker_ok ops invar started d" and "run_device ops inputs started d = (events, ended, d')"
  shows "invar d' \<and> reported ops d events d' \<and> (ended \<longrightarrow> \<not> ds_online (get_device_status ops d'))"
  using assms
proof (induction inputs arbitrary: started d events)
  case Nil
  then show ?case by (simp add: worker_ok_def reported_refl)
next
  case (Cons input inputs)
  show ?case
  proof (cases "wi_running input")
    case False
    with Cons.prems show ?thesis
      by (auto simp: worker_ok_def stop_reported invar_stop)
  next
    case True
    show ?thesis
    proof (cases "worker_pass ops input started d")
      case None
      with True Cons.prems show ?thesis by (auto simp: worker_ok_def reported_refl)
    next
      case (Some r)
      obtain ev1 started1 d1 where r: "r = (ev1, started1, d1)" by (metis prod_cases3)
      note pass = worker_pass_ok [OF Cons.prems(1) Some [unfolded r]]
      obtain ev2 where "run_device ops inputs started1 d1 = (ev2, ended, d')" "events = ev1 @ ev2"
        using Cons.prems(2) True Some r by (auto split: prod.splits)
      with pass Cons.IH [of started1 d1 ev2] reported_trans [of ops d ev1 d1 ev2 d'] show ?thesis
        by simp
    qed
  qed
qed

end

section \<open>Interleaved workers\<close>

text \<open>
  The states a manager can get into, with the events so far: devices are added, the manager is
  started and stopped any number of times, and while it runs the workers take their passes in
  any order. New devices satisfy \<open>fresh\<close>.
\<close>

inductive manager_reach ::
  "('d, 's, 'r) device_ops \<Rightarrow> ('d \<Rightarrow> bool) \<Rightarrow> 'd device_manager \<Rightarrow> manager_event list \<Rightarrow> bool"
  for ops :: "('d, 's, 'r) device_ops" and fresh :: "'d \<Rightarrow> bool" where
  reach_new: "manager_reach ops fresh (device_manager_new timeout) []"
| reach_add: "manager_reach ops fresh m ev \<Longrightarrow> fresh d \<Longrightarrow> manager_reach ops fresh (manager_add d m) ev"
| reach_start: "manager_reach ops fresh m ev \<Longrightarrow> manager_reach ops fresh (manager_start now m) ev"
| reach_turn: "manager_reach ops fresh m ev \<Longrightarrow> worker_turn ops i input m = Some (ev', m')
    \<Longrightarrow> manager_reach ops fresh m' (ev @ ev')"
| reach_stop: "manager_reach ops fresh m ev \<Longrightarrow> manager_reach ops fresh (manager_stop ops m) ev"

inductive_cases manager_reach_cases: "manager_reach ops fresh m ev"

definition fresh_device :: "('d, 's, 'r) device_ops \<Rightarrow> ('d \<Rightarrow> bool) \<Rightarrow> 'd \<Rightarrow> bool" where
  "fresh_device ops invar d \<longleftrightarrow> invar d \<and> \<not> ds_online (get_device_status ops d)
     \<and> error_count (get_device_status ops d) = 0"

definition total_errors :: "('d, 's, 'r) device_ops \<Rightarrow> 'd list \<Rightarrow> u64" where
  "total_errors ops ds = sum_list (map (\<lambda>d. error_count (get_device_status ops d)) ds)"

definition manager_ok ::
  "('d, 's, 'r) device_ops \<Rightarrow> ('d \<Rightarrow> bool) \<Rightarrow> 'd device_manager \<Rightarrow> manager_event list \<Rightarrow> bool" where
  "manager_ok ops invar m ev \<longleftrightarrow>
     (if running m then list_all2 (worker_ok ops invar) (workers m) (devices m)
      else workers m = [] \<and> list_all (worker_ok ops invar False) (devices m))
     \<and> total_errors ops (devices m) = of_nat (sum_list (map event_errors ev))"

lemma total_errors_update:
  assumes "i < length ds"
    and "error_count (get_device_status ops d) = error_count (get_device_status ops (ds ! i)) + n"
  shows "total_errors ops (ds[i := d]) = total_errors ops ds + n"
  using assms
proof (induction ds arbitrary: i)
  case (Cons x ds)
  then show ?case by (cases i) (simp_all add: total_errors_def)
qed simp

lemma list_all_map_take:
  "\<forall>x\<in>set xs. P x \<and> P (f x) \<Longrightarrow> list_all P (map f (take n xs) @ drop n xs)"
  by (auto simp: list_all_iff dest: in_set_takeD in_set_dropD)

context device_interface
begin

lemma total_errors_stop [simp]:
  "total_errors ops (map (dev_stop ops) ds) = total_errors ops ds"
  by (simp add: total_errors_def comp_def)

lemma total_errors_stop_some:
  "total_errors ops (map (dev_stop ops) (take n ds) @ drop n ds) = total_errors ops ds"
proof -
  have "total_errors ops ds = total_errors ops (take n ds @ drop n ds)" by simp
  then show ?thesis by (simp add: total_errors_def comp_def del: append_take_drop_id)
qed

lemma worker_ok_stop: "invar d \<Longrightarrow> worker_ok ops invar False (dev_stop ops d)"
  by (simp add: worker_ok_def invar_stop)

lemma manager_ok_turn:
  assumes "manager_ok ops invar m ev" and "worker_turn ops i input m = Some (ev', m')"
  shows "manager_ok ops invar m' (ev @ ev')"
proof -
  obtain started d where run: "running m" "i < length (workers m)" "i < length (devices m)"
      and pass: "worker_pass ops input (workers m ! i) (devices m ! i) = Some (ev', started, d)"
      and m': "m' = m\<lparr>devices := (devices m)[i := d], workers := (workers m)[i := started]\<rparr>"
    using assms(2) by (auto simp: worker_turn_def split: if_splits)
  have all: "list_all2 (worker_ok ops invar) (workers m) (devices m)"
    using assms(1) run(1) by (simp add: manager_ok_def)
  then have "worker_ok ops invar (workers m ! i) (devices m ! i)"
    using run by (simp add: list_all2_conv_all_nth)
  from worker_pass_ok [OF this pass] have ok: "worker_ok ops invar started d"
      and rep: "reported ops (devices m ! i) ev' d" by simp_all
  have "total_errors ops (devices m') = total_errors ops (devices m) + of_nat (sum_list (map event_errors ev'))"
    using total_errors_update [OF run(3), of ops d "of_nat (sum_list (map event_errors ev'))"] rep
    by (simp add: m' reported_def)
  moreover have "list_all2 (worker_ok ops invar) (workers m') (devices m')"
    using all ok by (simp add: m' list_all2_update_cong)
  ultimately show ?thesis
    using assms(1) run(1) by (simp add: manager_ok_def m')
qed

lemma manager_ok_stop:
  assumes "manager_ok ops invar m ev"
  shows "manager_ok ops invar (manager_stop ops m) ev"
proof (cases "running m")
  case True
  then have "list_all invar (devices m)"
    using assms by (auto simp: manager_ok_def list_all2_conv_all_nth list_all_length worker_ok_def)
  then have "\<forall>d\<in>set (map (dev_stop ops) (devices m)). worker_ok ops invar False d
      \<and> worker_ok ops invar False (dev_stop ops d)"
    by (auto simp: list_all_iff worker_ok_stop invar_stop)
  then have "list_all (worker_ok ops invar False) (map (dev_stop ops) (take n (map (dev_stop ops) (devices m)))
      @ drop n (map (dev_stop ops) (devices m)))" for n
    by (rule list_all_map_take)
  then show ?thesis
    using assms True total_errors_stop_some [of "length (workers m)" "map (dev_stop ops) (devices m)"]
    by (simp add: manager_ok_def manager_stop_def Let_def)
next
  case False
  then show ?thesis using assms by (simp add: manager_ok_def manager_stop_def)
qed

lemma manager_reach_ok:
  "manager_reach ops (fresh_device ops invar) m ev \<Longrightarrow> manager_ok ops invar m ev"
proof (induction rule: manager_reach.induct)
  case (reach_new timeout)
  then show ?case by (simp add: manager_ok_def device_manager_new_def total_errors_def)
next
  case (reach_add m ev d)
  then show ?case
    by (simp add: manager_ok_def manager_add_def fresh_device_def total_errors_def worker_ok_def)
next
  case (reach_start m ev now)
  then show ?case
    by (auto simp: manager_ok_def manager_start_def list_all2_conv_all_nth list_all_length)
next
  case (reach_turn m ev i input ev' m')
  then show ?case by (blast intro: manager_ok_turn)
next
  case (reach_stop m ev)
  then show ?case by (simp add: manager_ok_stop)
qed

end

text \<open>Which errors reach the error handler: every one has a reason, or is a Modbus timeout.\<close>

fun event_reportable :: "manager_event \<Rightarrow> bool" where
  "event_reportable (DataEvent data protocol) = True"
| "event_reportable (ErrorEvent protocol code error stats) =
     (\<not> stats_empty stats \<or> code = ProtocolError \<or> code = TransportError \<or> (code = Timeout \<and> protocol = ModbusRtu))"

lemma worker_pass_reportable:
  assumes "worker_pass ops input started d = Some (ev, started', d')"
  shows "list_all event_reportable ev"
proof -
  have "list_all event_reportable (data_events p res @ error_events p res)" for p res
    by (auto simp: data_events_def error_events_def report_error_def split: option.split)
  then show ?thesis
    using assms by (auto simp: worker_pass_def Let_def split: prod.splits if_splits option.splits)
qed

lemma manager_reach_reportable:
  "manager_reach ops fresh m ev \<Longrightarrow> list_all event_reportable ev"
proof (induction rule: manager_reach.induct)
  case (reach_turn m ev i input ev' m')
  then show ?case
    by (auto simp: worker_turn_def split: if_splits dest: worker_pass_reportable)
qed simp_all

section \<open>Readings\<close>

text \<open>
  A second contract of a device: what all readings it hands out have in common. \<open>source d\<close> says
  that the readings a device still holds are good, \<open>good\<close> is the property of a single reading.
\<close>

locale device_readings =
  fixes ops :: "('d, 's, 'r) device_ops" and source :: "'d \<Rightarrow> bool" and good :: "sensor_data \<Rightarrow> bool"
  assumes source_start: "source d \<Longrightarrow> dev_start ops s d = (ok, e, d') \<Longrightarrow> source d'"
    and source_stop: "source d \<Longrightarrow> source (dev_stop ops d)"
    and source_read: "source d \<Longrightarrow> dev_read ops r d = Some (res, d') \<Longrightarrow> source d'"
    and good_read: "source d \<Longrightarrow> dev_read ops r d = Some (res, d') \<Longrightarrow> r_data res = Some data \<Longrightarrow> good data"
begin

lemma worker_pass_good:
  assumes "source d" and "worker_pass ops input started d = Some (ev, started', d')"
  shows "source d' \<and> list_all good (concat (map event_data ev))"
proof -
  obtain ok error d1 where st: "(if started then (True, [], d) else dev_start ops (wi_start input) d) = (ok, error, d1)"
    by (metis prod_cases3)
  have src: "source d1" using st assms(1) source_start by (auto split: if_splits)
  show ?thesis
  proof (cases ok)
    case False
    with assms(2) st src show ?thesis by (auto simp: worker_pass_def)
  next
    case True
    then obtain res d2 where rd: "dev_read ops (wi_read input) d1 = Some (res, d2)"
      using assms(2) st by (auto simp: worker_pass_def Let_def split: option.splits)
    note read = source_read [OF src rd] good_read [OF src rd]
    with assms(2) st True rd source_stop show ?thesis
      by (auto simp: worker_pass_def Let_def data_events_def error_events_def split: option.splits if_splits)
  qed
qed

lemma manager_reach_good:
  assumes "manager_reach ops source m ev"
  shows "list_all source (devices m) \<and> list_all good (concat (map event_data ev))"
  using assms
proof (induction rule: manager_reach.induct)
  case (reach_turn m ev i input ev' m')
  obtain started d where pass: "i < length (devices m)" "m' = m\<lparr>devices := (devices m)[i := d], workers := (workers m)[i := started]\<rparr>"
      "worker_pass ops input (workers m ! i) (devices m ! i) = Some (ev', started, d)"
    using reach_turn.hyps(2) by (auto simp: worker_turn_def split: if_splits)
  have new: "source d" "list_all good (concat (map event_data ev'))"
    using worker_pass_good [OF _ pass(3)] reach_turn.IH pass(1) by (simp_all add: list_all_length)
  then have "list_all source ((devices m)[i := d])"
    using reach_turn.IH set_update_subset_insert [of "devices m" i d] by (auto simp: list_all_iff)
  with reach_turn.IH new pass(2) show ?case by simp
next
  case (reach_stop m ev)
  then have "\<forall>d\<in>set (map (dev_stop ops) (devices m)). source d \<and> source (dev_stop ops d)"
    by (auto simp: list_all_iff source_stop)
  then have "list_all source (map (dev_stop ops) (take n (map (dev_stop ops) (devices m)))
      @ drop n (map (dev_stop ops) (devices m)))" for n
    by (rule list_all_map_take)
  with reach_stop.IH show ?case by (simp add: manager_stop_def Let_def)
qed (auto simp: device_manager_new_def manager_add_def manager_start_def)

end

section \<open>Heartbeat\<close>

lemma effective_status_online:
  "ds_online (effective_status now started_at timeout s) \<longleftrightarrow> ds_online s \<and>
     (let ref = (if last_update_unix_seconds s \<noteq> 0 then last_update_unix_seconds s else started_at)
      in ref = 0 \<or> unat now \<le> unat ref + unat timeout)"
proof -
  have "(ref < now \<and> timeout < now - ref) \<longleftrightarrow> unat ref + unat timeout < unat now" for ref :: u64
    by (auto simp: word_less_nat_alt unat_sub_if')
  then show ?thesis by (auto simp: effective_status_def Let_def not_less)
qed

lemma effective_status_frame [simp]:
  "ds_protocol (effective_status now st t s) = ds_protocol s"
  "ds_device_id (effective_status now st t s) = ds_device_id s"
  "error_count (effective_status now st t s) = error_count s"
  "last_update_unix_seconds (effective_status now st t s) = last_update_unix_seconds s"
  by (simp_all add: effective_status_def Let_def)

text \<open>
  The heartbeat view. A device counts as online exactly when it reports itself online and
  its last reading (before the first one: the start of the manager) is at most the timeout old;
  no wrap-around of the unsigned seconds can make a silent device look alive or a device from
  "the future" look dead. All other fields are passed on, and the two counts never underflow.
\<close>

theorem heartbeat_view:
  "length (statuses ops now m) = length (devices m)
   \<and> offline_count ops now now' m = of_nat (length (devices m) - online_count ops now' m)
   \<and> online_count ops now' m \<le> length (devices m)
   \<and> list_all2 (\<lambda>s d. ds_protocol s = ds_protocol (get_device_status ops d)
        \<and> error_count s = error_count (get_device_status ops d)
        \<and> (ds_online s \<longleftrightarrow> ds_online (get_device_status ops d) \<and>
            (let last = last_update_unix_seconds (get_device_status ops d);
                 ref = (if last \<noteq> 0 then last else started_at_unix_seconds m)
             in ref = 0 \<or> unat now \<le> unat ref + unat (heartbeat_timeout m))))
       (statuses ops now m) (devices m)"
proof -
  have "online_count ops now' m \<le> length (devices m)"
    unfolding online_count_def statuses_def by (metis length_filter_le length_map)
  then show ?thesis
    by (simp add: statuses_def offline_count_def list_all2_conv_all_nth effective_status_online Let_def)
qed

end
