(* ===== verification/Devices.thy ===== *)
theory Devices
  imports UartDevice ModbusDevice CanDevice DeviceManager
begin

text \<open>
  The three device classes behind the one interface the manager uses: virtual dispatch as a sum
  type, the interface laws for it, and the properties of the manager over the gateway's devices.
\<close>

section \<open>Virtual dispatch\<close>

datatype any_device = UartDev uart_device | ModbusDev modbus_device | CanDev can_device

record any_start_input =
  as_uart :: serial_open_answers
  as_modbus :: modbus_start_input
  as_can :: can_open_answers

record any_read_input =
  ar_uart :: uart_read_input
  ar_modbus :: modbus_read_input
  ar_can :: can_read_input

fun any_start :: "any_start_input \<Rightarrow> any_device \<Rightarrow> bool \<times> string \<times> any_device" where
  "any_start input (UartDev d) = (case uart_start (as_uart input) d of (ok, e, d') \<Rightarrow> (ok, e, UartDev d'))"
| "any_start input (ModbusDev d) = (case modbus_start (as_modbus input) d of (ok, e, d') \<Rightarrow> (ok, e, ModbusDev d'))"
| "any_start input (CanDev d) = (case can_start (as_can input) d of (ok, e, d') \<Rightarrow> (ok, e, CanDev d'))"

fun any_stop :: "any_device \<Rightarrow> any_device" where
  "any_stop (UartDev d) = UartDev (uart_stop d)"
| "any_stop (ModbusDev d) = ModbusDev (modbus_stop d)"
| "any_stop (CanDev d) = CanDev (can_stop d)"

fun any_read :: "any_read_input \<Rightarrow> any_device \<Rightarrow> (device_read_result \<times> any_device) option" where
  "any_read input (UartDev d) = map_option (map_prod id UartDev) (uart_read (ar_uart input) d)"
| "any_read input (ModbusDev d) = map_option (map_prod id ModbusDev) (modbus_read (ar_modbus input) d)"
| "any_read input (CanDev d) = map_option (map_prod id CanDev) (can_read (ar_can input) d)"

fun any_status :: "any_device \<Rightarrow> device_status" where
  "any_status (UartDev d) = u_status d"
| "any_status (ModbusDev d) = m_status d"
| "any_status (CanDev d) = c_status d"

definition any_ops :: "(any_device, any_start_input, any_read_input) device_ops" where
  "any_ops = \<lparr>dev_start = any_start, dev_stop = any_stop, dev_read = any_read, get_device_status = any_status\<rparr>"

fun any_invar :: "any_device \<Rightarrow> bool" where
  "any_invar (UartDev d) = uart_invar d"
| "any_invar (ModbusDev d) = modbus_invar d"
| "any_invar (CanDev d) = can_invar d"

lemma any_ops_simps [simp]:
  "dev_start any_ops = any_start" "dev_stop any_ops = any_stop" "dev_read any_ops = any_read"
  "get_device_status any_ops = any_status"
  by (simp_all add: any_ops_def)

lemma ops_simps [simp]:
  "dev_start uart_ops = uart_start" "dev_stop uart_ops = uart_stop" "dev_read uart_ops = uart_read"
  "get_device_status uart_ops = u_status"
  "dev_start modbus_ops = modbus_start" "dev_stop modbus_ops = modbus_stop" "dev_read modbus_ops = modbus_read"
  "get_device_status modbus_ops = m_status"
  "dev_start can_ops = can_start" "dev_stop can_ops = can_stop" "dev_read can_ops = can_read"
  "get_device_status can_ops = c_status"
  by (simp_all add: uart_ops_def modbus_ops_def can_ops_def)

lemma any_read_lawful:
  assumes "any_invar d" and "any_read r d = Some (res, d')"
  shows "any_invar d' \<and> read_law (any_status d) res (any_status d')"
  using assms uart.read_lawful modbus.read_lawful can.read_lawful by (cases d) auto

lemma any_start_lawful:
  assumes "any_invar d" and "any_start s d = (ok, e, d')"
  shows "any_invar d' \<and> start_law (any_status d) ok (any_status d')"
  using assms uart.start_lawful modbus.start_lawful can.start_lawful
  by (cases d) (auto split: prod.splits)

lemma any_stop_lawful:
  "any_status (any_stop d) = (any_status d)\<lparr>ds_online := False\<rparr>" "any_invar d \<Longrightarrow> any_invar (any_stop d)"
  using uart.invar_stop modbus.invar_stop can.invar_stop by (cases d; auto)+

interpretation any: device_interface any_ops any_invar
proof unfold_locales
  fix d d' :: any_device and r res
  assume "any_invar d" and "dev_read any_ops r d = Some (res, d')"
  then have "any_invar d' \<and> read_law (any_status d) res (any_status d')"
    using any_read_lawful [of d r res d'] by simp
  then show "any_invar d'" "(r_data res \<noteq> None) = (r_code res = Data)"
    "ds_protocol (get_device_status any_ops d') = ds_protocol (get_device_status any_ops d)"
    "error_count (get_device_status any_ops d')
       = error_count (get_device_status any_ops d) + of_nat (read_error_count res)"
    "r_code res = TransportError \<Longrightarrow> \<not> ds_online (get_device_status any_ops d')"
    "r_code res = Data \<Longrightarrow> ds_online (get_device_status any_ops d)
       \<Longrightarrow> ds_online (get_device_status any_ops d')"
    "r_code res = Timeout \<Longrightarrow> r_error res = [] \<or> ds_protocol (get_device_status any_ops d') = ModbusRtu"
    by (auto simp: read_law_def)
next
  fix d d' :: any_device and s ok e
  assume "any_invar d" and "dev_start any_ops s d = (ok, e, d')"
  then show "any_invar d'" using any_start_lawful [of d s ok e d'] by simp
qed (auto simp: any_stop_lawful start_law_def dest: any_start_lawful)

section \<open>The manager over the gateway's devices\<close>

definition new_device :: "any_device \<Rightarrow> bool" where
  "new_device d \<longleftrightarrow> (\<exists>path baud. d = UartDev (uart_new path baud))
     \<or> (\<exists>options. d = ModbusDev (modbus_new options)) \<or> (\<exists>name. d = CanDev (can_new name))"

lemma new_device_fresh: "new_device d \<Longrightarrow> fresh_device any_ops any_invar d"
  by (auto simp: new_device_def fresh_device_def uart_invar_def uart_new_def parser_invar_init
      modbus_invar_def modbus_new_def can_invar_def can_new_def device_status_init_def)

lemma manager_reach_mono:
  assumes "manager_reach ops P m ev" and "\<And>d. P d \<Longrightarrow> Q d"
  shows "manager_reach ops Q m ev"
  using assms(1) by induction (auto intro: manager_reach.intros assms(2))

lemma gateway_manager_ok: "manager_reach any_ops new_device m ev \<Longrightarrow> manager_ok any_ops any_invar m ev"
  using any.manager_reach_ok manager_reach_mono new_device_fresh by blast

section \<open>Checked readings\<close>

text \<open>
  Every reading a device hands out is a checked one: some measured values with the verdict of the
  range checks on exactly these values.
\<close>

definition checked_reading :: "sensor_data \<Rightarrow> bool" where
  "checked_reading data \<longleftrightarrow> (\<exists>dev cmd t h gas battery status seq.
     data = reading dev cmd t h gas battery status seq \<and> \<bar>t\<bar> < 131072 \<and> \<bar>h\<bar> < 131072)"

fun holds_checked :: "any_device \<Rightarrow> bool" where
  "holds_checked (UartDev d) = list_all checked_reading (u_pending d)"
| "holds_checked (ModbusDev d) = True"
| "holds_checked (CanDev d) = True"

lemma checked_readingI: "\<bar>t\<bar> < 131072 \<Longrightarrow> \<bar>h\<bar> < 131072 \<Longrightarrow> checked_reading (reading dev cmd t h gas battery status seq)"
  unfolding checked_reading_def by blast

lemma checked_to_sensor_data:
  assumes "\<bar>t\<bar> < 131072" "\<bar>h\<bar> < 131072"
    and "dd_temperature_c x = double_div10 t" "dd_humidity_percent x = double_div10 h"
  shows "checked_reading (to_sensor_data x)"
  unfolding to_sensor_data_reading [OF assms] using assms(1,2) by (rule checked_readingI)

lemma checked_valid_readings: "list_all checked_reading (valid_readings frames)"
proof -
  have "checked_reading (snd (parse_sensor_data f))" if ok: "fst (parse_sensor_data f)" for f
  proof -
    have "length (f_payload f) = kSensorPayloadSize"
      using ok by (simp add: parse_sensor_data_def Let_def split: if_splits)
    then obtain t h gas battery status seq where "f_payload f = sensor_payload t h gas battery status seq"
      using sensor_payload_ex by blast
    then show ?thesis
      by (simp add: parse_sensor_data_correct_payload checked_readingI sint_u16_bound uint_u16_bound)
  qed
  then show ?thesis by (auto simp: valid_readings_def list_all_iff)
qed

lemma uart_read_checked:
  assumes "list_all checked_reading (u_pending d)" and "uart_read r d = Some (res, d')"
  shows "list_all checked_reading (delivered res @ u_pending d')"
proof (cases "u_pending d")
  case (Cons x rest)
  with assms show ?thesis by (auto simp: uart_read_def)
next
  case Nil
  obtain n bytes e where rs: "read_some (ur_serial r) 256 = Some (n, bytes, e)"
    using assms(2) Nil by (auto simp: uart_read_def split: option.splits)
  show ?thesis
  proof (cases "n \<le> 0")
    case True
    with assms Nil rs show ?thesis by (auto simp: uart_read_def split: if_splits)
  next
    case False
    then obtain p frames where "uart_decode (ur_unix_seconds r) frames (d\<lparr>u_parser := p\<rparr>) = (res, d')"
      using assms(2) Nil rs by (auto simp: uart_read_def split: option.splits)
    from uart_decode_effect(1) [OF this] Nil checked_valid_readings show ?thesis by (simp add: delivered_def)
  qed
qed

lemma modbus_read_checked:
  assumes "modbus_read r d = Some (res, d')" and "r_data res = Some data"
  shows "checked_reading data"
proof -
  have finish: "checked_reading data" if "modbus_finish now response d = (res, d')" for now response d
  proof -
    let ?parsed = "parse_read_response response (mo_request (m_options d))"
    obtain ok dd e where conv: "registers_to_device_data ?parsed (slave_id (mo_request (m_options d))) device_data_init
        = (ok, dd, e)" by (metis prod_cases3)
    have ok: "ok" and data: "data = to_sensor_data dd"
      using that assms(2) conv by (auto simp: modbus_finish_def Let_def split: if_splits bool.splits)
    from conv ok have "dd_temperature_c dd = double_div10 (sint (registers ?parsed ! 0))"
        "dd_humidity_percent dd = double_div10 (uint (registers ?parsed ! 1))"
      by (auto simp: registers_to_device_data_def device_data_init_def split: if_splits)
    then show ?thesis
      unfolding data by (rule checked_to_sensor_data [rotated 2]) (simp_all add: sint_u16_bound uint_u16_bound)
  qed
  from assms show ?thesis
    by (cases rule: modbus_read_cases) (auto dest: finish simp: modbus_lost_def)
qed

lemma can_read_checked:
  assumes "can_read r d = Some (res, d')" and "r_data res = Some data"
  shows "checked_reading data"
proof -
  have parse: "checked_reading (to_sensor_data dd)" if "parse_sensor_frame frame out = (True, dd, e)" for frame dd e out
  proof -
    from that have "dd_temperature_c dd = double_div10 (sint (can_read_u16_be (can_data frame) 0))"
        "dd_humidity_percent dd = double_div10 (uint (can_read_u16_be (can_data frame) 2))"
      by (auto simp: parse_sensor_frame_def device_data_init_def Let_def split: if_splits)
    then show ?thesis
      by (rule checked_to_sensor_data [rotated 2]) (simp_all add: sint_u16_bound uint_u16_bound)
  qed
  from assms show ?thesis
    by (auto simp: can_read_def Let_def split: option.splits if_splits prod.splits bool.splits dest: parse)
qed

interpretation checked: device_readings any_ops holds_checked checked_reading
proof unfold_locales
  fix d d' :: any_device and r res
  assume "holds_checked d" "dev_read any_ops r d = Some (res, d')"
  then show "holds_checked d'" by (cases d) (auto dest: uart_read_checked)
next
  fix d d' :: any_device and r res data
  assume "holds_checked d" "dev_read any_ops r d = Some (res, d')" "r_data res = Some data"
  then show "checked_reading data"
    by (cases d) (auto dest: uart_read_checked modbus_read_checked can_read_checked simp: delivered_def)
next
  fix d d' :: any_device and s ok e
  assume "holds_checked d" "dev_start any_ops s d = (ok, e, d')"
  then show "holds_checked d'"
    by (cases d) (auto simp: uart_start_def uart_record_errors_def split: prod.splits bool.splits)
next
  fix d :: any_device
  assume "holds_checked d"
  then show "holds_checked (dev_stop any_ops d)" by (cases d) (auto simp: uart_stop_def)
qed

lemma manager_readings_checked:
  assumes "manager_reach any_ops new_device m ev"
  shows "list_all checked_reading (concat (map event_data ev))"
proof -
  have "new_device d \<Longrightarrow> holds_checked d" for d
    by (auto simp: new_device_def uart_new_def)
  from checked.manager_reach_good [OF manager_reach_mono [OF assms this]] show ?thesis by simp
qed

text \<open>
  C7: the device manager with serial, Modbus and CAN devices, in every interleaving of its workers
  and over any number of starts and stops. While it runs there is exactly one worker per device; when
  it does not run there is no worker left and every device is offline. The errors counted in the
  statuses of all devices are exactly the errors passed to the error handler: no error is lost
  between a device and the handler, and none is reported twice.
\<close>

theorem manager_reports_every_error:
  assumes "manager_reach any_ops new_device m ev"
  shows "total_errors any_ops (devices m) = of_nat (sum_list (map event_errors ev))
    \<and> length (workers m) = (if running m then length (devices m) else 0)
    \<and> (if running m then list_all any_invar (devices m)
       else list_all (\<lambda>d. any_invar d \<and> \<not> ds_online (any_status d)) (devices m))"
  using gateway_manager_ok [OF assms]
  by (auto simp: manager_ok_def worker_ok_def list_all2_conv_all_nth list_all_length)

lemma manager_reach_example:
  "manager_reach any_ops new_device
     (manager_start 1700000000 (manager_add (CanDev (can_new ''can0'')) (device_manager_new 10))) []"
  by (intro manager_reach.intros) (auto simp: new_device_def)

theorem manager_reports_every_error_witness:
  "total_errors any_ops (devices (manager_start 1700000000
       (manager_add (CanDev (can_new ''can0'')) (device_manager_new 10)))) = of_nat (sum_list (map event_errors []))
   \<and> length (workers (manager_start 1700000000
       (manager_add (CanDev (can_new ''can0'')) (device_manager_new 10)))) = 1"
  using manager_reports_every_error [OF manager_reach_example]
  by (simp add: manager_start_def manager_add_def device_manager_new_def)

text \<open>
  A worker. From a device that is offline until its start succeeds, whatever the system
  calls answer, the loop keeps the device well-formed, labels every event with the protocol of
  the device, passes on exactly the errors the device counts, and leaves the device
  offline when it ends. After a transport error or a failed start the next pass begins with a
  start, so the worker reconnects.
\<close>

theorem worker_loop_correct:
  assumes "any_invar d" and "\<not> ds_online (any_status d)"
    and "run_device any_ops inputs False d = (events, ended, d')"
  shows "any_invar d'
    \<and> list_all (\<lambda>e. event_protocol e = ds_protocol (any_status d)) events
    \<and> error_count (any_status d') = error_count (any_status d) + of_nat (sum_list (map event_errors events))
    \<and> (ended \<longrightarrow> \<not> ds_online (any_status d'))"
  using any.run_device_ok [of False d inputs events ended d'] assms
  by (simp add: worker_ok_def reported_def)

theorem worker_loop_correct_witness:
  "\<not> ds_online (any_status (snd (snd (run_device any_ops
      [\<lparr>wi_running = False, wi_start = undefined, wi_read = undefined\<rparr>] False (CanDev (can_new ''can0''))))))"
  using worker_loop_correct [of "CanDev (can_new ''can0'')"
      "[\<lparr>wi_running = False, wi_start = undefined, wi_read = undefined\<rparr>]" "[]" True
      "CanDev (can_stop (can_new ''can0''))"]
  by (simp add: can_invar_def can_new_def device_status_init_def)

text \<open>
  Between two polls a Modbus device has nothing to report, but the manager passes the empty
  timeout of such a read call to the error handler, as a timeout without a reason.
\<close>

lemma modbus_idle_reported_as_error:
  assumes "mr_now (ar_modbus (wi_read input)) < m_next_poll d" and "modbus_invar d"
  shows "worker_pass any_ops input True (ModbusDev d)
    = Some ([ErrorEvent ModbusRtu Timeout [] no_error_stats], True, ModbusDev d)"
  using assms
  by (simp add: worker_pass_def modbus_read_def data_events_def error_events_def report_error_def
      modbus_invar_def)

end
