(* ===== verification/Metrics.thy ===== *)
theory Metrics
  imports Prelude
begin

text \<open>
  \<^verbatim>\<open>src/src/app/runtime_metrics.{h,cpp}\<close>: the counters of the process with their Prometheus text. The counters are 64-bit words and wrap; atomics are plain fields because each
  operation is a single read or update.
\<close>

section \<open>Counters\<close>

record runtime_metrics =
  mt_started_at_seconds :: u64
  mt_serial_worker_count :: u64
  mt_frames_parsed_total :: u64
  mt_frames_invalid_total :: u64
  mt_crc_errors_total :: u64
  mt_length_errors_total :: u64
  mt_mqtt_publish_success_total :: u64
  mt_mqtt_publish_failed_total :: u64
  mt_tcp_publish_success_total :: u64
  mt_tcp_publish_failed_total :: u64
  mt_cache_depth :: u64
  mt_cache_enqueue_total :: u64
  mt_cache_flush_attempt_total :: u64
  mt_device_online_total :: u64
  mt_device_offline_total :: u64
  mt_protocol_error_total :: u64
  mt_modbus_error_total :: u64
  mt_can_error_total :: u64

definition runtime_metrics_new :: "u64 \<Rightarrow> runtime_metrics" where
  "runtime_metrics_new now = \<lparr>mt_started_at_seconds = now, mt_serial_worker_count = 0,
     mt_frames_parsed_total = 0, mt_frames_invalid_total = 0, mt_crc_errors_total = 0,
     mt_length_errors_total = 0, mt_mqtt_publish_success_total = 0, mt_mqtt_publish_failed_total = 0,
     mt_tcp_publish_success_total = 0, mt_tcp_publish_failed_total = 0, mt_cache_depth = 0,
     mt_cache_enqueue_total = 0, mt_cache_flush_attempt_total = 0, mt_device_online_total = 0,
     mt_device_offline_total = 0, mt_protocol_error_total = 0, mt_modbus_error_total = 0,
     mt_can_error_total = 0\<rparr>"

definition uptime_seconds :: "u64 \<Rightarrow> runtime_metrics \<Rightarrow> u64" where
  "uptime_seconds now mt = now - mt_started_at_seconds mt"

definition set_serial_worker_count :: "u64 \<Rightarrow> runtime_metrics \<Rightarrow> runtime_metrics" where
  "set_serial_worker_count count mt = mt\<lparr>mt_serial_worker_count := count\<rparr>"

definition record_frames_parsed :: "u64 \<Rightarrow> runtime_metrics \<Rightarrow> runtime_metrics" where
  "record_frames_parsed count mt = mt\<lparr>mt_frames_parsed_total := mt_frames_parsed_total mt + count\<rparr>"

definition record_frames_invalid :: "u64 \<Rightarrow> runtime_metrics \<Rightarrow> runtime_metrics" where
  "record_frames_invalid count mt = mt\<lparr>mt_frames_invalid_total := mt_frames_invalid_total mt + count\<rparr>"

definition record_crc_errors :: "u64 \<Rightarrow> runtime_metrics \<Rightarrow> runtime_metrics" where
  "record_crc_errors count mt = mt\<lparr>mt_crc_errors_total := mt_crc_errors_total mt + count\<rparr>"

definition record_length_errors :: "u64 \<Rightarrow> runtime_metrics \<Rightarrow> runtime_metrics" where
  "record_length_errors count mt = mt\<lparr>mt_length_errors_total := mt_length_errors_total mt + count\<rparr>"

definition record_mqtt_publish_success :: "u64 \<Rightarrow> runtime_metrics \<Rightarrow> runtime_metrics" where
  "record_mqtt_publish_success count mt =
     mt\<lparr>mt_mqtt_publish_success_total := mt_mqtt_publish_success_total mt + count\<rparr>"

definition record_mqtt_publish_failed :: "u64 \<Rightarrow> runtime_metrics \<Rightarrow> runtime_metrics" where
  "record_mqtt_publish_failed count mt =
     mt\<lparr>mt_mqtt_publish_failed_total := mt_mqtt_publish_failed_total mt + count\<rparr>"

definition record_tcp_publish_success :: "u64 \<Rightarrow> runtime_metrics \<Rightarrow> runtime_metrics" where
  "record_tcp_publish_success count mt =
     mt\<lparr>mt_tcp_publish_success_total := mt_tcp_publish_success_total mt + count\<rparr>"

definition record_tcp_publish_failed :: "u64 \<Rightarrow> runtime_metrics \<Rightarrow> runtime_metrics" where
  "record_tcp_publish_failed count mt =
     mt\<lparr>mt_tcp_publish_failed_total := mt_tcp_publish_failed_total mt + count\<rparr>"

definition set_cache_depth :: "u64 \<Rightarrow> runtime_metrics \<Rightarrow> runtime_metrics" where
  "set_cache_depth depth mt = mt\<lparr>mt_cache_depth := depth\<rparr>"

definition record_cache_enqueue :: "u64 \<Rightarrow> runtime_metrics \<Rightarrow> runtime_metrics" where
  "record_cache_enqueue count mt = mt\<lparr>mt_cache_enqueue_total := mt_cache_enqueue_total mt + count\<rparr>"

definition record_cache_flush_attempt :: "u64 \<Rightarrow> runtime_metrics \<Rightarrow> runtime_metrics" where
  "record_cache_flush_attempt count mt =
     mt\<lparr>mt_cache_flush_attempt_total := mt_cache_flush_attempt_total mt + count\<rparr>"

definition set_device_counts :: "u64 \<Rightarrow> u64 \<Rightarrow> runtime_metrics \<Rightarrow> runtime_metrics" where
  "set_device_counts online offline mt =
     mt\<lparr>mt_device_online_total := online, mt_device_offline_total := offline\<rparr>"

definition record_protocol_error :: "u64 \<Rightarrow> runtime_metrics \<Rightarrow> runtime_metrics" where
  "record_protocol_error count mt = mt\<lparr>mt_protocol_error_total := mt_protocol_error_total mt + count\<rparr>"

definition record_modbus_error :: "u64 \<Rightarrow> runtime_metrics \<Rightarrow> runtime_metrics" where
  "record_modbus_error count mt = mt\<lparr>mt_modbus_error_total := mt_modbus_error_total mt + count\<rparr>"

definition record_can_error :: "u64 \<Rightarrow> runtime_metrics \<Rightarrow> runtime_metrics" where
  "record_can_error count mt = mt\<lparr>mt_can_error_total := mt_can_error_total mt + count\<rparr>"

lemmas metric_defs = set_serial_worker_count_def record_frames_parsed_def record_frames_invalid_def
  record_crc_errors_def record_length_errors_def record_mqtt_publish_success_def
  record_mqtt_publish_failed_def record_tcp_publish_success_def record_tcp_publish_failed_def
  set_cache_depth_def record_cache_enqueue_def record_cache_flush_attempt_def set_device_counts_def
  record_protocol_error_def record_modbus_error_def record_can_error_def

section \<open>Prometheus text\<close>

definition write_metric :: "string \<Rightarrow> string \<Rightarrow> string \<Rightarrow> u64 \<Rightarrow> string" where
  "write_metric name type help val =
     ''# HELP '' @ name @ '' '' @ help @ [newline]
     @ ''# TYPE '' @ name @ '' '' @ type @ [newline]
     @ name @ '' '' @ nat_to_dec (unat val) @ [newline]"

definition render_prometheus :: "u64 \<Rightarrow> runtime_metrics \<Rightarrow> string" where
  "render_prometheus now mt =
     write_metric ''iot_gateway_uptime_seconds'' ''gauge''
       ''Seconds since the gateway process initialized runtime metrics.'' (uptime_seconds now mt)
     @ write_metric ''iot_gateway_serial_worker_count'' ''gauge''
       ''Configured serial worker threads.'' (mt_serial_worker_count mt)
     @ write_metric ''iot_gateway_frames_parsed_total'' ''counter''
       ''Protocol frames accepted by the frame parser.'' (mt_frames_parsed_total mt)
     @ write_metric ''iot_gateway_frames_invalid_total'' ''counter''
       ''Protocol frames rejected for CRC or length errors.'' (mt_frames_invalid_total mt)
     @ write_metric ''iot_gateway_crc_errors_total'' ''counter''
       ''Frames rejected by CRC16-Modbus validation.'' (mt_crc_errors_total mt)
     @ write_metric ''iot_gateway_length_errors_total'' ''counter''
       ''Frames rejected for an invalid payload length.'' (mt_length_errors_total mt)
     @ write_metric ''iot_gateway_mqtt_publish_success_total'' ''counter''
       ''MQTT publish attempts acknowledged by the client.'' (mt_mqtt_publish_success_total mt)
     @ write_metric ''iot_gateway_mqtt_publish_failed_total'' ''counter''
       ''MQTT publish attempts that were not accepted by the broker.'' (mt_mqtt_publish_failed_total mt)
     @ write_metric ''iot_gateway_tcp_publish_success_total'' ''counter''
       ''TCP JSON Lines messages sent successfully.'' (mt_tcp_publish_success_total mt)
     @ write_metric ''iot_gateway_tcp_publish_failed_total'' ''counter''
       ''TCP JSON Lines send attempts that failed.'' (mt_tcp_publish_failed_total mt)
     @ write_metric ''iot_gateway_cache_depth'' ''gauge''
       ''Messages currently retained in the MQTT offline cache.'' (mt_cache_depth mt)
     @ write_metric ''iot_gateway_cache_enqueue_total'' ''counter''
       ''Messages appended to the MQTT offline cache.'' (mt_cache_enqueue_total mt)
     @ write_metric ''iot_gateway_cache_flush_attempt_total'' ''counter''
       ''Offline cache replay passes attempted.'' (mt_cache_flush_attempt_total mt)
     @ write_metric ''gateway_device_online_total'' ''gauge''
       ''Devices currently considered online.'' (mt_device_online_total mt)
     @ write_metric ''gateway_device_offline_total'' ''gauge''
       ''Devices currently considered offline.'' (mt_device_offline_total mt)
     @ write_metric ''gateway_protocol_error_total'' ''counter''
       ''Input protocol errors reported by device adapters.'' (mt_protocol_error_total mt)
     @ write_metric ''gateway_modbus_error_total'' ''counter''
       ''Modbus RTU timeout, transport, and response errors.'' (mt_modbus_error_total mt)
     @ write_metric ''gateway_can_error_total'' ''counter''
       ''SocketCAN transport and CAN payload errors.'' (mt_can_error_total mt)"

text \<open>What a scraper should see: every exported name with its current value.\<close>

definition exported_samples :: "u64 \<Rightarrow> runtime_metrics \<Rightarrow> (string \<times> u64) list" where
  "exported_samples now mt =
     [(''iot_gateway_uptime_seconds'', uptime_seconds now mt),
      (''iot_gateway_serial_worker_count'', mt_serial_worker_count mt),
      (''iot_gateway_frames_parsed_total'', mt_frames_parsed_total mt),
      (''iot_gateway_frames_invalid_total'', mt_frames_invalid_total mt),
      (''iot_gateway_crc_errors_total'', mt_crc_errors_total mt),
      (''iot_gateway_length_errors_total'', mt_length_errors_total mt),
      (''iot_gateway_mqtt_publish_success_total'', mt_mqtt_publish_success_total mt),
      (''iot_gateway_mqtt_publish_failed_total'', mt_mqtt_publish_failed_total mt),
      (''iot_gateway_tcp_publish_success_total'', mt_tcp_publish_success_total mt),
      (''iot_gateway_tcp_publish_failed_total'', mt_tcp_publish_failed_total mt),
      (''iot_gateway_cache_depth'', mt_cache_depth mt),
      (''iot_gateway_cache_enqueue_total'', mt_cache_enqueue_total mt),
      (''iot_gateway_cache_flush_attempt_total'', mt_cache_flush_attempt_total mt),
      (''gateway_device_online_total'', mt_device_online_total mt),
      (''gateway_device_offline_total'', mt_device_offline_total mt),
      (''gateway_protocol_error_total'', mt_protocol_error_total mt),
      (''gateway_modbus_error_total'', mt_modbus_error_total mt),
      (''gateway_can_error_total'', mt_can_error_total mt)]"

text \<open>A scraper: comment lines are skipped, every other line is a name, a blank and a number.\<close>

definition is_comment :: "string \<Rightarrow> bool" where
  "is_comment l \<longleftrightarrow> take 1 l = ''#''"

definition scrape_line :: "string \<Rightarrow> string \<times> nat" where
  "scrape_line l = (takeWhile (\<lambda>c. c \<noteq> CHR '' '') l, dec_value (drop 1 (dropWhile (\<lambda>c. c \<noteq> CHR '' '') l)))"

definition scrape :: "string \<Rightarrow> (string \<times> nat) list" where
  "scrape text = map scrape_line (filter (\<lambda>l. \<not> is_comment l) (getlines [] text))"

definition metric_name_ok :: "string \<Rightarrow> bool" where
  "metric_name_ok name \<longleftrightarrow> printable name \<and> CHR '' '' \<notin> set name \<and> take 1 name \<noteq> ''#'' \<and> name \<noteq> []"

lemma scrape_Nil [simp]: "scrape [] = []"
  by (simp add: scrape_def)

lemma scrape_metric:
  assumes "metric_name_ok name" "printable type" "printable help"
  shows "scrape (write_metric name type help v @ rest) = (name, unat v) # scrape rest"
proof -
  let ?ls = "[''# HELP '' @ name @ '' '' @ help, ''# TYPE '' @ name @ '' '' @ type, name @ '' '' @ nat_to_dec (unat v)]"
  have lines: "write_metric name type help v @ rest = text_of_lines ?ls @ rest"
    by (simp add: write_metric_def)
  have "list_all printable ?ls"
    using assms by (simp add: metric_name_ok_def)
  then have "list_all (\<lambda>l. newline \<notin> set l) ?ls"
    by (simp only: list_all_iff) (blast dest: printable_no_control)
  then have "getlines [] (write_metric name type help v @ rest) = ?ls @ getlines [] rest"
    unfolding lines by (rule getlines_text)
  moreover have "scrape_line (name @ '' '' @ nat_to_dec (unat v)) = (name, unat v)"
    using assms(1)
    by (simp add: scrape_line_def metric_name_ok_def takeWhile_append dropWhile_append)
  moreover have "\<not> is_comment (name @ '' '' @ nat_to_dec (unat v))"
    using assms(1) by (cases name) (simp_all add: is_comment_def metric_name_ok_def)
  ultimately show ?thesis
    by (simp add: scrape_def is_comment_def)
qed

lemma scrape_render:
  "scrape (render_prometheus now mt) = map (map_prod id unat) (exported_samples now mt)"
proof -
  have rest: "scrape (write_metric n t h v) = (n, unat v) # scrape []"
    if "metric_name_ok n" "printable t" "printable h" for n t h v
    using scrape_metric [OF that, of v "[]"] by simp
  show ?thesis
    by (simp add: render_prometheus_def scrape_metric rest metric_name_ok_def exported_samples_def)
qed

text \<open>
  C34: the metrics endpoint. A scraper that skips comments and reads name and value per line sees
  exactly the eighteen exported metrics, each once, with the exact current value of its counter.
\<close>

theorem prometheus_scrape:
  "scrape (render_prometheus now mt) = map (map_prod id unat) (exported_samples now mt)
   \<and> distinct (map fst (exported_samples now mt)) \<and> length (exported_samples now mt) = 18"
  using scrape_render [of now mt] by (simp add: exported_samples_def)

end
