(* ===== verification/RuntimeStatus.thy ===== *)
theory RuntimeStatus
  imports Metrics
begin

text \<open>
  \<^verbatim>\<open>src/src/app/runtime_status.{h,cpp}\<close>: what the health and readiness answers report.
\<close>

record device_health =
  dh_device_id :: u32
  dh_protocol :: string
  dh_online :: bool
  dh_last_update :: u64
  dh_error_count :: u64

record runtime_status =
  version :: string
  cache_backend :: string
  mqtt_enabled :: bool
  tcp_enabled :: bool
  config_loaded :: bool
  cache_ready :: bool
  serial_workers_started :: bool
  serial_worker_count :: u64
  input_device_count :: u64
  device_online_count :: u64
  device_offline_count :: u64
  device_statuses :: "device_health list"

definition runtime_status_new :: "string \<Rightarrow> string \<Rightarrow> bool \<Rightarrow> bool \<Rightarrow> runtime_status" where
  "runtime_status_new ver backend mqtt tcp = \<lparr>version = ver, cache_backend = backend,
     mqtt_enabled = mqtt, tcp_enabled = tcp, config_loaded = False, cache_ready = False,
     serial_workers_started = False, serial_worker_count = 0, input_device_count = 0,
     device_online_count = 0, device_offline_count = 0, device_statuses = []\<rparr>"

definition set_config_loaded :: "bool \<Rightarrow> runtime_status \<Rightarrow> runtime_status" where
  "set_config_loaded loaded s = s\<lparr>config_loaded := loaded\<rparr>"

definition set_cache_ready :: "bool \<Rightarrow> runtime_status \<Rightarrow> runtime_status" where
  "set_cache_ready is_ready s = s\<lparr>cache_ready := is_ready\<rparr>"

definition set_serial_workers_started :: "bool \<Rightarrow> u64 \<Rightarrow> runtime_status \<Rightarrow> runtime_status" where
  "set_serial_workers_started started count s =
     s\<lparr>serial_worker_count := count, serial_workers_started := started\<rparr>"

definition set_status_device_counts :: "u64 \<Rightarrow> u64 \<Rightarrow> runtime_status \<Rightarrow> runtime_status" where
  "set_status_device_counts online offline s =
     s\<lparr>device_online_count := online, device_offline_count := offline,
       input_device_count := online + offline\<rparr>"

definition set_device_statuses :: "device_health list \<Rightarrow> runtime_status \<Rightarrow> runtime_status" where
  "set_device_statuses sts s = s\<lparr>device_statuses := sts\<rparr>"

definition ready :: "runtime_status \<Rightarrow> bool" where
  "ready s \<longleftrightarrow> config_loaded s \<and> cache_ready s \<and> serial_workers_started s"

abbreviation dec :: "'a::len word \<Rightarrow> string" where
  "dec w \<equiv> nat_to_dec (unat w)"

fun device_list_json :: "nat \<Rightarrow> device_health list \<Rightarrow> string" where
  \<open>device_list_json index [] = ''''\<close>
| \<open>device_list_json index (d # ds) =
     (if index \<noteq> 0 then '','' else '''')
     @ ''{"device_id":'' @ dec (dh_device_id d)
     @ '',"protocol":"'' @ dh_protocol d
     @ ''","online":'' @ bool_to_text (dh_online d)
     @ '',"last_update":'' @ dec (dh_last_update d)
     @ '',"error_count":'' @ dec (dh_error_count d)
     @ ''}'' @ device_list_json (Suc index) ds\<close>

definition health_json :: "u64 \<Rightarrow> runtime_metrics \<Rightarrow> runtime_status \<Rightarrow> string" where
  \<open>health_json now metrics s =
     ''{"status":"ok","version":"'' @ version s
     @ ''","uptime_seconds":'' @ dec (uptime_seconds now metrics)
     @ '',"serial_workers":'' @ dec (serial_worker_count s)
     @ '',"input_devices_total":'' @ dec (input_device_count s)
     @ '',"device_online":'' @ dec (device_online_count s)
     @ '',"device_offline":'' @ dec (device_offline_count s)
     @ '',"mqtt_enabled":'' @ bool_to_text (mqtt_enabled s)
     @ '',"tcp_enabled":'' @ bool_to_text (tcp_enabled s)
     @ '',"cache_backend":"'' @ cache_backend s
     @ ''","devices":['' @ device_list_json 0 (device_statuses s) @ '']}''\<close>

definition readiness_json :: "runtime_status \<Rightarrow> string" where
  \<open>readiness_json s =
     ''{"ready":'' @ bool_to_text (ready s)
     @ '',"checks":{"config_loaded":'' @ bool_to_text (config_loaded s)
     @ '',"cache_ready":'' @ bool_to_text (cache_ready s)
     @ '',"serial_workers_started":'' @ bool_to_text (serial_workers_started s)
     @ ''}''
     @ '',"serial_worker_count":'' @ dec (serial_worker_count s)
     @ '',"input_devices_total":'' @ dec (input_device_count s)
     @ '',"mqtt_enabled":'' @ bool_to_text (mqtt_enabled s)
     @ '',"tcp_enabled":'' @ bool_to_text (tcp_enabled s)
     @ '',"cache_backend":"'' @ cache_backend s
     @ ''"}''\<close>

lemmas status_defs = set_config_loaded_def set_cache_ready_def set_serial_workers_started_def
  set_status_device_counts_def set_device_statuses_def

lemma ready_starts_false [simp]: "\<not> ready (runtime_status_new v b m t)"
  by (simp add: ready_def runtime_status_new_def)

lemma printable_bool_to_text [simp]: "printable (bool_to_text b)"
  by (simp add: bool_to_text_def)

lemma printable_readiness:
  "printable (cache_backend s) \<Longrightarrow> printable (readiness_json s)"
  by (simp add: readiness_json_def)

lemma printable_device_list:
  "list_all (\<lambda>d. printable (dh_protocol d)) ds \<Longrightarrow> printable (device_list_json i ds)"
  by (induction i ds rule: device_list_json.induct) simp_all

lemma printable_health:
  "printable (version s) \<Longrightarrow> printable (cache_backend s)
    \<Longrightarrow> list_all (\<lambda>d. printable (dh_protocol d)) (device_statuses s) \<Longrightarrow> printable (health_json now mt s)"
  by (simp add: health_json_def printable_device_list)

end
