(* ===== verification/Logger.thy ===== *)
theory Logger
  imports Posix "HOL-Library.Sublist"
begin

text \<open>
  \<^verbatim>\<open>src/src/log/logger.{h,cpp}\<close>: the logger. The state holds what reached the two console streams
  and the log file. The clock and \<open>localtime_r\<close> are arguments, as is how much of a line reaches the
  file; after a failed write the stream stays open and drops everything, as \<open>ofstream\<close> does. Writing
  a line holds the mutex, so concurrent calls are a sequence of calls.
\<close>

section \<open>Levels\<close>

datatype log_level = LevelDebug | LevelInfo | LevelWarn | LevelError

fun level_int :: "log_level \<Rightarrow> int" where
  "level_int LevelDebug = 0"
| "level_int LevelInfo = 1"
| "level_int LevelWarn = 2"
| "level_int LevelError = 3"

fun level_name :: "log_level \<Rightarrow> string" where
  "level_name LevelDebug = ''DEBUG''"
| "level_name LevelInfo = ''INFO''"
| "level_name LevelWarn = ''WARN''"
| "level_name LevelError = ''ERROR''"

lemma level_int_inject [simp]: "level_int a = level_int b \<longleftrightarrow> a = b"
  by (cases a; cases b) simp_all

instantiation log_level :: linorder
begin

definition less_eq_log_level :: "log_level \<Rightarrow> log_level \<Rightarrow> bool" where
  "less_eq_log_level a b \<longleftrightarrow> level_int a \<le> level_int b"

definition less_log_level :: "log_level \<Rightarrow> log_level \<Rightarrow> bool" where
  "less_log_level a b \<longleftrightarrow> level_int a < level_int b"

instance
  by standard (auto simp: less_eq_log_level_def less_log_level_def)

end

section \<open>Time stamps\<close>

record tm =
  tm_year :: int
  tm_mon :: int
  tm_mday :: int
  tm_hour :: int
  tm_min :: int
  tm_sec :: int

text \<open>\<open>setfill('0')\<close> with \<open>setw(n)\<close>.\<close>

definition pad :: "nat \<Rightarrow> string \<Rightarrow> string" where
  "pad n s = replicate (n - length s) (CHR ''0'') @ s"

text \<open>\<open>put_time\<close> with the format \<^verbatim>\<open>%Y-%m-%d %H:%M:%S\<close>.\<close>

definition put_time :: "tm \<Rightarrow> string" where
  "put_time t = int_to_dec (tm_year t + 1900) @ ''-'' @ pad 2 (int_to_dec (tm_mon t + 1)) @ ''-''
     @ pad 2 (int_to_dec (tm_mday t)) @ '' '' @ pad 2 (int_to_dec (tm_hour t)) @ '':''
     @ pad 2 (int_to_dec (tm_min t)) @ '':'' @ pad 2 (int_to_dec (tm_sec t))"

text \<open>C++ division and remainder round towards zero.\<close>

definition seconds_of_ns :: "int \<Rightarrow> int" where
  "seconds_of_ns ns = (if 0 \<le> ns then ns div 1000000000 else - ((- ns) div 1000000000))"

definition rem_1000 :: "int \<Rightarrow> int" where
  "rem_1000 n = (if 0 \<le> n then n mod 1000 else - ((- n) mod 1000))"

definition current_timestamp :: "(int \<Rightarrow> tm) \<Rightarrow> int \<Rightarrow> string" where
  "current_timestamp localtime_r now =
     put_time (localtime_r (seconds_of_ns now)) @ ''.'' @ pad 3 (int_to_dec (rem_1000 (ms_of_ns now)))"

section \<open>The logger\<close>

record logger =
  lg_file_path :: string
  lg_minimum_level :: log_level
  lg_file :: "string option"
  lg_file_good :: bool
  lg_cout :: string
  lg_cerr :: string

record log_open_env =
  lo_mkdir :: "string option"
  lo_open :: "string option"

definition logger_new :: "log_open_env \<Rightarrow> string \<Rightarrow> log_level \<Rightarrow> logger" where
  "logger_new env file_path minimum_level =
     (let l0 = \<lparr>lg_file_path = file_path, lg_minimum_level = minimum_level, lg_file = None, lg_file_good = True,
                lg_cout = [], lg_cerr = []\<rparr>;
          l1 = (case (if has_parent file_path then lo_mkdir env else None) of
                  Some m \<Rightarrow> l0\<lparr>lg_cerr := line_of (''[ERROR] create log directory failed: '' @ m)\<rparr>
                | None \<Rightarrow> l0)
      in case lo_open env of
           Some content \<Rightarrow> l1\<lparr>lg_file := Some content\<rparr>
         | None \<Rightarrow> l1\<lparr>lg_file_good := False,
                      lg_cerr := lg_cerr l1 @ line_of (''[ERROR] open log file failed: '' @ file_path)\<rparr>)"

record log_env =
  le_now :: int
  le_localtime :: "int \<Rightarrow> tm"
  le_write :: "nat option"

definition log_line :: "log_env \<Rightarrow> log_level \<Rightarrow> string \<Rightarrow> string \<Rightarrow> string" where
  "log_line e level module message =
     current_timestamp (le_localtime e) (le_now e) @ '' ['' @ level_name level @ '']'' @ '' ['' @ module @ ''] '' @ message"

definition logger_write :: "log_env \<Rightarrow> log_level \<Rightarrow> string \<Rightarrow> string \<Rightarrow> logger \<Rightarrow> logger" where
  "logger_write e level module message l =
     (if level_int level < level_int (lg_minimum_level l) then l
      else let line = log_line e level module message;
               l1 = (if level = LevelWarn \<or> level = LevelError
                     then l\<lparr>lg_cerr := lg_cerr l @ line_of line\<rparr>
                     else l\<lparr>lg_cout := lg_cout l @ line_of line\<rparr>)
           in case lg_file l1 of
                None \<Rightarrow> l1
              | Some content \<Rightarrow>
                  (if \<not> lg_file_good l1 then l1
                   else let (good, part) = written (le_write e) (line_of line)
                        in l1\<lparr>lg_file := Some (content @ part), lg_file_good := good\<rparr>))"

text \<open>A call of one of the four member functions, and a sequence of calls.\<close>

datatype log_call = LogDebug string string | LogInfo string string | LogWarn string string | LogError string string

fun log_level_of :: "log_call \<Rightarrow> log_level" where
  "log_level_of (LogDebug module message) = LevelDebug"
| "log_level_of (LogInfo module message) = LevelInfo"
| "log_level_of (LogWarn module message) = LevelWarn"
| "log_level_of (LogError module message) = LevelError"

fun perform_log :: "log_env \<Rightarrow> log_call \<Rightarrow> logger \<Rightarrow> logger" where
  "perform_log e (LogDebug module message) l = logger_write e LevelDebug module message l"
| "perform_log e (LogInfo module message) l = logger_write e LevelInfo module message l"
| "perform_log e (LogWarn module message) l = logger_write e LevelWarn module message l"
| "perform_log e (LogError module message) l = logger_write e LevelError module message l"

definition run_log :: "(log_env \<times> log_call) list \<Rightarrow> logger \<Rightarrow> logger" where
  "run_log = fold (\<lambda>(e, call). perform_log e call)"

section \<open>What is written\<close>

fun call_line :: "log_env \<times> log_call \<Rightarrow> string" where
  "call_line (e, LogDebug module message) = log_line e LevelDebug module message"
| "call_line (e, LogInfo module message) = log_line e LevelInfo module message"
| "call_line (e, LogWarn module message) = log_line e LevelWarn module message"
| "call_line (e, LogError module message) = log_line e LevelError module message"

definition shown :: "log_level \<Rightarrow> (log_env \<times> log_call) list \<Rightarrow> (log_env \<times> log_call) list" where
  "shown minimum = filter (\<lambda>(e, call). minimum \<le> log_level_of call)"

definition of_levels :: "(log_level \<Rightarrow> bool) \<Rightarrow> (log_env \<times> log_call) list \<Rightarrow> (log_env \<times> log_call) list" where
  "of_levels P = filter (\<lambda>(e, call). P (log_level_of call))"

definition log_text :: "(log_env \<times> log_call) list \<Rightarrow> string" where
  "log_text calls = text_of_lines (map call_line calls)"

lemma log_text_simps [simp]:
  "log_text [] = []" "log_text (x # xs) = line_of (call_line x) @ log_text xs"
  by (simp_all add: log_text_def line_of_def)

lemma shown_Cons [simp]: "shown k [] = []"
  "shown k ((e, call) # xs) = (if k \<le> log_level_of call then (e, call) # shown k xs else shown k xs)"
  by (simp_all add: shown_def)

lemma of_levels_Cons [simp]: "of_levels P [] = []"
  "of_levels P ((e, call) # xs) = (if P (log_level_of call) then (e, call) # of_levels P xs else of_levels P xs)"
  by (simp_all add: of_levels_def)

lemma run_log_simps [simp]: "run_log [] l = l"
  "run_log ((e, call) # xs) l = run_log xs (perform_log e call l)"
  by (simp_all add: run_log_def)

text \<open>One call.\<close>

lemma perform_log_hidden: "log_level_of call < lg_minimum_level l \<Longrightarrow> perform_log e call l = l"
  by (cases call) (simp_all add: logger_write_def less_log_level_def)

lemma perform_log_shown:
  assumes "lg_minimum_level l \<le> log_level_of call"
  shows "lg_minimum_level (perform_log e call l) = lg_minimum_level l"
    "lg_cout (perform_log e call l)
       = lg_cout l @ (if log_level_of call < LevelWarn then line_of (call_line (e, call)) else [])"
    "lg_cerr (perform_log e call l)
       = lg_cerr l @ (if LevelWarn \<le> log_level_of call then line_of (call_line (e, call)) else [])"
    "lg_file l = None \<Longrightarrow> lg_file (perform_log e call l) = None"
    "lg_file l = Some content \<Longrightarrow> \<not> lg_file_good l \<Longrightarrow>
       lg_file (perform_log e call l) = Some content \<and> \<not> lg_file_good (perform_log e call l)"
    "lg_file l = Some content \<Longrightarrow> lg_file_good l \<Longrightarrow>
       lg_file (perform_log e call l) = Some (content @ snd (written (le_write e) (line_of (call_line (e, call)))))
       \<and> (lg_file_good (perform_log e call l) \<longleftrightarrow> le_write e = None)"
  using assms
  by (cases call; auto simp: logger_write_def less_eq_log_level_def less_log_level_def Let_def written_def
      split: option.split)+

text \<open>A sequence of calls.\<close>

lemma run_log_console:
  defines "k \<equiv> lg_minimum_level"
  shows "lg_minimum_level (run_log calls l) = k l
    \<and> lg_cout (run_log calls l) = lg_cout l @ log_text (of_levels (\<lambda>v. v < LevelWarn) (shown (k l) calls))
    \<and> lg_cerr (run_log calls l) = lg_cerr l @ log_text (of_levels (\<lambda>v. LevelWarn \<le> v) (shown (k l) calls))"
proof (induction calls arbitrary: l)
  case (Cons x calls)
  obtain e call where x: "x = (e, call)" by fastforce
  show ?case
  proof (cases "lg_minimum_level l \<le> log_level_of call")
    case True
    then show ?thesis unfolding x using Cons.IH perform_log_shown(1-3) [OF True, of e] by (simp add: k_def)
  next
    case False
    then show ?thesis unfolding x using Cons.IH perform_log_hidden [of call l e] by (simp add: k_def)
  qed
qed (simp add: k_def)

lemma run_log_bad_file:
  "lg_file l = Some content \<Longrightarrow> \<not> lg_file_good l \<Longrightarrow> lg_file (run_log calls l) = Some content"
proof (induction calls arbitrary: l)
  case (Cons x calls)
  obtain e call where x: "x = (e, call)" by fastforce
  show ?case
    using Cons.IH [of "perform_log e call l"] perform_log_shown(5) [of l call content e]
      perform_log_hidden [of call l e] Cons.prems
    unfolding x by (cases "lg_minimum_level l \<le> log_level_of call") simp_all
qed simp

lemma run_log_file:
  assumes "lg_file l = Some content" "lg_file_good l"
  shows "\<exists>part. lg_file (run_log calls l) = Some (content @ part) \<and> prefix part (log_text (shown (lg_minimum_level l) calls))
    \<and> (list_all (\<lambda>(e, call). le_write e = None) calls \<longrightarrow> part = log_text (shown (lg_minimum_level l) calls))"
  using assms
proof (induction calls arbitrary: l content)
  case (Cons x calls)
  obtain e call where x: "x = (e, call)" by fastforce
  show ?case
  proof (cases "lg_minimum_level l \<le> log_level_of call")
    case False
    then show ?thesis unfolding x using Cons.IH [OF Cons.prems] perform_log_hidden [of call l e] by auto
  next
    case True
    note one = perform_log_shown(1) [OF True, of e] perform_log_shown(6) [OF True Cons.prems, of e]
    let ?line = "line_of (call_line (e, call))"
    show ?thesis
    proof (cases "le_write e")
      case None
      then have "lg_file (perform_log e call l) = Some (content @ ?line)" "lg_file_good (perform_log e call l)"
        using one by (simp_all add: written_def)
      from Cons.IH [OF this] True None show ?thesis unfolding x one(1) by (auto simp: written_def)
    next
      case (Some n)
      then have "lg_file (run_log calls (perform_log e call l)) = Some (content @ take n ?line)"
        using one by (intro run_log_bad_file) (simp_all add: written_def)
      moreover have "prefix (take n ?line) (?line @ log_text (shown (lg_minimum_level l) calls))"
        by (metis append_take_drop_id append.assoc prefixI)
      ultimately show ?thesis unfolding x using True Some by simp
    qed
  qed
qed simp

text \<open>
  C26: what the logger writes. Exactly the calls at or above the minimum level produce a line, in
  the order of the calls: warnings and errors on the error stream, the others on the output stream,
  and all of them in the log file, after what the file held before. When writing the
  file fails, the consoles still show everything and the file ends within a line of the same text.
\<close>

theorem logger_writes_exactly:
  fixes calls :: "(log_env \<times> log_call) list"
  assumes "lg_file l = Some content" "lg_file_good l"
  defines "lines \<equiv> shown (lg_minimum_level l) calls" and "l' \<equiv> run_log calls l"
  shows "lg_cout l' = lg_cout l @ log_text (of_levels (\<lambda>v. v < LevelWarn) lines)
    \<and> lg_cerr l' = lg_cerr l @ log_text (of_levels (\<lambda>v. LevelWarn \<le> v) lines)
    \<and> (\<exists>part. lg_file l' = Some (content @ part) \<and> prefix part (log_text lines)
         \<and> (list_all (\<lambda>(e, call). le_write e = None) calls \<longrightarrow> part = log_text lines))"
  using run_log_console [of calls l] run_log_file [OF assms(1,2), of calls] unfolding lines_def l'_def by blast

definition example_tm :: tm where
  "example_tm = \<lparr>tm_year = 124, tm_mon = 4, tm_mday = 9, tm_hour = 8, tm_min = 7, tm_sec = 6\<rparr>"

definition example_log_env :: log_env where
  "example_log_env = \<lparr>le_now = 1715242026045000000, le_localtime = (\<lambda>_. example_tm), le_write = None\<rparr>"

definition example_logger :: logger where
  "example_logger = logger_new \<lparr>lo_mkdir = None, lo_open = Some []\<rparr> ''logs/gateway.log'' LevelInfo"

lemma example_line:
  "log_line example_log_env level module message
     = ''2024-05-09 08:07:06.045 ['' @ level_name level @ ''] ['' @ module @ ''] '' @ message"
  by (simp add: log_line_def current_timestamp_def put_time_def pad_def int_to_dec_def dec_eval example_log_env_def
      example_tm_def rem_1000_def ms_of_ns_def)

theorem logger_writes_exactly_witness:
  "lg_file (run_log [(example_log_env, LogDebug ''a'' ''hidden''), (example_log_env, LogWarn ''app'' ''stop'')] example_logger)
     = Some (''2024-05-09 08:07:06.045 [WARN] [app] stop'' @ [newline])"
proof -
  let ?calls = "[(example_log_env, LogDebug ''a'' ''hidden''), (example_log_env, LogWarn ''app'' ''stop'')]"
  have l: "lg_file example_logger = Some []" "lg_file_good example_logger" "lg_minimum_level example_logger = LevelInfo"
    by (simp_all add: example_logger_def logger_new_def)
  have "list_all (\<lambda>(e, call). le_write e = None) ?calls" by (simp add: example_log_env_def)
  with logger_writes_exactly [OF l(1,2), of ?calls]
  have "lg_file (run_log ?calls example_logger) = Some (log_text (shown (lg_minimum_level example_logger) ?calls))" by auto
  then show ?thesis by (simp add: l(3) less_eq_log_level_def example_line line_of_def)
qed

section \<open>Reading a log back\<close>

text \<open>What \<open>localtime_r\<close> promises of the broken-down time, for years with four digits.\<close>

definition valid_tm :: "tm \<Rightarrow> bool" where
  "valid_tm t \<longleftrightarrow> tm_year t \<in> {-900..8099} \<and> tm_mon t \<in> {0..11} \<and> tm_mday t \<in> {1..31}
     \<and> tm_hour t \<in> {0..23} \<and> tm_min t \<in> {0..59} \<and> tm_sec t \<in> {0..60}"

lemma length_pad: "0 \<le> i \<Longrightarrow> i < 10 ^ k \<Longrightarrow> 0 < k \<Longrightarrow> length (pad k (int_to_dec i)) = k"
  using length_nat_to_dec [of "nat i" k] by (simp add: pad_def int_to_dec_def nat_less_iff)

lemma length_four_digits: "1000 \<le> i \<Longrightarrow> i < 10000 \<Longrightarrow> length (int_to_dec i) = 4"
proof -
  assume i: "1000 \<le> i" "i < 10000"
  let ?n = "nat i"
  have "\<not> ?n < 10" "\<not> ?n div 10 < 10" "\<not> ?n div 10 div 10 < 10" "?n div 10 div 10 div 10 < 10"
    using i by (auto simp: div_mult2_eq [symmetric])
  then have "length (nat_to_dec ?n) = 4" by (simp add: nat_to_dec.simps)
  with i show ?thesis by (simp add: int_to_dec_def)
qed

lemma length_timestamp:
  assumes "valid_tm (localtime_r (seconds_of_ns now))" "0 \<le> now"
  shows "length (current_timestamp localtime_r now) = 23"
proof -
  have "0 \<le> rem_1000 (ms_of_ns now)" "rem_1000 (ms_of_ns now) < 10 ^ 3"
    using assms(2) by (simp_all add: rem_1000_def ms_of_ns_def pos_imp_zdiv_nonneg_iff)
  then show ?thesis
    using assms(1) by (simp add: current_timestamp_def put_time_def valid_tm_def length_pad length_four_digits)
qed

text \<open>
  A reader of log files: skip the time stamp, the level and the module are between brackets, the
  rest is the message.
\<close>

definition bracketed :: "string \<Rightarrow> string \<times> string" where
  "bracketed s = (takeWhile (\<lambda>c. c \<noteq> CHR '']'') (drop 2 s), drop 1 (dropWhile (\<lambda>c. c \<noteq> CHR '']'') (drop 2 s)))"

definition read_log_line :: "string \<Rightarrow> string \<times> string \<times> string" where
  "read_log_line s =
     (let (level, s1) = bracketed (drop 23 s); (module, s2) = bracketed s1 in (level, module, drop 1 s2))"

lemma bracketed_field: "CHR '']'' \<notin> set f \<Longrightarrow> bracketed ('' ['' @ f @ '']'' @ rest) = (f, rest)"
  by (auto simp: bracketed_def takeWhile_append dropWhile_append)

fun call_content :: "log_call \<Rightarrow> string \<times> string \<times> string" where
  "call_content (LogDebug module message) = (''DEBUG'', module, message)"
| "call_content (LogInfo module message) = (''INFO'', module, message)"
| "call_content (LogWarn module message) = (''WARN'', module, message)"
| "call_content (LogError module message) = (''ERROR'', module, message)"

definition readable_call :: "log_env \<times> log_call \<Rightarrow> bool" where
  "readable_call \<equiv> \<lambda>(e, call). valid_tm (le_localtime e (seconds_of_ns (le_now e))) \<and> 0 \<le> le_now e
     \<and> (case call_content call of (level, module, message) \<Rightarrow>
          newline \<notin> set module \<and> newline \<notin> set message \<and> CHR '']'' \<notin> set module)"

lemma digits_no_newline: "newline \<notin> set (nat_to_dec n)"
  using nat_to_dec_digits [of newline n] by (auto simp: is_digit_def newline_def)

lemma timestamp_no_newline: "newline \<notin> set (current_timestamp localtime_r now)"
  using digits_no_newline
  by (simp add: current_timestamp_def put_time_def pad_def int_to_dec_def) (simp add: newline_def)

lemma read_log_line_line:
  assumes "valid_tm (le_localtime e (seconds_of_ns (le_now e)))" "0 \<le> le_now e" "CHR '']'' \<notin> set module"
  shows "read_log_line (log_line e level module message) = (level_name level, module, message)"
proof -
  have "CHR '']'' \<notin> set (level_name level)" by (cases level) simp_all
  moreover have "drop 23 (log_line e level module message)
      = '' ['' @ level_name level @ '']'' @ ('' ['' @ module @ '']'' @ ('' '' @ message))"
    using length_timestamp [of "le_localtime e" "le_now e"] assms(1,2) by (simp add: log_line_def)
  ultimately show ?thesis
    unfolding read_log_line_def by (simp add: bracketed_field assms(3) del: append.simps)
qed

lemma line_no_newline:
  "newline \<notin> set module \<Longrightarrow> newline \<notin> set message \<Longrightarrow> newline \<notin> set (log_line e level module message)"
  using timestamp_no_newline [of "le_localtime e" "le_now e"]
  by (cases level) (simp_all add: log_line_def newline_def)

lemma readable_line:
  assumes "readable_call x"
  shows "newline \<notin> set (call_line x)" and "read_log_line (call_line x) = call_content (snd x)"
proof -
  obtain e call where "x = (e, call)" by fastforce
  with assms show "newline \<notin> set (call_line x)" "read_log_line (call_line x) = call_content (snd x)"
    by (cases call; simp add: readable_call_def read_log_line_line line_no_newline)+
qed

text \<open>
  C27: a log file can be read back. With a clock after 1970 and calls without line breaks
  and without a closing bracket in the module name, a new log file that the disk did not
  refuse holds one line per call at or above the minimum level, and each line gives back level,
  module and message, in order.
\<close>

theorem log_file_readable:
  fixes calls :: "(log_env \<times> log_call) list"
  assumes "list_all readable_call calls" "list_all (\<lambda>(e, call). le_write e = None) calls"
    and "lo_open env = Some []"
  shows "\<exists>content. lg_file (run_log calls (logger_new env path minimum)) = Some content
    \<and> map read_log_line (getlines [] content) = map (call_content \<circ> snd) (shown minimum calls)"
proof -
  let ?l = "logger_new env path minimum"
  have "lg_file ?l = Some []" "lg_file_good ?l" "lg_minimum_level ?l = minimum"
    using assms(3) by (auto simp: logger_new_def Let_def split: option.split)
  from run_log_file [OF this(1,2), of calls] this(3) assms(2)
  have "lg_file (run_log calls ?l) = Some (log_text (shown minimum calls))" by auto
  moreover have all: "readable_call x" if "x \<in> set (shown minimum calls)" for x
    using that assms(1) by (auto simp: shown_def list_all_iff)
  have "getlines [] (log_text (shown minimum calls)) = map call_line (shown minimum calls)"
    unfolding log_text_def by (rule getlines_all) (use all readable_line(1) in \<open>auto simp: list_all_iff\<close>)
  moreover have "map (read_log_line \<circ> call_line) (shown minimum calls) = map (call_content \<circ> snd) (shown minimum calls)"
    using readable_line(2) [OF all] by simp
  ultimately show ?thesis by simp
qed

theorem log_file_readable_witness:
  "\<exists>content. lg_file (run_log [(example_log_env, LogInfo ''app'' ''start''), (example_log_env, LogDebug ''a'' ''b'')] example_logger)
       = Some content \<and> map read_log_line (getlines [] content) = [(''INFO'', ''app'', ''start'')]"
proof -
  let ?calls = "[(example_log_env, LogInfo ''app'' ''start''), (example_log_env, LogDebug ''a'' ''b'')]"
  have "list_all readable_call ?calls" "list_all (\<lambda>(e, call). le_write e = None) ?calls"
    by (simp_all add: readable_call_def example_log_env_def example_tm_def valid_tm_def newline_def)
  from log_file_readable [OF this, of "\<lparr>lo_mkdir = None, lo_open = Some []\<rparr>" "''logs/gateway.log''" LevelInfo]
  show ?thesis by (simp add: example_logger_def less_eq_log_level_def)
qed

end
