(* ===== verification/MessageCache.thy ===== *)
theory MessageCache
  imports Prelude
begin

text \<open>
  \<^verbatim>\<open>src/src/cache/message_cache.h\<close>: the abstract message queue of the offline cache. The virtual
  functions are a record; each call gets an environment with the answers of the layer below. The
  locale states the contract the publisher relies on: a queue of messages in order of arrival.
\<close>

record cached_message =
  cm_topic :: string
  cm_payload :: string

record ('c, 'e) cache_ops =
  cache_append :: "'e \<Rightarrow> string \<Rightarrow> string \<Rightarrow> 'c \<Rightarrow> bool \<times> 'c"
  cache_load_all :: "'e \<Rightarrow> 'c \<Rightarrow> cached_message list \<times> 'c"
  cache_remove_first :: "'e \<Rightarrow> nat \<Rightarrow> 'c \<Rightarrow> bool \<times> 'c"

abbreviation msg :: "string \<Rightarrow> string \<Rightarrow> cached_message" where
  "msg t p \<equiv> \<lparr>cm_topic = t, cm_payload = p\<rparr>"

section \<open>Calls on a cache and on a list\<close>

datatype 'e cache_call = Append 'e string string | RemoveFirst 'e nat

fun cache_call_env :: "'e cache_call \<Rightarrow> 'e" where
  "cache_call_env (Append e t p) = e"
| "cache_call_env (RemoveFirst e n) = e"

fun appended :: "'e cache_call \<Rightarrow> cached_message list" where
  "appended (Append e t p) = [msg t p]"
| "appended (RemoveFirst e n) = []"

fun perform :: "('c, 'e) cache_ops \<Rightarrow> 'e cache_call \<Rightarrow> 'c \<Rightarrow> bool \<times> 'c" where
  "perform ops (Append e t p) c = cache_append ops e t p c"
| "perform ops (RemoveFirst e n) c = cache_remove_first ops e n c"

fun queue_call :: "'e cache_call \<Rightarrow> bool \<Rightarrow> cached_message list \<Rightarrow> cached_message list" where
  "queue_call call False q = q"
| "queue_call (Append e t p) True q = q @ [msg t p]"
| "queue_call (RemoveFirst e n) True q = drop n q"

fun run_calls :: "('c, 'e) cache_ops \<Rightarrow> 'e cache_call list \<Rightarrow> 'c \<Rightarrow> bool list \<times> 'c" where
  "run_calls ops [] c = ([], c)"
| "run_calls ops (call # calls) c =
     (case perform ops call c of (ok, c1) \<Rightarrow> (case run_calls ops calls c1 of (oks, c2) \<Rightarrow> (ok # oks, c2)))"

section \<open>The contract\<close>

text \<open>
  \<open>clean e\<close>: the environment of the call may let operations fail, but not half-way. A failed load
  returns no messages. \<open>accepts m\<close>: the messages the contract is about.
\<close>

locale message_cache =
  fixes ops :: "('c, 'e) cache_ops" and invar :: "'c \<Rightarrow> bool" and contents :: "'c \<Rightarrow> cached_message list"
    and clean :: "'e \<Rightarrow> bool" and accepts :: "cached_message \<Rightarrow> bool"
  assumes append_law: "invar c \<Longrightarrow> clean e \<Longrightarrow> accepts (msg t p) \<Longrightarrow> cache_append ops e t p c = (ok, c')
      \<Longrightarrow> invar c' \<and> contents c' = (if ok then contents c @ [msg t p] else contents c)"
    and load_law: "invar c \<Longrightarrow> clean e \<Longrightarrow> cache_load_all ops e c = (ms, c')
      \<Longrightarrow> invar c' \<and> contents c' = contents c \<and> (ms = contents c \<or> ms = [])"
    and remove_law: "invar c \<Longrightarrow> clean e \<Longrightarrow> cache_remove_first ops e n c = (ok, c')
      \<Longrightarrow> invar c' \<and> contents c' = (if ok then drop n (contents c) else contents c)"
begin

lemma perform_law:
  assumes "invar c" "clean (cache_call_env call)" "list_all accepts (appended call)" "perform ops call c = (ok, c')"
  shows "invar c' \<and> contents c' = queue_call call ok (contents c)"
proof (cases call)
  case (Append e t p)
  with assms append_law [of c e t p ok c'] show ?thesis by (cases ok) simp_all
next
  case (RemoveFirst e n)
  with assms remove_law [of c e n ok c'] show ?thesis by (cases ok) simp_all
qed

lemma run_calls_queue:
  assumes "invar c" and "list_all (\<lambda>call. clean (cache_call_env call) \<and> list_all accepts (appended call)) calls"
    and "run_calls ops calls c = (oks, c')"
  shows "invar c' \<and> contents c' = fold (\<lambda>(call, ok). queue_call call ok) (zip calls oks) (contents c)"
  using assms
proof (induction calls arbitrary: c oks)
  case (Cons call calls)
  obtain ok c1 where first: "perform ops call c = (ok, c1)" by fastforce
  obtain oks' where rest: "run_calls ops calls c1 = (oks', c')" "oks = ok # oks'"
    using Cons.prems(3) first by (auto split: prod.splits)
  have "invar c1 \<and> contents c1 = queue_call call ok (contents c)"
    using perform_law [OF Cons.prems(1) _ _ first] Cons.prems(2) by simp
  with Cons.IH [OF _ _ rest(1)] Cons.prems(2) rest(2) show ?case by simp
qed simp

end

end
