(* ===== verification/FileCache.thy ===== *)
theory FileCache
  imports MessageCache Posix
begin

text \<open>
  \<^verbatim>\<open>src/src/cache/file_cache.{h,cpp}\<close>: the cache in a text file, one message per line with a tab
  between topic and payload. The state is the content of the file and of the temporary file; an
  environment says which file operations fail and how much of a write reaches the disk.
\<close>

section \<open>Operations\<close>

record file_cache =
  fc_path :: string
  fc_file :: "string option"
  fc_tmp :: "string option"

record file_env =
  fe_mkdir_fails :: bool
  fe_append_open :: bool
  fe_append_write :: "nat option"
  fe_read_open :: bool
  fe_tmp_open :: bool
  fe_tmp_write :: "nat option"
  fe_rename :: bool

definition file_cache_new :: "string \<Rightarrow> string option \<Rightarrow> file_cache" where
  "file_cache_new path existing = \<lparr>fc_path = path, fc_file = existing, fc_tmp = None\<rparr>"

definition contains_separator :: "string \<Rightarrow> bool" where
  "contains_separator text \<longleftrightarrow> tab \<in> set text \<or> newline \<in> set text \<or> CHR 0x0D \<in> set text"

definition message_line :: "cached_message \<Rightarrow> string" where
  "message_line m = cm_topic m @ [tab] @ cm_payload m"

definition file_append :: "file_env \<Rightarrow> string \<Rightarrow> string \<Rightarrow> file_cache \<Rightarrow> bool \<times> file_cache" where
  "file_append e topic payload c =
     (if contains_separator topic \<or> contains_separator payload then (False, c)
      else if has_parent (fc_path c) \<and> fe_mkdir_fails e then (False, c)
      else if \<not> fe_append_open e then (False, c)
      else let (good, text) = written (fe_append_write e) (topic @ [tab] @ payload @ [newline]);
               old = (case fc_file c of Some s \<Rightarrow> s | None \<Rightarrow> [])
           in (good, c\<lparr>fc_file := Some (old @ text)\<rparr>))"

text \<open>One line: split at the first tab; a line without a tab is skipped.\<close>

definition parse_line :: "string \<Rightarrow> cached_message option" where
  "parse_line line =
     (if tab \<notin> set line then None
      else Some (msg (takeWhile (\<lambda>c. c \<noteq> tab) line) (drop 1 (dropWhile (\<lambda>c. c \<noteq> tab) line))))"

definition file_load_all :: "file_env \<Rightarrow> file_cache \<Rightarrow> cached_message list" where
  "file_load_all e c =
     (case fc_file c of
        None \<Rightarrow> []
      | Some text \<Rightarrow> if fe_read_open e then List.map_filter parse_line (getlines [] text) else [])"

definition replace_all :: "file_env \<Rightarrow> cached_message list \<Rightarrow> file_cache \<Rightarrow> bool \<times> file_cache" where
  "replace_all e messages c =
     (if list_ex (\<lambda>m. contains_separator (cm_topic m) \<or> contains_separator (cm_payload m)) messages
      then (False, c)
      else if has_parent (fc_path c) \<and> fe_mkdir_fails e then (False, c)
      else if \<not> fe_tmp_open e then (False, c)
      else let (good, text) = written (fe_tmp_write e) (text_of_lines (map message_line messages));
               c1 = c\<lparr>fc_tmp := Some text\<rparr>
           in if \<not> good then (False, c1)
              else if \<not> fe_rename e then (False, c1\<lparr>fc_tmp := None\<rparr>)
              else (True, c1\<lparr>fc_file := fc_tmp c1, fc_tmp := None\<rparr>))"

definition file_remove_first :: "file_env \<Rightarrow> nat \<Rightarrow> file_cache \<Rightarrow> bool \<times> file_cache" where
  "file_remove_first e count c =
     (if count = 0 then (True, c)
      else let messages = file_load_all e c
           in if count \<ge> length messages then replace_all e [] c
              else replace_all e (drop count messages) c)"

definition file_ops :: "(file_cache, file_env) cache_ops" where
  "file_ops = \<lparr>cache_append = file_append, cache_load_all = (\<lambda>e c. (file_load_all e c, c)),
     cache_remove_first = file_remove_first\<rparr>"

section \<open>The file as a queue\<close>

definition storable :: "cached_message \<Rightarrow> bool" where
  "storable m \<longleftrightarrow> \<not> contains_separator (cm_topic m) \<and> \<not> contains_separator (cm_payload m)"

definition file_contents :: "file_cache \<Rightarrow> cached_message list" where
  "file_contents c = (case fc_file c of None \<Rightarrow> [] | Some text \<Rightarrow> List.map_filter parse_line (getlines [] text))"

text \<open>A file written by the cache alone: complete lines of storable messages.\<close>

definition file_invar :: "file_cache \<Rightarrow> bool" where
  "file_invar c \<longleftrightarrow> (case fc_file c of None \<Rightarrow> True | Some text \<Rightarrow>
     list_all storable (file_contents c) \<and> text = text_of_lines (map message_line (file_contents c)))"

definition file_clean :: "file_env \<Rightarrow> bool" where
  "file_clean e \<longleftrightarrow> fe_read_open e \<and> (fe_append_write e = None \<or> fe_append_write e = Some 0)"

lemma parse_message_line: "storable m \<Longrightarrow> parse_line (message_line m) = Some m"
  by (cases m)
    (simp add: parse_line_def message_line_def storable_def contains_separator_def
      takeWhile_append dropWhile_append)

lemma message_line_no_newline: "storable m \<Longrightarrow> newline \<notin> set (message_line m)"
  by (auto simp: message_line_def storable_def contains_separator_def tab_def newline_def)

lemma parse_lines_text:
  assumes "list_all storable ms"
  shows "List.map_filter parse_line (getlines [] (text_of_lines (map message_line ms) @ rest))
    = ms @ List.map_filter parse_line (getlines [] rest)"
proof -
  have "list_all (\<lambda>l. newline \<notin> set l) (map message_line ms)"
    using assms by (auto simp: list_all_iff message_line_no_newline)
  then show ?thesis
    using assms by (simp, induction ms) (auto simp: parse_message_line)
qed

lemma parse_lines_all:
  "list_all storable ms \<Longrightarrow> List.map_filter parse_line (getlines [] (text_of_lines (map message_line ms))) = ms"
  using parse_lines_text [of ms "[]"] by simp

lemma file_with:
  assumes "list_all storable ms"
  shows "file_contents (c\<lparr>fc_file := Some (text_of_lines (map message_line ms)), fc_tmp := t\<rparr>) = ms"
    and "file_invar (c\<lparr>fc_file := Some (text_of_lines (map message_line ms)), fc_tmp := t\<rparr>)"
  using assms by (simp_all add: file_contents_def file_invar_def parse_lines_all)

lemma file_ignores_tmp [simp]:
  "file_contents (c\<lparr>fc_tmp := t\<rparr>) = file_contents c" "file_invar (c\<lparr>fc_tmp := t\<rparr>) = file_invar c"
proof -
  show contents: "file_contents (c\<lparr>fc_tmp := t\<rparr>) = file_contents c" by (simp add: file_contents_def)
  show "file_invar (c\<lparr>fc_tmp := t\<rparr>) = file_invar c" by (simp add: file_invar_def contents split: option.split)
qed

lemma file_text:
  "file_invar c \<Longrightarrow> (case fc_file c of Some s \<Rightarrow> s | None \<Rightarrow> []) = text_of_lines (map message_line (file_contents c))
    \<and> list_all storable (file_contents c)"
  by (auto simp: file_invar_def file_contents_def split: option.splits)

lemma file_append_law:
  assumes "file_invar c" "file_clean e" "file_append e t p c = (ok, c')"
  shows "file_invar c' \<and> file_contents c' = (if ok then file_contents c @ [msg t p] else file_contents c)"
proof -
  let ?ms = "file_contents c"
  note old = file_text [OF assms(1)]
  have upd: "c'\<lparr>fc_tmp := fc_tmp c'\<rparr> = c'" by simp
  show ?thesis
  proof (cases "storable (msg t p) \<and> \<not> (has_parent (fc_path c) \<and> fe_mkdir_fails e) \<and> fe_append_open e")
    case False
    then show ?thesis using assms by (auto simp: file_append_def storable_def split: if_splits)
  next
    case True
    define new where "new = (if fe_append_write e = None then ?ms @ [msg t p] else ?ms)"
    have "list_all storable new" using old True by (simp add: new_def)
    moreover have "c' = c\<lparr>fc_file := Some (text_of_lines (map message_line new)), fc_tmp := fc_tmp c\<rparr>"
      and "ok = (fe_append_write e = None)"
      using assms(2,3) True old
      by (auto simp: file_append_def storable_def written_def file_clean_def new_def message_line_def)
    ultimately show ?thesis
      using file_with [of new "fc_tmp c" c] by (simp add: new_def)
  qed
qed

lemma replace_all_law:
  assumes "file_invar c" "replace_all e ms c = (ok, c')" "list_all storable ms"
  shows "file_invar c' \<and> file_contents c' = (if ok then ms else file_contents c)"
proof -
  have "c' = (if ok then c\<lparr>fc_file := Some (text_of_lines (map message_line ms)), fc_tmp := None\<rparr>
      else c\<lparr>fc_tmp := fc_tmp c'\<rparr>)"
    using assms(2,3)
    by (auto simp: replace_all_def written_def Let_def list_ex_iff list_all_iff storable_def
        split: if_splits option.splits)
  then show ?thesis
    using assms(1,3) file_with [of ms None c] by (cases ok) (simp_all, metis file_ignores_tmp)
qed

lemma file_remove_law:
  assumes "file_invar c" "file_clean e" "file_remove_first e n c = (ok, c')"
  shows "file_invar c' \<and> file_contents c' = (if ok then drop n (file_contents c) else file_contents c)"
proof -
  have load: "file_load_all e c = file_contents c"
    using assms(2) by (simp add: file_load_all_def file_contents_def file_clean_def split: option.split)
  have "list_all storable (drop n (file_contents c))"
    using file_text [OF assms(1)] by (auto simp: list_all_iff dest: in_set_dropD)
  moreover have "if n = 0 then ok \<and> c' = c else replace_all e (drop n (file_contents c)) c = (ok, c')"
    using assms(3) by (auto simp: file_remove_first_def load Let_def split: if_splits)
  ultimately show ?thesis
    using replace_all_law [OF assms(1)] assms(1) by (auto split: if_splits)
qed

interpretation fcache: message_cache file_ops file_invar file_contents file_clean "\<lambda>_. True"
proof unfold_locales
  fix c c' :: file_cache and e ms
  assume "file_invar c" "file_clean e" "cache_load_all file_ops e c = (ms, c')"
  then show "file_invar c' \<and> file_contents c' = file_contents c \<and> (ms = file_contents c \<or> ms = [])"
    by (auto simp: file_ops_def file_load_all_def file_contents_def split: option.splits)
next
  fix c c' :: file_cache and e t p ok
  assume "file_invar c" "file_clean e" "cache_append file_ops e t p c = (ok, c')"
  then show "file_invar c' \<and> file_contents c' = (if ok then file_contents c @ [msg t p] else file_contents c)"
    using file_append_law [of c e t p ok c'] by (simp add: file_ops_def)
next
  fix c c' :: file_cache and e n ok
  assume "file_invar c" "file_clean e" "cache_remove_first file_ops e n c = (ok, c')"
  then show "file_invar c' \<and> file_contents c' = (if ok then drop n (file_contents c) else file_contents c)"
    using file_remove_law [of c e n ok c'] by (simp add: file_ops_def)
qed

section \<open>Properties\<close>


definition good_env :: file_env where
  "good_env = \<lparr>fe_mkdir_fails = False, fe_append_open = True, fe_append_write = None, fe_read_open = True,
     fe_tmp_open = True, fe_tmp_write = None, fe_rename = True\<rparr>"


text \<open>
  Replacing the cache is all or nothing. Whatever file operation fails, the cache file has
  either its old content or exactly the new lines, never a mixture or a part; success means
  the new content is in place and no temporary file is left.
\<close>

theorem replace_all_atomic:
  "let (ok, c') = replace_all e messages c in
     (if ok then fc_file c' = Some (text_of_lines (map message_line messages)) \<and> fc_tmp c' = None
      else fc_file c' = fc_file c)"
  by (auto simp: replace_all_def written_def Let_def split: option.split)


end
