(* ===== verification/ReliablePublisher.thy ===== *)
theory ReliablePublisher
  imports MessageCache Metrics "HOL-Library.Multiset"
begin

text \<open>
  \<^verbatim>\<open>src/src/publisher/publisher.h\<close> and \<^verbatim>\<open>src/src/mqtt/reliable_publisher.{h,cpp}\<close>: publishing with
  an offline cache. The MQTT client is an arbitrary operation \<open>pub\<close> on its own state, the cache
  is any record of cache operations; the state also lists the publish attempts with their
  outcome, which is what the broker side can observe. The lemmas are proved in the locale
  \<open>publisher_over_cache\<close>, an extension of \<open>message_cache\<close>, and hold for every cache that keeps
  that contract.
\<close>

section \<open>Operations\<close>

datatype PublishStatus = Published | Deferred | Failed

fun publish_status_text :: "PublishStatus \<Rightarrow> string" where
  "publish_status_text Published = ''published''"
| "publish_status_text Deferred = ''deferred''"
| "publish_status_text Failed = ''failed''"

type_synonym ('k, 'i) mqtt_publish_op = "'i \<Rightarrow> string \<Rightarrow> string \<Rightarrow> 'k \<Rightarrow> bool \<times> 'k"

record ('k, 'c) reliable_publisher =
  rp_client :: 'k
  rp_cache :: 'c
  rp_metrics :: "runtime_metrics option"
  rp_attempts :: "(cached_message \<times> bool) list"

definition update_metrics ::
  "(runtime_metrics \<Rightarrow> runtime_metrics) \<Rightarrow> ('k, 'c) reliable_publisher \<Rightarrow> ('k, 'c) reliable_publisher" where
  "update_metrics f rp = rp\<lparr>rp_metrics := map_option f (rp_metrics rp)\<rparr>"

text \<open>The size of the cache as a metric, read from the cache only when metrics are kept.\<close>

definition measure_cache ::
  "('c, 'e) cache_ops \<Rightarrow> 'e \<Rightarrow> ('k, 'c) reliable_publisher \<Rightarrow> ('k, 'c) reliable_publisher" where
  "measure_cache ops e rp =
     (case rp_metrics rp of
        None \<Rightarrow> rp
      | Some mt \<Rightarrow>
          (case cache_load_all ops e (rp_cache rp) of (ms, c) \<Rightarrow>
             rp\<lparr>rp_cache := c, rp_metrics := Some (set_cache_depth (of_nat (length ms)) mt)\<rparr>))"

definition reliable_publisher_new ::
  "('c, 'e) cache_ops \<Rightarrow> 'e \<Rightarrow> 'k \<Rightarrow> 'c \<Rightarrow> runtime_metrics option \<Rightarrow> ('k, 'c) reliable_publisher" where
  "reliable_publisher_new ops e client cache metrics =
     measure_cache ops e \<lparr>rp_client = client, rp_cache = cache, rp_metrics = metrics, rp_attempts = []\<rparr>"

definition attempt ::
  "('k, 'i) mqtt_publish_op \<Rightarrow> 'i \<Rightarrow> cached_message \<Rightarrow> ('k, 'c) reliable_publisher
    \<Rightarrow> bool \<times> ('k, 'c) reliable_publisher" where
  "attempt pub i m rp =
     (case pub i (cm_topic m) (cm_payload m) (rp_client rp) of (ok, k) \<Rightarrow>
        (ok, rp\<lparr>rp_client := k, rp_attempts := rp_attempts rp @ [(m, ok)]\<rparr>))"

record ('i, 'e) publish_input =
  pi_mqtt :: 'i
  pi_append :: 'e
  pi_load :: 'e

definition reliable_publish ::
  "('k, 'i) mqtt_publish_op \<Rightarrow> ('c, 'e) cache_ops \<Rightarrow> ('i, 'e) publish_input \<Rightarrow> string \<Rightarrow> string
    \<Rightarrow> ('k, 'c) reliable_publisher \<Rightarrow> PublishStatus \<times> ('k, 'c) reliable_publisher" where
  "reliable_publish pub ops input topic payload rp0 =
     (case attempt pub (pi_mqtt input) (msg topic payload) rp0 of
        (True, rp1) \<Rightarrow> (Published, update_metrics (record_mqtt_publish_success 1) rp1)
      | (False, rp1) \<Rightarrow>
          let rp2 = update_metrics (record_mqtt_publish_failed 1) rp1 in
          (case cache_append ops (pi_append input) topic payload (rp_cache rp2) of
             (True, c) \<Rightarrow>
               (Deferred, measure_cache ops (pi_load input)
                  (update_metrics (record_cache_enqueue 1) (rp2\<lparr>rp_cache := c\<rparr>)))
           | (False, c) \<Rightarrow> (Failed, rp2\<lparr>rp_cache := c\<rparr>)))"

text \<open>The replay loop: the number of messages published before the first failure.\<close>

fun replay ::
  "('k, 'i) mqtt_publish_op \<Rightarrow> (nat \<Rightarrow> 'i) \<Rightarrow> cached_message list \<Rightarrow> nat \<Rightarrow> ('k, 'c) reliable_publisher
    \<Rightarrow> nat \<times> ('k, 'c) reliable_publisher" where
  "replay pub i [] published_count rp = (published_count, rp)"
| "replay pub i (m # ms) published_count rp =
     (case attempt pub (i published_count) m rp of
        (False, rp1) \<Rightarrow> (published_count, update_metrics (record_mqtt_publish_failed 1) rp1)
      | (True, rp1) \<Rightarrow>
          replay pub i ms (published_count + 1) (update_metrics (record_mqtt_publish_success 1) rp1))"

record ('i, 'e) flush_input =
  fi_load :: 'e
  fi_mqtt :: "nat \<Rightarrow> 'i"
  fi_remove :: 'e

definition flush_cache ::
  "('k, 'i) mqtt_publish_op \<Rightarrow> ('c, 'e) cache_ops \<Rightarrow> ('i, 'e) flush_input
    \<Rightarrow> ('k, 'c) reliable_publisher \<Rightarrow> nat \<times> ('k, 'c) reliable_publisher" where
  "flush_cache pub ops input rp0 =
     (let rp1 = update_metrics (record_cache_flush_attempt 1) rp0 in
      case cache_load_all ops (fi_load input) (rp_cache rp1) of (messages, c) \<Rightarrow>
        let rp2 = update_metrics (set_cache_depth (of_nat (length messages))) (rp1\<lparr>rp_cache := c\<rparr>) in
        if messages = [] then (0, rp2)
        else (case replay pub (fi_mqtt input) messages 0 rp2 of (published_count, rp3) \<Rightarrow>
          if published_count = 0 then (0, rp3)
          else (case cache_remove_first ops (fi_remove input) published_count (rp_cache rp3) of
            (False, c') \<Rightarrow> (published_count, rp3\<lparr>rp_cache := c'\<rparr>)
          | (True, c') \<Rightarrow>
              (published_count,
               update_metrics (set_cache_depth (of_nat (length messages) - of_nat published_count))
                 (rp3\<lparr>rp_cache := c'\<rparr>)))))"

section \<open>Observations\<close>

definition acked :: "('k, 'c) reliable_publisher \<Rightarrow> cached_message list" where
  "acked rp = map fst (filter snd (rp_attempts rp))"

lemma update_metrics_simps [simp]:
  "rp_client (update_metrics f rp) = rp_client rp" "rp_cache (update_metrics f rp) = rp_cache rp"
  "rp_attempts (update_metrics f rp) = rp_attempts rp" "acked (update_metrics f rp) = acked rp"
  "acked (rp\<lparr>rp_cache := c\<rparr>) = acked rp"
  by (simp_all add: update_metrics_def acked_def)

lemma attempt_effect:
  "attempt pub i m rp = (ok, rp') \<Longrightarrow> rp_cache rp' = rp_cache rp \<and> rp_attempts rp' = rp_attempts rp @ [(m, ok)]
    \<and> rp_metrics rp' = rp_metrics rp"
  by (auto simp: attempt_def split: prod.splits)

lemma replay_effect:
  assumes "replay pub i ms n rp = (n', rp')"
  shows "n \<le> n' \<and> n' \<le> n + length ms \<and> rp_cache rp' = rp_cache rp
    \<and> rp_attempts rp' = rp_attempts rp @ map (\<lambda>m. (m, True)) (take (n' - n) ms)
        @ (if n' - n < length ms then [(ms ! (n' - n), False)] else [])"
  using assms
proof (induction ms arbitrary: n rp)
  case (Cons m ms)
  obtain ok rp1 where at: "attempt pub (i n) m rp = (ok, rp1)" by fastforce
  note eff = attempt_effect [OF at]
  show ?case
  proof (cases ok)
    case True
    with Cons.prems at have "replay pub i ms (n + 1) (update_metrics (record_mqtt_publish_success 1) rp1) = (n', rp')"
      by simp
    note ih = Cons.IH [OF this]
    then obtain k where "n' = n + 1 + k" by (metis le_iff_add)
    with ih eff True show ?thesis by auto
  next
    case False
    with Cons.prems at eff show ?thesis by auto
  qed
qed auto

lemma acked_attempts:
  "rp_attempts rp' = rp_attempts rp @ map (\<lambda>m. (m, True)) ms @ (if b then [(x, False)] else [])
    \<Longrightarrow> acked rp' = acked rp @ ms"
  by (simp add: acked_def comp_def)

lemma acked_attempt:
  "rp_attempts rp' = rp_attempts rp @ [(m, ok)] \<Longrightarrow> acked rp' = acked rp @ (if ok then [m] else [])"
  by (simp add: acked_def)

lemma flush_attempts:
  assumes "flush_cache pub ops input rp = (n, rp')"
    and "cache_load_all ops (fi_load input) (rp_cache rp) = (messages, c)"
  shows "rp_attempts rp' = rp_attempts rp @ map (\<lambda>m. (m, True)) (take n messages)
    @ (if n < length messages then [(messages ! n, False)] else [])"
proof (cases "messages = []")
  case True
  with assms show ?thesis by (auto simp: flush_cache_def Let_def)
next
  case False
  let ?rp2 = "update_metrics (set_cache_depth (of_nat (length messages)))
    ((update_metrics (record_cache_flush_attempt 1) rp)\<lparr>rp_cache := c\<rparr>)"
  obtain k rp3 where rep: "replay pub (fi_mqtt input) messages 0 ?rp2 = (k, rp3)" by fastforce
  have "n = k \<and> rp_attempts rp' = rp_attempts rp3"
    using assms False rep by (auto simp: flush_cache_def Let_def split: if_splits prod.splits bool.splits)
  with replay_effect [OF rep] show ?thesis by simp
qed

section \<open>Counters the publisher leaves alone\<close>

text \<open>A view \<open>h\<close> of the metrics that does not show the counters of the publisher and the cache.\<close>

locale neutral_counters =
  fixes h :: "runtime_metrics \<Rightarrow> 'a"
  assumes neutral_success [simp]: "h (record_mqtt_publish_success n mt) = h mt"
    and neutral_failed [simp]: "h (record_mqtt_publish_failed n mt) = h mt"
    and neutral_depth [simp]: "h (set_cache_depth n mt) = h mt"
    and neutral_enqueue [simp]: "h (record_cache_enqueue n mt) = h mt"
    and neutral_flush_attempt [simp]: "h (record_cache_flush_attempt n mt) = h mt"
begin

lemma neutral_update [simp]:
  "(\<And>mt. h (f mt) = h mt) \<Longrightarrow> map_option h (rp_metrics (update_metrics f rp)) = map_option h (rp_metrics rp)"
  by (simp add: update_metrics_def option.map_comp comp_def)

lemma neutral_measure [simp]: "map_option h (rp_metrics (measure_cache ops e rp)) = map_option h (rp_metrics rp)"
  by (auto simp: measure_cache_def split: option.split prod.split)

lemma neutral_attempt: "attempt pub i m rp = (ok, rp') \<Longrightarrow> map_option h (rp_metrics rp') = map_option h (rp_metrics rp)"
  using attempt_effect [of pub i m rp ok rp'] by simp

lemma neutral_publish:
  "reliable_publish pub ops input t p rp = (status, rp') \<Longrightarrow> map_option h (rp_metrics rp') = map_option h (rp_metrics rp)"
  by (auto simp: reliable_publish_def Let_def dest: neutral_attempt split: prod.splits bool.splits)

lemma neutral_replay: "replay pub i ms n rp = (n', rp') \<Longrightarrow> map_option h (rp_metrics rp') = map_option h (rp_metrics rp)"
  by (induction ms arbitrary: n rp) (auto dest: neutral_attempt split: prod.splits bool.splits)

lemma neutral_flush: "map_option h (rp_metrics (snd (flush_cache pub ops input rp))) = map_option h (rp_metrics rp)"
  by (auto simp: flush_cache_def Let_def dest: neutral_replay split: prod.splits bool.splits)

end

section \<open>Sequences of calls\<close>

datatype ('i, 'e) publisher_call =
    Publish "('i, 'e) publish_input" string string
  | Flush "('i, 'e) flush_input"

fun call_clean ::
  "('e \<Rightarrow> bool) \<Rightarrow> (cached_message \<Rightarrow> bool) \<Rightarrow> ('i, 'e) publisher_call \<Rightarrow> bool" where
  "call_clean clean accepts (Publish input t p) \<longleftrightarrow>
     clean (pi_append input) \<and> clean (pi_load input) \<and> accepts (msg t p)"
| "call_clean clean accepts (Flush input) \<longleftrightarrow> clean (fi_load input) \<and> clean (fi_remove input)"

text \<open>Run calls; the first component lists the messages accepted: published or deferred.\<close>

fun run_publisher ::
  "('k, 'i) mqtt_publish_op \<Rightarrow> ('c, 'e) cache_ops \<Rightarrow> ('i, 'e) publisher_call list
    \<Rightarrow> ('k, 'c) reliable_publisher \<Rightarrow> cached_message list \<times> ('k, 'c) reliable_publisher" where
  "run_publisher pub ops [] rp = ([], rp)"
| "run_publisher pub ops (Publish input t p # calls) rp =
     (case reliable_publish pub ops input t p rp of (status, rp1) \<Rightarrow>
        (case run_publisher pub ops calls rp1 of (accepted, rp2) \<Rightarrow>
           ((if status = Failed then accepted else msg t p # accepted), rp2)))"
| "run_publisher pub ops (Flush input # calls) rp =
     run_publisher pub ops calls (snd (flush_cache pub ops input rp))"

text \<open>The publisher over any cache that keeps the contract, with any MQTT client.\<close>

locale publisher_over_cache = message_cache ops invar contents clean accepts
  for ops :: "('c, 'e) cache_ops" and invar :: "'c \<Rightarrow> bool" and contents :: "'c \<Rightarrow> cached_message list"
    and clean :: "'e \<Rightarrow> bool" and accepts :: "cached_message \<Rightarrow> bool"
begin

lemma measure_cache_effect:
  assumes "invar (rp_cache rp)" "clean e"
  shows "invar (rp_cache (measure_cache ops e rp))
    \<and> contents (rp_cache (measure_cache ops e rp)) = contents (rp_cache rp)
    \<and> rp_attempts (measure_cache ops e rp) = rp_attempts rp \<and> acked (measure_cache ops e rp) = acked rp"
  using assms load_law [of "rp_cache rp" e]
  by (auto simp: measure_cache_def acked_def split: option.split prod.split)

lemma publish_effect:
  assumes "invar (rp_cache rp)" "clean (pi_append input)" "clean (pi_load input)" "accepts (msg t p)"
    and "reliable_publish pub ops input t p rp = (status, rp')"
  shows "invar (rp_cache rp')
    \<and> acked rp' = acked rp @ (if status = Published then [msg t p] else [])
    \<and> contents (rp_cache rp') = contents (rp_cache rp) @ (if status = Deferred then [msg t p] else [])"
proof -
  obtain ok rp1 where at: "attempt pub (pi_mqtt input) (msg t p) rp = (ok, rp1)" by fastforce
  have cache: "rp_cache rp1 = rp_cache rp" and acks: "acked rp1 = acked rp @ (if ok then [msg t p] else [])"
    using attempt_effect [OF at] acked_attempt by blast+
  show ?thesis
  proof (cases ok)
    case True
    with assms(1,5) at cache acks show ?thesis by (auto simp: reliable_publish_def)
  next
    case False
    obtain stored c where ap: "cache_append ops (pi_append input) t p (rp_cache rp1) = (stored, c)" by fastforce
    then have law: "invar c \<and> contents c = (if stored then contents (rp_cache rp) @ [msg t p] else contents (rp_cache rp))"
      using append_law [of "rp_cache rp1"] assms(1,2,4) cache by simp
    let ?rp2 = "(update_metrics (record_mqtt_publish_failed 1) rp1)\<lparr>rp_cache := c\<rparr>"
    let ?rp3 = "update_metrics (record_cache_enqueue 1) ?rp2"
    have "(status, rp') = (if stored then (Deferred, measure_cache ops (pi_load input) ?rp3) else (Failed, ?rp2))"
      using assms(5) at False ap by (cases stored) (simp_all add: reliable_publish_def Let_def)
    moreover have "invar (rp_cache ?rp3)" using law by simp
    ultimately show ?thesis
      using measure_cache_effect [of ?rp3 "pi_load input"] assms(3) law acks False by (cases stored) auto
  qed
qed

lemma flush_effect:
  assumes "invar (rp_cache rp)" "clean (fi_load input)" "clean (fi_remove input)"
    and "flush_cache pub ops input rp = (n, rp')"
  shows "invar (rp_cache rp') \<and> n \<le> length (contents (rp_cache rp))
    \<and> acked rp' = acked rp @ take n (contents (rp_cache rp))
    \<and> (contents (rp_cache rp') = drop n (contents (rp_cache rp))
       \<or> contents (rp_cache rp') = contents (rp_cache rp))"
proof -
  let ?q = "contents (rp_cache rp)"
  obtain ms c where ld: "cache_load_all ops (fi_load input) (rp_cache rp) = (ms, c)" by fastforce
  have load: "invar c" "contents c = ?q" "ms = ?q \<or> ms = []"
    using load_law [OF assms(1,2) ld] by auto
  let ?rp2 = "update_metrics (set_cache_depth (of_nat (length ms)))
    ((update_metrics (record_cache_flush_attempt 1) rp)\<lparr>rp_cache := c\<rparr>)"
  show ?thesis
  proof (cases "ms = []")
    case True
    with assms(4) ld load show ?thesis by (auto simp: flush_cache_def Let_def)
  next
    case False
    obtain k rp3 where rep: "replay pub (fi_mqtt input) ms 0 ?rp2 = (k, rp3)" by fastforce
    note eff = replay_effect [OF rep]
    have acks: "acked rp3 = acked rp @ take k ?q"
      using eff load(3) False acked_attempts [of rp3 ?rp2 "take k ms"] by simp
    obtain ok c' where rm: "cache_remove_first ops (fi_remove input) k (rp_cache rp3) = (ok, c')" by fastforce
    have cache3: "rp_cache rp3 = c" using eff by simp
    have law: "invar c'" "contents c' = (if ok then drop k ?q else ?q)"
      using remove_law [OF load(1) assms(3), of k ok c'] rm cache3 load(2) by auto
    have "k \<le> length ?q" using eff load(3) False by auto
    moreover have "n = k \<and> acked rp' = acked rp3 \<and> (if k = 0 then rp_cache rp' = c else rp_cache rp' = c')"
      using assms(4) ld False rep rm cache3
      by (cases ok; cases "k = 0") (auto simp: flush_cache_def Let_def)
    ultimately show ?thesis
      using acks law load by (cases "k = 0") auto
  qed
qed

text \<open>No message is lost, and none is invented.\<close>

lemma run_publisher_keeps:
  assumes "invar (rp_cache rp)" "list_all (call_clean clean accepts) calls"
    and "run_publisher pub ops calls rp = (accepted, rp')"
  shows "invar (rp_cache rp')
    \<and> mset (contents (rp_cache rp)) + mset accepted + mset (acked rp)
        \<subseteq># mset (acked rp') + mset (contents (rp_cache rp'))
    \<and> set (acked rp') \<union> set (contents (rp_cache rp'))
        \<subseteq> set (acked rp) \<union> set (contents (rp_cache rp)) \<union> set accepted"
  using assms
proof (induction calls arbitrary: rp accepted)
  case (Cons call calls)
  show ?case
  proof (cases call)
    case (Publish input t p)
    obtain status rp1 where pu: "reliable_publish pub ops input t p rp = (status, rp1)" by fastforce
    obtain acc where rest: "run_publisher pub ops calls rp1 = (acc, rp')"
        "accepted = (if status = Failed then acc else msg t p # acc)"
      using Cons.prems(3) Publish pu by (auto split: prod.splits)
    have step: "invar (rp_cache rp1)"
      "acked rp1 = acked rp @ (if status = Published then [msg t p] else [])"
      "contents (rp_cache rp1) = contents (rp_cache rp) @ (if status = Deferred then [msg t p] else [])"
      using publish_effect [OF Cons.prems(1) _ _ _ pu] Cons.prems(2) Publish by auto
    from Cons.IH [OF step(1) _ rest(1)] Cons.prems(2) step(2,3) rest(2) show ?thesis
      by (cases status) (auto simp: ac_simps)
  next
    case (Flush input)
    obtain n rp1 where fl: "flush_cache pub ops input rp = (n, rp1)" by fastforce
    let ?q = "contents (rp_cache rp)"
    have step: "invar (rp_cache rp1)" "acked rp1 = acked rp @ take n ?q"
        "contents (rp_cache rp1) = drop n ?q \<or> contents (rp_cache rp1) = ?q"
      using flush_effect [OF Cons.prems(1) _ _ fl] Cons.prems(2) Flush by auto
    have "mset (take n ?q) + mset (drop n ?q) = mset ?q"
      by (metis append_take_drop_id mset_append)
    then have kept: "mset ?q + mset (acked rp) \<subseteq># mset (acked rp1) + mset (contents (rp_cache rp1))"
      using step(2,3) by (auto simp: ac_simps)
    have sub: "set (acked rp1) \<union> set (contents (rp_cache rp1)) \<subseteq> set (acked rp) \<union> set ?q"
      using step(2,3) by (auto dest: in_set_takeD in_set_dropD)
    have run: "run_publisher pub ops calls rp1 = (accepted, rp')"
      using Cons.prems(3) Flush fl by simp
    have ih: "invar (rp_cache rp')"
        "mset (contents (rp_cache rp1)) + mset accepted + mset (acked rp1)
           \<subseteq># mset (acked rp') + mset (contents (rp_cache rp'))"
        "set (acked rp') \<union> set (contents (rp_cache rp'))
           \<subseteq> set (acked rp1) \<union> set (contents (rp_cache rp1)) \<union> set accepted"
      using Cons.IH [OF step(1) _ run] Cons.prems(2) by auto
    have "mset ?q + mset accepted + mset (acked rp)
        \<subseteq># mset (contents (rp_cache rp1)) + mset accepted + mset (acked rp1)"
      using kept by (simp add: ac_simps)
    with ih sub show ?thesis by (blast intro: subset_mset.order_trans)
  qed
qed simp

end

end
