(* ===== verification/MqttClient.thy ===== *)
theory MqttClient
  imports Prelude
begin

text \<open>
  \<^verbatim>\<open>src/src/mqtt/mqtt_client.{h,cpp}\<close>: the MQTT client on top of the mosquitto library. The library
  is not part of the sources: its answers are arguments, the calls made to it are listed in the
  state, and its callbacks are events. A publish waits for the acknowledgement of its own message
  number; the events of the wait are those that arrive before the timeout.
\<close>

section \<open>State\<close>

record mqtt_options =
  mq_username :: string
  mq_password :: string
  mq_tls_enabled :: bool
  mq_ca_file :: string
  mq_certificate_file :: string
  mq_private_key_file :: string
  mq_tls_insecure :: bool

datatype mosquitto_call =
    LibInit | NewClient
  | UsernamePwSet string "string option"
  | TlsSet string "string option" "string option"
  | TlsInsecureSet bool
  | SetCallbacks
  | ReconnectDelaySet nat nat bool
  | ConnectAsync string u16 nat
  | LoopStart | MosqDisconnect | LoopStop bool | Destroy | LibCleanup

record mqtt_client =
  mq_host :: string
  mq_port :: u16
  mq_options :: mqtt_options
  mq_client :: bool
  mq_library_initialized :: bool
  mq_network_loop_started :: bool
  mq_connected :: bool
  mq_acknowledged :: "int set"
  mq_calls :: "mosquitto_call list"

definition mqtt_client_init :: "string \<Rightarrow> u16 \<Rightarrow> mqtt_options \<Rightarrow> mqtt_client" where
  "mqtt_client_init host port options = \<lparr>mq_host = host, mq_port = port, mq_options = options,
     mq_client = False, mq_library_initialized = False, mq_network_loop_started = False,
     mq_connected = False, mq_acknowledged = {}, mq_calls = []\<rparr>"

definition call :: "mosquitto_call \<Rightarrow> mqtt_client \<Rightarrow> mqtt_client" where
  "call a c = c\<lparr>mq_calls := mq_calls c @ [a]\<rparr>"

definition optional :: "string \<Rightarrow> string option" where
  "optional s = (if s = [] then None else Some s)"

section \<open>Initialisation\<close>

text \<open>\<open>ans a\<close> tells whether the library call \<open>a\<close> succeeds.\<close>

definition configure_security :: "(mosquitto_call \<Rightarrow> bool) \<Rightarrow> mqtt_client \<Rightarrow> bool \<times> mqtt_client" where
  "configure_security ans c0 =
     (let opt = mq_options c0;
          auth = UsernamePwSet (mq_username opt) (optional (mq_password opt));
          c1 = (if mq_username opt \<noteq> [] then call auth c0 else c0)
      in if mq_username opt \<noteq> [] \<and> \<not> ans auth then (False, c1)
         else if \<not> mq_tls_enabled opt then (True, c1)
         else let tls = TlsSet (mq_ca_file opt) (optional (mq_certificate_file opt))
                          (optional (mq_private_key_file opt));
                  c2 = call tls c1
              in if \<not> ans tls then (False, c2)
                 else let insecure = TlsInsecureSet (mq_tls_insecure opt);
                          c3 = call insecure c2
                      in (ans insecure, c3))"

definition initialize :: "(mosquitto_call \<Rightarrow> bool) \<Rightarrow> mqtt_client \<Rightarrow> bool \<times> mqtt_client" where
  "initialize ans c0 =
     (let c1 = call LibInit c0 in
      if \<not> ans LibInit then (False, c1)
      else let c2 = call NewClient (c1\<lparr>mq_library_initialized := True\<rparr>) in
      if \<not> ans NewClient then (False, c2)
      else (case configure_security ans (c2\<lparr>mq_client := True\<rparr>) of
        (False, c3) \<Rightarrow> (False, c3)
      | (True, c3) \<Rightarrow>
          let c4 = call (ReconnectDelaySet 1 30 True) (call SetCallbacks c3) in
          if \<not> ans (ReconnectDelaySet 1 30 True) then (False, c4)
          else let connect = ConnectAsync (mq_host c4) (mq_port c4) 60; c5 = call connect c4 in
          if \<not> ans connect then (False, c5)
          else let c6 = call LoopStart c5 in
          if \<not> ans LoopStart then (False, c6)
          else (True, c6\<lparr>mq_network_loop_started := True\<rparr>)))"

definition mqtt_client_new ::
  "(mosquitto_call \<Rightarrow> bool) \<Rightarrow> string \<Rightarrow> u16 \<Rightarrow> mqtt_options \<Rightarrow> mqtt_client" where
  "mqtt_client_new ans host port options = snd (initialize ans (mqtt_client_init host port options))"

definition mqtt_client_destroy :: "mqtt_client \<Rightarrow> mqtt_client" where
  "mqtt_client_destroy c0 =
     (let c1 = c0\<lparr>mq_connected := False\<rparr>;
          c2 = (if mq_client c1 then
                  let d1 = (if mq_network_loop_started c1 then call (LoopStop True) (call MosqDisconnect c1) else c1)
                  in (call Destroy d1)\<lparr>mq_client := False\<rparr>
                else c1)
      in if mq_library_initialized c2 then (call LibCleanup c2)\<lparr>mq_library_initialized := False\<rparr> else c2)"

section \<open>Callbacks and publishing\<close>

datatype mqtt_event = Connected int | Disconnected int | PubAck int

fun handle_event :: "mqtt_event \<Rightarrow> mqtt_client \<Rightarrow> mqtt_client" where
  "handle_event (Connected result_code) c = c\<lparr>mq_connected := (result_code = 0)\<rparr>"
| "handle_event (Disconnected result_code) c = c\<lparr>mq_connected := False\<rparr>"
| "handle_event (PubAck message_id) c = c\<lparr>mq_acknowledged := insert message_id (mq_acknowledged c)\<rparr>"

text \<open>\<open>wait_for\<close> with the predicate of \<open>publish\<close>: checked first and after each event; the end of the list is the timeout.\<close>

fun wait_ack :: "mqtt_event list \<Rightarrow> int \<Rightarrow> mqtt_client \<Rightarrow> mqtt_client" where
  "wait_ack [] message_id c = c"
| "wait_ack (ev # rest) message_id c =
     (if \<not> mq_connected c \<or> message_id \<in> mq_acknowledged c then c
      else wait_ack rest message_id (handle_event ev c))"

record mqtt_publish_input =
  mp_accepted :: bool
  mp_message_id :: int
  mp_events :: "mqtt_event list"

definition mqtt_publish :: "mqtt_publish_input \<Rightarrow> string \<Rightarrow> string \<Rightarrow> mqtt_client \<Rightarrow> bool \<times> mqtt_client" where
  "mqtt_publish input topic payload c0 =
     (if \<not> mq_client c0 \<or> \<not> mq_connected c0 then (False, c0)
      else if length payload > 2147483647 then (False, c0)
      else let c1 = c0\<lparr>mq_acknowledged := {}\<rparr> in
        if \<not> mp_accepted input then (False, c1)
        else let c2 = wait_ack (mp_events input) (mp_message_id input) c1 in
          if mp_message_id input \<notin> mq_acknowledged c2 then (False, c2)
          else (True, c2\<lparr>mq_acknowledged := mq_acknowledged c2 - {mp_message_id input}\<rparr>))"

definition mqtt_is_connected :: "mqtt_client \<Rightarrow> bool" where
  "mqtt_is_connected c = mq_connected c"

section \<open>Properties\<close>

text \<open>The events of the wait before the connection is lost.\<close>

fun while_connected :: "mqtt_event list \<Rightarrow> mqtt_event list" where
  "while_connected [] = []"
| "while_connected (ev # evs) =
     (case ev of
        Disconnected _ \<Rightarrow> []
      | Connected rc \<Rightarrow> if rc = 0 then ev # while_connected evs else []
      | PubAck _ \<Rightarrow> ev # while_connected evs)"

lemma wait_ack_done: "\<not> mq_connected c \<or> mid \<in> mq_acknowledged c \<Longrightarrow> wait_ack evs mid c = c"
  by (cases evs) auto

lemma wait_ack_found:
  assumes "mq_connected c"
  shows "mid \<in> mq_acknowledged (wait_ack evs mid c)
    \<longleftrightarrow> mid \<in> mq_acknowledged c \<or> PubAck mid \<in> set (while_connected evs)"
  using assms
proof (induction evs arbitrary: c)
  case (Cons ev evs)
  show ?case
  proof (cases ev)
    case (Connected rc)
    with Cons show ?thesis by (cases "rc = 0") (auto simp: wait_ack_done)
  qed (use Cons in \<open>auto simp: wait_ack_done\<close>)
qed simp


definition security_calls :: "mqtt_options \<Rightarrow> mosquitto_call list" where
  "security_calls opt =
     (if mq_username opt \<noteq> [] then [UsernamePwSet (mq_username opt) (optional (mq_password opt))] else [])
     @ (if mq_tls_enabled opt
        then [TlsSet (mq_ca_file opt) (optional (mq_certificate_file opt)) (optional (mq_private_key_file opt)),
              TlsInsecureSet (mq_tls_insecure opt)] else [])"

lemma call_simps [simp]:
  "mq_calls (call a c) = mq_calls c @ [a]" "mq_options (call a c) = mq_options c" "mq_host (call a c) = mq_host c"
  "mq_port (call a c) = mq_port c" "mq_network_loop_started (call a c) = mq_network_loop_started c"
  by (simp_all add: call_def)

lemma configure_security_calls:
  assumes "configure_security ans c = (ok, c')"
  shows "mq_host c' = mq_host c \<and> mq_port c' = mq_port c \<and> mq_network_loop_started c' = mq_network_loop_started c
    \<and> (ok \<longrightarrow> mq_calls c' = mq_calls c @ security_calls (mq_options c)
         \<and> list_all ans (security_calls (mq_options c)))"
  using assms
  by (auto simp: configure_security_def security_calls_def Let_def split: if_splits)

lemma initialize_calls:
  assumes "initialize ans (mqtt_client_init host port options) = (ok, c)" "mq_network_loop_started c"
  shows "ok \<and> mq_calls c = [LibInit, NewClient] @ security_calls options
      @ [SetCallbacks, ReconnectDelaySet 1 30 True, ConnectAsync host port 60, LoopStart]
    \<and> list_all ans (security_calls options)"
proof -
  let ?c0 = "call NewClient (call LibInit (mqtt_client_init host port options)\<lparr>mq_library_initialized := True\<rparr>)
    \<lparr>mq_client := True\<rparr>"
  obtain sec c3 where sec: "configure_security ans ?c0 = (sec, c3)" by fastforce
  have c0: "mq_options ?c0 = options" "mq_calls ?c0 = [LibInit, NewClient]" "\<not> mq_network_loop_started ?c0"
      "mq_host ?c0 = host" "mq_port ?c0 = port"
    by (simp_all add: mqtt_client_init_def call_def)
  show ?thesis
    using assms configure_security_calls [OF sec] c0 sec
    by (cases sec) (auto simp: initialize_def Let_def split: if_splits)
qed

text \<open>
  No unprotected connection. If the network loop was started, then every security setting of
  the configuration had been handed to the library and accepted before the connect call: the
  user name with its password, and with TLS the certificate files and the host name policy; a
  refused setting ends the initialisation before any connection is made.
\<close>

theorem mqtt_security_before_connect:
  assumes "mq_network_loop_started (mqtt_client_new ans host port options)"
  shows "\<exists>before after. mq_calls (mqtt_client_new ans host port options)
      = before @ [ConnectAsync host port 60] @ after
    \<and> ConnectAsync host port 60 \<notin> set before
    \<and> list_all (\<lambda>a. ans a \<and> a \<in> set before) (security_calls options)"
proof -
  obtain ok c where c: "initialize ans (mqtt_client_init host port options) = (ok, c)" by fastforce
  then have "mq_network_loop_started c" using assms by (simp add: mqtt_client_new_def)
  from initialize_calls [OF c this] show ?thesis
    by (intro exI [of _ "[LibInit, NewClient] @ security_calls options @ [SetCallbacks, ReconnectDelaySet 1 30 True]"]
        exI [of _ "[LoopStart]"])
      (auto simp: mqtt_client_new_def c list_all_iff security_calls_def)
qed

theorem mqtt_security_before_connect_witness:
  "\<exists>before after. mq_calls (mqtt_client_new (\<lambda>_. True) ''broker'' 8883
      \<lparr>mq_username = ''gw'', mq_password = ''secret'', mq_tls_enabled = True, mq_ca_file = ''ca.pem'',
       mq_certificate_file = [], mq_private_key_file = [], mq_tls_insecure = False\<rparr>)
      = before @ [ConnectAsync ''broker'' 8883 60] @ after
    \<and> ConnectAsync ''broker'' 8883 60 \<notin> set before
    \<and> list_all (\<lambda>a. True \<and> a \<in> set before) (security_calls
      \<lparr>mq_username = ''gw'', mq_password = ''secret'', mq_tls_enabled = True, mq_ca_file = ''ca.pem'',
       mq_certificate_file = [], mq_private_key_file = [], mq_tls_insecure = False\<rparr>)"
  by (rule mqtt_security_before_connect)
    (simp add: mqtt_client_new_def initialize_def configure_security_def mqtt_client_init_def Let_def)

end
