(* ===== verification/TcpClient.thy ===== *)
theory TcpClient
  imports Posix ReliablePublisher "HOL-Library.Sublist"
begin

text \<open>
  \<^verbatim>\<open>src/src/tcp/tcp_client.{h,cpp}\<close>, \<^verbatim>\<open>src/src/publisher/tcp_publisher.cpp\<close> and
  \<^verbatim>\<open>publisher_group.cpp\<close>: JSON lines over TCP, and the group that sends every reading to all
  channels. What the peer can receive on a connection is the list of characters handed to
  \<open>send\<close> on it.
\<close>

section \<open>TCP client\<close>

record tcp_client =
  tc_host :: string
  tc_port :: u16
  tc_socket :: int
  tc_stream :: string

definition tcp_client_new :: "string \<Rightarrow> u16 \<Rightarrow> tcp_client" where
  "tcp_client_new host port = \<lparr>tc_host = host, tc_port = port, tc_socket = -1, tc_stream = []\<rparr>"

definition tcp_is_connected :: "tcp_client \<Rightarrow> bool" where
  "tcp_is_connected c \<longleftrightarrow> tc_socket c \<ge> 0"

text \<open>For each address of the lookup: the descriptor of \<open>socket\<close>, if any, and whether \<open>connect\<close> works.\<close>

fun connect_first :: "(nat option \<times> bool) list \<Rightarrow> nat option" where
  "connect_first [] = None"
| "connect_first ((None, _) # rest) = connect_first rest"
| "connect_first ((Some candidate_fd, connects) # rest) =
     (if connects then Some candidate_fd else connect_first rest)"

type_synonym address_lookup = "string \<Rightarrow> string \<Rightarrow> (nat option \<times> bool) list option"

text \<open>A new connection starts with an empty stream.\<close>

definition connect_to_server :: "address_lookup \<Rightarrow> tcp_client \<Rightarrow> bool \<times> tcp_client" where
  "connect_to_server getaddrinfo c =
     (if tcp_is_connected c then (True, c)
      else (case getaddrinfo (tc_host c) (nat_to_dec (unat (tc_port c))) of
        None \<Rightarrow> (False, c)
      | Some addresses \<Rightarrow>
          (case connect_first addresses of
             None \<Rightarrow> (False, c)
           | Some n \<Rightarrow> (True, c\<lparr>tc_socket := int n, tc_stream := []\<rparr>))))"

definition tcp_disconnect :: "tcp_client \<Rightarrow> tcp_client" where
  "tcp_disconnect c = (if \<not> tcp_is_connected c then c else c\<lparr>tc_socket := -1\<rparr>)"

text \<open>The send loop over the answers of \<open>send\<close>; no result while it is still retrying.\<close>

fun send_all :: "(errno + nat) list \<Rightarrow> string \<Rightarrow> tcp_client \<Rightarrow> (bool \<times> tcp_client) option" where
  "send_all answers [] c = Some (True, c)"
| "send_all [] (b # bs) c = None"
| "send_all (Inl e # answers) (b # bs) c =
     (if e = EINTR then send_all answers (b # bs) c else Some (False, c))"
| "send_all (Inr n # answers) (b # bs) c =
     (if n = 0 then Some (False, c)
      else send_all answers (drop n (b # bs)) (c\<lparr>tc_stream := tc_stream c @ take n (b # bs)\<rparr>))"

record tcp_send_input =
  ts_lookup :: address_lookup
  ts_sends :: "(errno + nat) list"

definition send_json :: "tcp_send_input \<Rightarrow> string \<Rightarrow> tcp_client \<Rightarrow> (bool \<times> tcp_client) option" where
  "send_json input json c0 =
     (case (if tcp_is_connected c0 then (True, c0) else connect_to_server (ts_lookup input) c0) of
        (False, c1) \<Rightarrow> Some (False, c1)
      | (True, c1) \<Rightarrow>
          (case send_all (ts_sends input) (json @ [newline]) c1 of
             None \<Rightarrow> None
           | Some (False, c2) \<Rightarrow> Some (False, tcp_disconnect c2)
           | Some (True, c2) \<Rightarrow> Some (True, c2)))"

definition tcp_publish ::
  "tcp_send_input \<Rightarrow> string \<Rightarrow> string \<Rightarrow> tcp_client \<Rightarrow> (PublishStatus \<times> tcp_client) option" where
  "tcp_publish input topic payload c =
     map_option (\<lambda>(ok, c'). (if ok then Published else Failed, c')) (send_json input payload c)"

section \<open>Lines on the connection\<close>

lemma send_all_effect:
  assumes "send_all answers bytes c = Some (ok, c')"
  shows "tc_socket c' = tc_socket c \<and> tc_host c' = tc_host c \<and> tc_port c' = tc_port c
    \<and> (\<exists>sent. prefix sent bytes \<and> tc_stream c' = tc_stream c @ sent \<and> (ok \<longrightarrow> sent = bytes))"
  using assms
proof (induction answers bytes c rule: send_all.induct)
  case (4 n answers b bs c)
  show ?case
  proof (cases "n = 0")
    case True
    with 4 show ?thesis by simp
  next
    case False
    let ?c = "c\<lparr>tc_stream := tc_stream c @ take n (b # bs)\<rparr>"
    from 4 False obtain sent where sent: "tc_socket c' = tc_socket c" "tc_host c' = tc_host c" "tc_port c' = tc_port c"
        "prefix sent (drop n (b # bs))" "tc_stream c' = tc_stream c @ take n (b # bs) @ sent"
        "ok \<longrightarrow> sent = drop n (b # bs)"
      by auto
    have pieces: "take n (b # bs) @ drop n (b # bs) = b # bs" by (rule append_take_drop_id)
    have "prefix (take n (b # bs) @ sent) (take n (b # bs) @ drop n (b # bs))"
      using sent(4) by (simp only: same_prefix_prefix)
    then have "prefix (take n (b # bs) @ sent) (b # bs)" unfolding pieces .
    moreover have "ok \<longrightarrow> take n (b # bs) @ sent = b # bs" using sent(6) pieces by blast
    ultimately show ?thesis
      using sent by (intro conjI exI [of _ "take n (b # bs) @ sent"]) auto
  qed
qed (auto split: if_splits)

lemma connect_effect:
  assumes "connect_to_server g c = (ok, c')"
  shows "(ok \<longleftrightarrow> tcp_is_connected c') \<and> (if tcp_is_connected c then c' = c \<and> ok
    else if ok then tc_stream c' = [] else c' = c)"
  using assms
  by (auto simp: connect_to_server_def tcp_is_connected_def split: if_splits option.splits)

text \<open>
  One message: after success the connection is open and its stream has grown by exactly one
  complete line; after failure the connection is closed, so a line that went out in part is the
  last thing on its connection.
\<close>

lemma send_json_effect:
  assumes "send_json input json c = Some (ok, c')"
  shows "ok = tcp_is_connected c'
    \<and> (ok \<longrightarrow> tc_stream c' = (if tcp_is_connected c then tc_stream c else []) @ line_of json)
    \<and> (tcp_is_connected c \<longrightarrow> \<not> ok \<longrightarrow> (\<exists>part. prefix part (line_of json) \<and> tc_stream c' = tc_stream c @ part))"
proof -
  obtain conn c1 where c1: "(if tcp_is_connected c then (True, c) else connect_to_server (ts_lookup input) c) = (conn, c1)"
    by fastforce
  have open1: "conn = tcp_is_connected c1 \<and> (if tcp_is_connected c then c1 = c else conn \<longrightarrow> tc_stream c1 = [])"
    using c1 connect_effect [of "ts_lookup input" c conn c1] by (auto split: if_splits)
  show ?thesis
  proof (cases conn)
    case False
    with assms c1 open1 show ?thesis by (auto simp: send_json_def split: if_splits)
  next
    case True
    then obtain sent c2 where "send_all (ts_sends input) (json @ [newline]) c1 = Some (sent, c2)"
        "c' = (if sent then c2 else tcp_disconnect c2)" "ok = sent"
      using assms c1 by (auto simp: send_json_def split: option.splits bool.splits)
    with send_all_effect [of "ts_sends input" "json @ [newline]" c1 sent c2] open1 True show ?thesis
      by (auto simp: tcp_is_connected_def tcp_disconnect_def line_of_def split: if_splits)
  qed
qed

lemma send_all_returns:
  assumes "length bytes \<le> length (filter (\<lambda>a. a \<noteq> Inl EINTR) answers)"
  shows "\<exists>r. send_all answers bytes c = Some r"
  using assms by (induction answers bytes c rule: send_all.induct) auto

fun send_lines :: "tcp_send_input list \<Rightarrow> string list \<Rightarrow> tcp_client \<Rightarrow> (bool list \<times> tcp_client) option" where
  "send_lines (i # is) (j # js) c =
     (case send_json i j c of
        None \<Rightarrow> None
      | Some (ok, c1) \<Rightarrow> map_option (\<lambda>(oks, c2). (ok # oks, c2)) (send_lines is js c1))"
| "send_lines _ _ c = Some ([], c)"

text \<open>The messages that went out on the connection now open: those since the last failure.\<close>

fun since_failure :: "bool list \<Rightarrow> string list \<Rightarrow> string list \<Rightarrow> string list" where
  "since_failure (ok # oks) (j # js) acc = since_failure oks js (if ok then acc @ [j] else [])"
| "since_failure _ _ acc = acc"

lemma send_lines_stream:
  assumes "send_lines is js c = Some (oks, c')" and "tcp_is_connected c \<longrightarrow> tc_stream c = text_of_lines acc"
    and "\<not> tcp_is_connected c \<longrightarrow> acc = []"
  shows "tcp_is_connected c' \<longrightarrow> tc_stream c' = text_of_lines (since_failure oks js acc)"
  using assms
proof (induction "is" js c arbitrary: oks acc rule: send_lines.induct)
  case (1 i "is" j js c)
  obtain ok c1 where step: "send_json i j c = Some (ok, c1)"
    using "1.prems"(1) by (auto split: option.splits)
  obtain oks' where rest: "send_lines is js c1 = Some (oks', c')" "oks = ok # oks'"
    using "1.prems"(1) step by auto
  note eff = send_json_effect [OF step]
  have "tcp_is_connected c1 \<longrightarrow> tc_stream c1 = text_of_lines (if ok then acc @ [j] else [])"
    using eff "1.prems"(2,3) by (auto simp: line_of_def split: if_splits)
  moreover have "\<not> tcp_is_connected c1 \<longrightarrow> (if ok then acc @ [j] else []) = []"
    using eff by simp
  ultimately show ?case
    using "1.IH" [OF step refl rest(1)] rest(2) by simp
qed auto

text \<open>
  C29: framing on the TCP channel. After any sequence of messages without line breaks, with any
  failures, reconnects and splitting by the system, the peer of the open connection reads line by
  line exactly the messages sent since the last failure, in order, complete and once each.
\<close>

theorem tcp_lines_exact:
  assumes "send_lines is js (tcp_client_new host port) = Some (oks, c)" and "tcp_is_connected c"
    and "list_all (\<lambda>j. newline \<notin> set j) js"
  shows "getlines [] (tc_stream c) = since_failure oks js []"
proof -
  have "tc_stream c = text_of_lines (since_failure oks js [])"
    using send_lines_stream [OF assms(1), of "[]"] assms(2)
    by (simp add: tcp_client_new_def tcp_is_connected_def)
  moreover have "set (since_failure oks js acc) \<subseteq> set js \<union> set acc" for acc
    by (induction oks js acc rule: since_failure.induct) (auto split: if_splits)
  then have "set (since_failure oks js []) \<subseteq> set js" by (metis list.set(1) sup_bot_right)
  then have "list_all (\<lambda>l. newline \<notin> set l) (since_failure oks js [])"
    using assms(3) by (auto simp: list_all_iff)
  ultimately show ?thesis by (simp add: getlines_all)
qed

definition example_send :: tcp_send_input where
  "example_send = \<lparr>ts_lookup = (\<lambda>_ _. Some [(Some 5, True)]), ts_sends = [Inl EINTR, Inr 2, Inr 9]\<rparr>"

theorem tcp_lines_exact_witness:
  "\<exists>oks c. send_lines [example_send, example_send] [''{1}'', ''{2}''] (tcp_client_new ''host'' 9000) = Some (oks, c)
    \<and> getlines [] (tc_stream c) = [''{1}'', ''{2}'']"
proof -
  obtain c where run: "send_lines [example_send, example_send] [''{1}'', ''{2}''] (tcp_client_new ''host'' 9000)
      = Some ([True, True], c)" and conn: "tcp_is_connected c"
    by (auto simp: example_send_def tcp_client_new_def send_json_def connect_to_server_def tcp_is_connected_def)
  have "list_all (\<lambda>j. newline \<notin> set j) [''{1}'', ''{2}'']" by (simp add: newline_def)
  from tcp_lines_exact [OF run conn this] run show ?thesis by auto
qed

section \<open>The publisher group\<close>

text \<open>
  The group over the two kinds of publishers of the gateway. Each member is asked in turn,
  whatever the result of the others.
\<close>

record publish_outcome =
  po_channel :: string
  po_status :: PublishStatus

record ('p, 'q) publisher_vtable =
  pv_channel :: "'p \<Rightarrow> string"
  pv_publish :: "'q \<Rightarrow> string \<Rightarrow> string \<Rightarrow> 'p \<Rightarrow> (PublishStatus \<times> 'p) option"

definition group_add :: "'p \<Rightarrow> 'p list \<Rightarrow> 'p list" where
  "group_add p ps = ps @ [p]"

fun group_publish ::
  "('p, 'q) publisher_vtable \<Rightarrow> 'q list \<Rightarrow> string \<Rightarrow> string \<Rightarrow> 'p list
    \<Rightarrow> (publish_outcome list \<times> 'p list) option" where
  "group_publish vt (q # qs) topic payload (p # ps) =
     (case pv_publish vt q topic payload p of
        None \<Rightarrow> None
      | Some (status, p') \<Rightarrow>
          map_option (\<lambda>(outs, ps'). (\<lparr>po_channel = pv_channel vt p, po_status = status\<rparr> # outs, p' # ps'))
            (group_publish vt qs topic payload ps))"
| "group_publish vt qs topic payload [] = Some ([], [])"
| "group_publish vt [] topic payload (p # ps) = None"

definition group_size :: "'p list \<Rightarrow> nat" where
  "group_size ps = length ps"

lemma group_publish_independent:
  assumes "group_publish vt qs topic payload ps = Some (outs, ps')"
  shows "length outs = length ps \<and> length ps' = length ps
    \<and> (\<forall>n<length ps. pv_publish vt (qs ! n) topic payload (ps ! n) = Some (po_status (outs ! n), ps' ! n)
        \<and> po_channel (outs ! n) = pv_channel vt (ps ! n))"
  using assms
proof (induction vt qs topic payload ps arbitrary: outs ps' rule: group_publish.induct)
  case (1 vt q qs topic payload p ps)
  then show ?case by (auto simp: nth_Cons less_Suc_eq_0_disj split: option.splits)
qed auto

end
