(* ===== verification/GatewayConfig.thy ===== *)
theory GatewayConfig
  imports Prelude
begin

text \<open>
  \<^verbatim>\<open>src/src/config/gateway_config.{h,cpp}\<close>: reading and checking the configuration. The YAML library
  is not part of the sources: its node operations are the fields of a record argument, each able to
  raise an exception (\<open>Inl\<close> with the text of \<open>what()\<close>); so is \<open>inet_pton\<close>. A rejected
  configuration is an error value, and the partly filled output parameter is dropped, as the caller
  does not use it after a failure.
\<close>

section \<open>Configuration data\<close>

record serial_config =
  sc_devices :: "string list"
  sc_baud_rate :: int
  sc_reconnect_interval_seconds :: int

record modbus_config =
  mc_enabled :: bool
  mc_port :: string
  mc_baud_rate :: int
  mc_slave_id :: u8
  mc_function_code :: u8
  mc_start_address :: u16
  mc_register_count :: u16
  mc_poll_interval_ms :: int
  mc_response_timeout_ms :: int

record can_config =
  cc_enabled :: bool
  cc_interface :: string
  cc_heartbeat_timeout_seconds :: int

record mqtt_tls_config =
  tls_enabled :: bool
  tls_ca_file :: string
  tls_certificate_file :: string
  tls_private_key_file :: string
  tls_insecure :: bool

record mqtt_config =
  qc_host :: string
  qc_port :: u16
  qc_topic_prefix :: string
  qc_cache_retry_interval_seconds :: int
  qc_username :: string
  qc_password :: string
  qc_tls :: mqtt_tls_config

record tcp_config =
  tcpc_enabled :: bool
  tcpc_host :: string
  tcpc_port :: u16

record http_config =
  hc_enabled :: bool
  hc_host :: string
  hc_port :: u16

record cache_config =
  cache_type :: string
  cache_path :: string

record log_config =
  log_path :: string
  log_level :: string

record gateway_config =
  cfg_serial :: serial_config
  cfg_modbus :: modbus_config
  cfg_can :: can_config
  cfg_mqtt :: mqtt_config
  cfg_tcp :: tcp_config
  cfg_http :: http_config
  cfg_cache :: cache_config
  cfg_log :: log_config

definition default_config :: gateway_config where
  "default_config = \<lparr>
     cfg_serial = \<lparr>sc_devices = [''/tmp/tty_gateway''], sc_baud_rate = 115200, sc_reconnect_interval_seconds = 2\<rparr>,
     cfg_modbus = \<lparr>mc_enabled = False, mc_port = ''/dev/ttyUSB0'', mc_baud_rate = 115200, mc_slave_id = 1,
       mc_function_code = 3, mc_start_address = 0, mc_register_count = 6, mc_poll_interval_ms = 1000,
       mc_response_timeout_ms = 500\<rparr>,
     cfg_can = \<lparr>cc_enabled = False, cc_interface = ''can0'', cc_heartbeat_timeout_seconds = 5\<rparr>,
     cfg_mqtt = \<lparr>qc_host = ''localhost'', qc_port = 1883, qc_topic_prefix = ''sensor'',
       qc_cache_retry_interval_seconds = 5, qc_username = [], qc_password = [],
       qc_tls = \<lparr>tls_enabled = False, tls_ca_file = [], tls_certificate_file = [],
         tls_private_key_file = [], tls_insecure = False\<rparr>\<rparr>,
     cfg_tcp = \<lparr>tcpc_enabled = True, tcpc_host = ''127.0.0.1'', tcpc_port = 9000\<rparr>,
     cfg_http = \<lparr>hc_enabled = False, hc_host = ''127.0.0.1'', hc_port = 8080\<rparr>,
     cfg_cache = \<lparr>cache_type = ''sqlite'', cache_path = ''data/pending_messages.db''\<rparr>,
     cfg_log = \<lparr>log_path = ''logs/gateway.log'', log_level = ''DEBUG''\<rparr>\<rparr>"

section \<open>The YAML interface\<close>

record 'n yaml_api =
  yaml_load_file :: "string \<Rightarrow> string + 'n"
  yaml_is_map :: "'n \<Rightarrow> bool"
  yaml_is_sequence :: "'n \<Rightarrow> bool"
  yaml_get :: "'n \<Rightarrow> string \<Rightarrow> string + 'n option"
  yaml_bool :: "'n \<Rightarrow> string + bool"
  yaml_int :: "'n \<Rightarrow> string + int"
  yaml_string :: "'n \<Rightarrow> string + string"
  yaml_strings :: "'n \<Rightarrow> string + string list"

datatype config_error = YamlException string | Rejected string

fun config_error_message :: "config_error \<Rightarrow> string" where
  "config_error_message (YamlException what) = ''YAML error: '' @ what"
| "config_error_message (Rejected message) = message"

definition bind_sum :: "'e + 'a \<Rightarrow> ('a \<Rightarrow> 'e + 'b) \<Rightarrow> 'e + 'b" where
  "bind_sum x f = (case x of Inl e \<Rightarrow> Inl e | Inr a \<Rightarrow> f a)"

definition raising :: "string + 'a \<Rightarrow> config_error + 'a" where
  "raising x = (case x of Inl what \<Rightarrow> Inl (YamlException what) | Inr a \<Rightarrow> Inr a)"

definition reject_if :: "bool \<Rightarrow> string \<Rightarrow> config_error + unit" where
  "reject_if condition message = (if condition then Inl (Rejected message) else Inr ())"

definition load_if_present :: "'n yaml_api \<Rightarrow> ('n \<Rightarrow> string + 'a) \<Rightarrow> 'n \<Rightarrow> string \<Rightarrow> 'a \<Rightarrow> config_error + 'a" where
  "load_if_present y as node key old =
     bind_sum (raising (yaml_get y node key)) (\<lambda>found.
       case found of None \<Rightarrow> Inr old | Some child \<Rightarrow> raising (as child))"

text \<open>A section is loaded when it is present.\<close>

definition with_section ::
  "'n yaml_api \<Rightarrow> 'n \<Rightarrow> string \<Rightarrow> ('n \<Rightarrow> 'a \<Rightarrow> config_error + 'a) \<Rightarrow> 'a \<Rightarrow> config_error + 'a" where
  "with_section y node key load old =
     bind_sum (raising (yaml_get y node key)) (\<lambda>found.
       case found of None \<Rightarrow> Inr old | Some child \<Rightarrow> load child old)"

lemma bind_sum_Inr_iff [simp]:
  "bind_sum x f = Inr b \<longleftrightarrow> (\<exists>a. x = Inr a \<and> f a = Inr b)"
  by (cases x) (simp_all add: bind_sum_def)

lemma bind_sum_simps [simp]: "bind_sum (Inr a) f = f a" "bind_sum (Inl e) f = Inl e"
  by (simp_all add: bind_sum_def)

lemma reject_if_Inr [simp]: "reject_if c m = Inr u \<longleftrightarrow> \<not> c"
  by (simp add: reject_if_def)

lemma raising_Inr [simp]: "raising x = Inr a \<longleftrightarrow> x = Inr a"
  by (cases x) (simp_all add: raising_def)

section \<open>Sections\<close>

definition load_serial_devices :: "'n yaml_api \<Rightarrow> 'n \<Rightarrow> string list \<Rightarrow> config_error + string list" where
  "load_serial_devices y serial old =
     bind_sum (raising (yaml_get y serial ''devices'')) (\<lambda>found.
       case found of
         Some devices \<Rightarrow>
           bind_sum (reject_if (\<not> yaml_is_sequence y devices) ''serial.devices must be a YAML sequence'')
             (\<lambda>_. raising (yaml_strings y devices))
       | None \<Rightarrow>
           bind_sum (raising (yaml_get y serial ''device'')) (\<lambda>found'.
             case found' of
               Some device \<Rightarrow> bind_sum (raising (yaml_string y device)) (\<lambda>d. Inr [d])
             | None \<Rightarrow> Inr old))"

definition load_serial :: "'n yaml_api \<Rightarrow> 'n \<Rightarrow> serial_config \<Rightarrow> config_error + serial_config" where
  "load_serial y serial c =
     bind_sum (load_serial_devices y serial (sc_devices c)) (\<lambda>devices.
     bind_sum (load_if_present y (yaml_int y) serial ''baud_rate'' (sc_baud_rate c)) (\<lambda>baud.
     bind_sum (load_if_present y (yaml_int y) serial ''reconnect_interval_seconds''
                 (sc_reconnect_interval_seconds c)) (\<lambda>interval.
     Inr \<lparr>sc_devices = devices, sc_baud_rate = baud, sc_reconnect_interval_seconds = interval\<rparr>)))"

definition load_modbus :: "'n yaml_api \<Rightarrow> 'n \<Rightarrow> modbus_config \<Rightarrow> config_error + modbus_config" where
  "load_modbus y modbus c =
     bind_sum (load_if_present y (yaml_bool y) modbus ''enabled'' (mc_enabled c)) (\<lambda>enabled.
     bind_sum (load_if_present y (yaml_string y) modbus ''port'' (mc_port c)) (\<lambda>port.
     bind_sum (load_if_present y (yaml_int y) modbus ''baud_rate'' (mc_baud_rate c)) (\<lambda>baud1.
     bind_sum (load_if_present y (yaml_int y) modbus ''baudrate'' baud1) (\<lambda>baud.
     bind_sum (load_if_present y (yaml_int y) modbus ''slave_id'' (uint (mc_slave_id c))) (\<lambda>slave_id.
     bind_sum (load_if_present y (yaml_int y) modbus ''function_code'' (uint (mc_function_code c))) (\<lambda>function_code.
     bind_sum (load_if_present y (yaml_int y) modbus ''start_address'' (uint (mc_start_address c))) (\<lambda>start_address.
     bind_sum (load_if_present y (yaml_int y) modbus ''register_count'' (uint (mc_register_count c))) (\<lambda>register_count.
     bind_sum (load_if_present y (yaml_int y) modbus ''poll_interval_ms'' (mc_poll_interval_ms c)) (\<lambda>poll.
     bind_sum (load_if_present y (yaml_int y) modbus ''response_timeout_ms'' (mc_response_timeout_ms c)) (\<lambda>timeout.
     bind_sum (reject_if (slave_id < 1 \<or> slave_id > 247) ''modbus.slave_id must be between 1 and 247'') (\<lambda>_.
     bind_sum (reject_if (function_code \<noteq> 3 \<and> function_code \<noteq> 4) ''modbus.function_code must be 3 or 4'') (\<lambda>_.
     bind_sum (reject_if (start_address < 0 \<or> start_address > 65535
                 \<or> register_count < 1 \<or> register_count > 125) ''Modbus register range is invalid'') (\<lambda>_.
     Inr \<lparr>mc_enabled = enabled, mc_port = port, mc_baud_rate = baud, mc_slave_id = word_of_int slave_id,
          mc_function_code = word_of_int function_code, mc_start_address = word_of_int start_address,
          mc_register_count = word_of_int register_count, mc_poll_interval_ms = poll,
          mc_response_timeout_ms = timeout\<rparr>)))))))))))))"

definition load_can :: "'n yaml_api \<Rightarrow> 'n \<Rightarrow> can_config \<Rightarrow> config_error + can_config" where
  "load_can y can c =
     bind_sum (load_if_present y (yaml_bool y) can ''enabled'' (cc_enabled c)) (\<lambda>enabled.
     bind_sum (load_if_present y (yaml_string y) can ''interface'' (cc_interface c)) (\<lambda>name.
     bind_sum (load_if_present y (yaml_int y) can ''heartbeat_timeout_seconds''
                 (cc_heartbeat_timeout_seconds c)) (\<lambda>heartbeat.
     Inr \<lparr>cc_enabled = enabled, cc_interface = name, cc_heartbeat_timeout_seconds = heartbeat\<rparr>)))"

definition load_tls :: "'n yaml_api \<Rightarrow> 'n \<Rightarrow> mqtt_tls_config \<Rightarrow> config_error + mqtt_tls_config" where
  "load_tls y tls c =
     bind_sum (load_if_present y (yaml_bool y) tls ''enabled'' (tls_enabled c)) (\<lambda>enabled.
     bind_sum (load_if_present y (yaml_string y) tls ''ca_file'' (tls_ca_file c)) (\<lambda>ca.
     bind_sum (load_if_present y (yaml_string y) tls ''certificate_file'' (tls_certificate_file c)) (\<lambda>cert.
     bind_sum (load_if_present y (yaml_string y) tls ''private_key_file'' (tls_private_key_file c)) (\<lambda>key.
     bind_sum (load_if_present y (yaml_bool y) tls ''insecure'' (tls_insecure c)) (\<lambda>insecure.
     Inr \<lparr>tls_enabled = enabled, tls_ca_file = ca, tls_certificate_file = cert,
          tls_private_key_file = key, tls_insecure = insecure\<rparr>)))))"

definition load_mqtt :: "'n yaml_api \<Rightarrow> 'n \<Rightarrow> mqtt_config \<Rightarrow> config_error + mqtt_config" where
  "load_mqtt y mqtt c =
     bind_sum (load_if_present y (yaml_string y) mqtt ''host'' (qc_host c)) (\<lambda>host.
     bind_sum (load_if_present y (yaml_int y) mqtt ''port'' (uint (qc_port c))) (\<lambda>port.
     bind_sum (reject_if (port < 1 \<or> port > 65535) ''mqtt.port must be between 1 and 65535'') (\<lambda>_.
     bind_sum (load_if_present y (yaml_string y) mqtt ''topic_prefix'' (qc_topic_prefix c)) (\<lambda>topic.
     bind_sum (load_if_present y (yaml_int y) mqtt ''cache_retry_interval_seconds''
                 (qc_cache_retry_interval_seconds c)) (\<lambda>retry.
     bind_sum (load_if_present y (yaml_string y) mqtt ''username'' (qc_username c)) (\<lambda>user.
     bind_sum (load_if_present y (yaml_string y) mqtt ''password'' (qc_password c)) (\<lambda>password.
     bind_sum (with_section y mqtt ''tls'' (load_tls y) (qc_tls c)) (\<lambda>tls.
     Inr \<lparr>qc_host = host, qc_port = word_of_int port, qc_topic_prefix = topic,
          qc_cache_retry_interval_seconds = retry, qc_username = user, qc_password = password,
          qc_tls = tls\<rparr>))))))))"

definition load_tcp :: "'n yaml_api \<Rightarrow> 'n \<Rightarrow> tcp_config \<Rightarrow> config_error + tcp_config" where
  "load_tcp y tcp c =
     bind_sum (load_if_present y (yaml_bool y) tcp ''enabled'' (tcpc_enabled c)) (\<lambda>enabled.
     bind_sum (load_if_present y (yaml_string y) tcp ''host'' (tcpc_host c)) (\<lambda>host.
     bind_sum (load_if_present y (yaml_int y) tcp ''port'' (uint (tcpc_port c))) (\<lambda>port.
     bind_sum (reject_if (port < 1 \<or> port > 65535) ''tcp.port must be between 1 and 65535'') (\<lambda>_.
     Inr \<lparr>tcpc_enabled = enabled, tcpc_host = host, tcpc_port = word_of_int port\<rparr>))))"

definition load_http :: "'n yaml_api \<Rightarrow> 'n \<Rightarrow> http_config \<Rightarrow> config_error + http_config" where
  "load_http y http c =
     bind_sum (reject_if (\<not> yaml_is_map y http) ''http must be a YAML map'') (\<lambda>_.
     bind_sum (load_if_present y (yaml_bool y) http ''enabled'' (hc_enabled c)) (\<lambda>enabled.
     bind_sum (load_if_present y (yaml_string y) http ''host'' (hc_host c)) (\<lambda>host.
     bind_sum (load_if_present y (yaml_int y) http ''port'' (uint (hc_port c))) (\<lambda>port.
     bind_sum (reject_if (port < 1 \<or> port > 65535) ''http.port must be between 1 and 65535'') (\<lambda>_.
     Inr \<lparr>hc_enabled = enabled, hc_host = host, hc_port = word_of_int port\<rparr>)))))"

text \<open>\<open>std::tolower\<close> and \<open>std::toupper\<close> in the C locale.\<close>

definition lower_char :: "char \<Rightarrow> char" where
  "lower_char c = (if 65 \<le> (of_char c :: nat) \<and> (of_char c :: nat) \<le> 90 then char_of (of_char c + 32 :: nat) else c)"

definition upper_char :: "char \<Rightarrow> char" where
  "upper_char c = (if 97 \<le> (of_char c :: nat) \<and> (of_char c :: nat) \<le> 122 then char_of (of_char c - 32 :: nat) else c)"

definition lowercase :: "string \<Rightarrow> string" where "lowercase s = map lower_char s"
definition uppercase :: "string \<Rightarrow> string" where "uppercase s = map upper_char s"

definition load_cache :: "'n yaml_api \<Rightarrow> 'n \<Rightarrow> cache_config \<Rightarrow> config_error + cache_config" where
  "load_cache y cache c =
     bind_sum (load_if_present y (yaml_string y) cache ''type'' (cache_type c)) (\<lambda>type.
     bind_sum (load_if_present y (yaml_string y) cache ''path'' (cache_path c)) (\<lambda>path.
     Inr \<lparr>cache_type = lowercase type, cache_path = path\<rparr>))"

definition load_log :: "'n yaml_api \<Rightarrow> 'n \<Rightarrow> log_config \<Rightarrow> config_error + log_config" where
  "load_log y log c =
     bind_sum (load_if_present y (yaml_string y) log ''path'' (log_path c)) (\<lambda>path.
     bind_sum (load_if_present y (yaml_string y) log ''level'' (log_level c)) (\<lambda>level.
     Inr \<lparr>log_path = path, log_level = uppercase level\<rparr>))"

section \<open>Checks\<close>

definition is_supported_baud_rate :: "int \<Rightarrow> bool" where
  "is_supported_baud_rate baud_rate \<longleftrightarrow> baud_rate = 9600 \<or> baud_rate = 19200 \<or> baud_rate = 38400
     \<or> baud_rate = 57600 \<or> baud_rate = 115200"

definition is_valid_log_level :: "string \<Rightarrow> bool" where
  "is_valid_log_level level \<longleftrightarrow> level = ''DEBUG'' \<or> level = ''INFO'' \<or> level = ''WARN'' \<or> level = ''ERROR''"

definition is_valid_http_host :: "(string \<Rightarrow> bool) \<Rightarrow> string \<Rightarrow> bool" where
  "is_valid_http_host inet_pton host \<longleftrightarrow> (if host = ''localhost'' then True else inet_pton host)"

text \<open>The loop over the serial devices with the set of paths seen so far.\<close>

fun check_devices :: "string set \<Rightarrow> string list \<Rightarrow> config_error + unit" where
  "check_devices seen [] = Inr ()"
| "check_devices seen (device # rest) =
     bind_sum (reject_if (device = []) ''serial device path must not be empty'') (\<lambda>_.
     bind_sum (reject_if (device \<in> seen) ''serial.devices must not contain duplicates'') (\<lambda>_.
     check_devices (insert device seen) rest))"

definition check_inputs :: "gateway_config \<Rightarrow> config_error + unit" where
  "check_inputs cfg =
     bind_sum (check_devices {} (sc_devices (cfg_serial cfg))) (\<lambda>_.
     bind_sum (reject_if (\<not> is_supported_baud_rate (sc_baud_rate (cfg_serial cfg)))
                 ''serial.baud_rate is not supported'') (\<lambda>_.
     bind_sum (reject_if (sc_reconnect_interval_seconds (cfg_serial cfg) < 1)
                 ''serial reconnect interval must be positive'') (\<lambda>_.
     bind_sum (if mc_enabled (cfg_modbus cfg) then
                 bind_sum (reject_if (mc_port (cfg_modbus cfg) = [])
                             ''modbus.port must not be empty when enabled'') (\<lambda>_.
                 bind_sum (reject_if (\<not> is_supported_baud_rate (mc_baud_rate (cfg_modbus cfg)))
                             ''modbus.baud_rate is not supported'') (\<lambda>_.
                 reject_if (mc_poll_interval_ms (cfg_modbus cfg) < 1 \<or> mc_response_timeout_ms (cfg_modbus cfg) < 1)
                   ''Modbus timing values must be positive''))
               else Inr ()) (\<lambda>_.
     bind_sum (reject_if (cc_enabled (cfg_can cfg) \<and> cc_interface (cfg_can cfg) = [])
                 ''can.interface must not be empty when enabled'') (\<lambda>_.
     bind_sum (reject_if (cc_heartbeat_timeout_seconds (cfg_can cfg) < 1)
                 ''can.heartbeat_timeout_seconds must be positive'') (\<lambda>_.
     reject_if (sc_devices (cfg_serial cfg) = [] \<and> \<not> mc_enabled (cfg_modbus cfg) \<and> \<not> cc_enabled (cfg_can cfg))
       ''at least one input source must be enabled''))))))"

definition check_mqtt :: "mqtt_config \<Rightarrow> config_error + unit" where
  "check_mqtt q =
     bind_sum (reject_if (qc_host q = []) ''mqtt.host must not be empty'') (\<lambda>_.
     bind_sum (reject_if (qc_topic_prefix q = []) ''mqtt.topic_prefix must not be empty'') (\<lambda>_.
     bind_sum (reject_if (qc_cache_retry_interval_seconds q < 1) ''mqtt cache retry interval must be positive'') (\<lambda>_.
     bind_sum (reject_if (qc_username q = [] \<and> qc_password q \<noteq> []) ''mqtt.password requires mqtt.username'') (\<lambda>_.
     bind_sum (reject_if (tls_enabled (qc_tls q) \<and> tls_ca_file (qc_tls q) = [])
                 ''mqtt.tls.ca_file is required when TLS is enabled'') (\<lambda>_.
     bind_sum (reject_if ((tls_certificate_file (qc_tls q) \<noteq> []) \<noteq> (tls_private_key_file (qc_tls q) \<noteq> []))
                 ''MQTT TLS client certificate and private key must be configured together'') (\<lambda>_.
     reject_if (\<not> tls_enabled (qc_tls q) \<and> tls_insecure (qc_tls q))
       ''mqtt.tls.insecure requires TLS to be enabled''))))))"

definition check_outputs :: "(string \<Rightarrow> bool) \<Rightarrow> gateway_config \<Rightarrow> config_error + unit" where
  "check_outputs inet_pton cfg =
     bind_sum (reject_if (tcpc_enabled (cfg_tcp cfg) \<and> tcpc_host (cfg_tcp cfg) = [])
                 ''tcp.host must not be empty when TCP is enabled'') (\<lambda>_.
     bind_sum (reject_if (hc_host (cfg_http cfg) = []) ''http.host must not be empty'') (\<lambda>_.
     bind_sum (reject_if (hc_enabled (cfg_http cfg) \<and> \<not> is_valid_http_host inet_pton (hc_host (cfg_http cfg)))
                 ''http.host must be localhost or an IPv4 address'') (\<lambda>_.
     bind_sum (reject_if (cache_path (cfg_cache cfg) = []) ''cache.path must not be empty'') (\<lambda>_.
     bind_sum (reject_if (cache_type (cfg_cache cfg) \<noteq> ''sqlite'' \<and> cache_type (cfg_cache cfg) \<noteq> ''file'')
                 ''cache.type must be sqlite or file'') (\<lambda>_.
     bind_sum (reject_if (log_path (cfg_log cfg) = []) ''log.path must not be empty'') (\<lambda>_.
     reject_if (\<not> is_valid_log_level (log_level (cfg_log cfg)))
       ''log.level must be DEBUG, INFO, WARN or ERROR''))))))"

section \<open>Loading\<close>

definition load_sections :: "'n yaml_api \<Rightarrow> 'n \<Rightarrow> gateway_config \<Rightarrow> config_error + gateway_config" where
  "load_sections y root c =
     bind_sum (with_section y root ''serial'' (load_serial y) (cfg_serial c)) (\<lambda>serial.
     bind_sum (with_section y root ''modbus'' (load_modbus y) (cfg_modbus c)) (\<lambda>modbus.
     bind_sum (with_section y root ''can'' (load_can y) (cfg_can c)) (\<lambda>can.
     bind_sum (with_section y root ''mqtt'' (load_mqtt y) (cfg_mqtt c)) (\<lambda>mqtt.
     bind_sum (with_section y root ''tcp'' (load_tcp y) (cfg_tcp c)) (\<lambda>tcp.
     bind_sum (with_section y root ''http'' (load_http y) (cfg_http c)) (\<lambda>http.
     bind_sum (with_section y root ''cache'' (load_cache y) (cfg_cache c)) (\<lambda>cache.
     bind_sum (with_section y root ''log'' (load_log y) (cfg_log c)) (\<lambda>log.
     Inr \<lparr>cfg_serial = serial, cfg_modbus = modbus, cfg_can = can, cfg_mqtt = mqtt, cfg_tcp = tcp,
          cfg_http = http, cfg_cache = cache, cfg_log = log\<rparr>))))))))"

definition load_gateway_config ::
  "'n yaml_api \<Rightarrow> (string \<Rightarrow> bool) \<Rightarrow> string \<Rightarrow> gateway_config \<Rightarrow> config_error + gateway_config" where
  "load_gateway_config y inet_pton file_path c =
     bind_sum (raising (yaml_load_file y file_path)) (\<lambda>root.
     bind_sum (reject_if (\<not> yaml_is_map y root) ''configuration root must be a YAML map'') (\<lambda>_.
     bind_sum (load_sections y root c) (\<lambda>cfg.
     bind_sum (check_inputs cfg) (\<lambda>_.
     bind_sum (check_mqtt (cfg_mqtt cfg)) (\<lambda>_.
     bind_sum (check_outputs inet_pton cfg) (\<lambda>_.
     Inr cfg))))))"

section \<open>What an accepted configuration guarantees\<close>

definition modbus_ranges :: "modbus_config \<Rightarrow> bool" where
  "modbus_ranges m \<longleftrightarrow> 1 \<le> unat (mc_slave_id m) \<and> unat (mc_slave_id m) \<le> 247
     \<and> (mc_function_code m = 3 \<or> mc_function_code m = 4)
     \<and> 1 \<le> unat (mc_register_count m) \<and> unat (mc_register_count m) \<le> 125"

definition input_config_valid :: "gateway_config \<Rightarrow> bool" where
  "input_config_valid cfg \<longleftrightarrow>
     (let s = cfg_serial cfg; m = cfg_modbus cfg; c = cfg_can cfg in
      distinct (sc_devices s) \<and> [] \<notin> set (sc_devices s)
      \<and> sc_baud_rate s \<in> {9600, 19200, 38400, 57600, 115200} \<and> 1 \<le> sc_reconnect_interval_seconds s
      \<and> (mc_enabled m \<longrightarrow> mc_port m \<noteq> [] \<and> mc_baud_rate m \<in> {9600, 19200, 38400, 57600, 115200}
           \<and> 1 \<le> mc_poll_interval_ms m \<and> 1 \<le> mc_response_timeout_ms m)
      \<and> (cc_enabled c \<longrightarrow> cc_interface c \<noteq> []) \<and> 1 \<le> cc_heartbeat_timeout_seconds c
      \<and> (sc_devices s \<noteq> [] \<or> mc_enabled m \<or> cc_enabled c))"

definition mqtt_config_valid :: "mqtt_config \<Rightarrow> bool" where
  "mqtt_config_valid q \<longleftrightarrow> qc_host q \<noteq> [] \<and> qc_topic_prefix q \<noteq> [] \<and> 1 \<le> qc_cache_retry_interval_seconds q
     \<and> (qc_password q \<noteq> [] \<longrightarrow> qc_username q \<noteq> [])
     \<and> (tls_enabled (qc_tls q) \<longrightarrow> tls_ca_file (qc_tls q) \<noteq> [])
     \<and> (tls_certificate_file (qc_tls q) = [] \<longleftrightarrow> tls_private_key_file (qc_tls q) = [])
     \<and> (tls_insecure (qc_tls q) \<longrightarrow> tls_enabled (qc_tls q))"

definition output_config_valid :: "(string \<Rightarrow> bool) \<Rightarrow> gateway_config \<Rightarrow> bool" where
  "output_config_valid inet_pton cfg \<longleftrightarrow>
     (tcpc_enabled (cfg_tcp cfg) \<longrightarrow> tcpc_host (cfg_tcp cfg) \<noteq> [])
     \<and> hc_host (cfg_http cfg) \<noteq> []
     \<and> (hc_enabled (cfg_http cfg) \<longrightarrow> hc_host (cfg_http cfg) = ''localhost'' \<or> inet_pton (hc_host (cfg_http cfg)))
     \<and> cache_path (cfg_cache cfg) \<noteq> [] \<and> cache_type (cfg_cache cfg) \<in> {''sqlite'', ''file''}
     \<and> log_path (cfg_log cfg) \<noteq> [] \<and> log_level (cfg_log cfg) \<in> {''DEBUG'', ''INFO'', ''WARN'', ''ERROR''}"

lemma check_devices_ok:
  "check_devices seen ds = Inr u \<longleftrightarrow> distinct ds \<and> [] \<notin> set ds \<and> set ds \<inter> seen = {}"
  by (induction seen ds rule: check_devices.induct) auto

lemma check_inputs_ok: "check_inputs cfg = Inr u \<longleftrightarrow> input_config_valid cfg"
  by (auto simp: check_inputs_def input_config_valid_def check_devices_ok is_supported_baud_rate_def
      not_less Let_def split: if_splits)

lemma check_mqtt_ok: "check_mqtt q = Inr u \<longleftrightarrow> mqtt_config_valid q"
  by (auto simp: check_mqtt_def mqtt_config_valid_def)

lemma check_outputs_ok: "check_outputs inet_pton cfg = Inr u \<longleftrightarrow> output_config_valid inet_pton cfg"
  by (auto simp: check_outputs_def output_config_valid_def is_valid_http_host_def is_valid_log_level_def)

lemma unat_word_of_int_u8: "0 \<le> i \<Longrightarrow> i \<le> 255 \<Longrightarrow> unat (word_of_int i :: u8) = nat i"
  by (simp add: unsigned_of_int take_bit_int_eq_self)

lemma unat_word_of_int_u16: "0 \<le> i \<Longrightarrow> i \<le> 65535 \<Longrightarrow> unat (word_of_int i :: u16) = nat i"
  by (simp add: unsigned_of_int take_bit_int_eq_self)

lemma load_modbus_ranges:
  assumes "load_modbus y node c = Inr m"
  shows "modbus_ranges m"
  using assms
  by (auto simp: load_modbus_def not_less modbus_ranges_def unat_word_of_int_u8 unat_word_of_int_u16)

lemma with_section_cases:
  "with_section y node key load old = Inr new \<Longrightarrow> new = old \<or> (\<exists>child. load child old = Inr new)"
  by (auto simp: with_section_def split: option.splits)

lemma load_sections_modbus:
  "load_sections y root c = Inr cfg \<Longrightarrow> modbus_ranges (cfg_modbus c) \<Longrightarrow> modbus_ranges (cfg_modbus cfg)"
  by (auto simp: load_sections_def dest!: with_section_cases dest: load_modbus_ranges)

lemma default_modbus_ranges: "modbus_ranges (cfg_modbus default_config)"
  by (simp add: modbus_ranges_def default_config_def)


text \<open>A configuration file that is an empty map gives the documented defaults.\<close>

definition empty_yaml :: "unit yaml_api" where
  "empty_yaml = \<lparr>yaml_load_file = (\<lambda>_. Inr ()), yaml_is_map = (\<lambda>_. True), yaml_is_sequence = (\<lambda>_. False),
     yaml_get = (\<lambda>_ _. Inr None), yaml_bool = (\<lambda>_. Inl []), yaml_int = (\<lambda>_. Inl []),
     yaml_string = (\<lambda>_. Inl []), yaml_strings = (\<lambda>_. Inl [])\<rparr>"

lemma empty_file_defaults:
  "load_gateway_config empty_yaml (\<lambda>_. False) ''gateway.yaml'' default_config = Inr default_config"
proof -
  have "load_sections empty_yaml () default_config = Inr default_config"
    by (simp add: load_sections_def with_section_def empty_yaml_def raising_def)
  then show ?thesis
    by (simp add: load_gateway_config_def check_inputs_ok check_mqtt_ok check_outputs_ok empty_yaml_def
        input_config_valid_def mqtt_config_valid_def output_config_valid_def default_config_def)
qed

end
