(* ===== verification/HttpServer.thy ===== *)
theory HttpServer
  imports Posix RuntimeStatus
begin

text \<open>
  \<^verbatim>\<open>src/src/http/http_server.{h,cpp}\<close>: the monitoring endpoint. System call answers are arguments;
  the log messages of the serving thread are left out. The serving thread handles one client after the other.
\<close>

section \<open>Requests and responses\<close>

definition cr :: char where "cr = CHR 0x0D"
definition crlf :: string where "crlf = [cr, newline]"

definition reason_phrase :: "nat \<Rightarrow> string" where
  "reason_phrase status_code =
     (if status_code = 200 then ''OK'' else if status_code = 404 then ''Not Found''
      else if status_code = 503 then ''Service Unavailable'' else ''Internal Server Error'')"

definition build_response :: "nat \<Rightarrow> string \<Rightarrow> string \<Rightarrow> string" where
  "build_response status_code content_type body =
     ''HTTP/1.1 '' @ nat_to_dec status_code @ '' '' @ reason_phrase status_code @ crlf
     @ ''Content-Type: '' @ content_type @ crlf
     @ ''Content-Length: '' @ nat_to_dec (length body) @ crlf
     @ ''Connection: close'' @ crlf
     @ ''Cache-Control: no-store'' @ crlf @ crlf
     @ body"

text \<open>The text before the first line end, or all of it, and what follows.\<close>

fun crlf_line :: "string \<Rightarrow> string \<times> string" where
  "crlf_line [] = ([], [])"
| "crlf_line [c] = ([c], [])"
| "crlf_line (c # d # rest) =
     (if c = cr \<and> d = newline then ([], rest)
      else (case crlf_line (d # rest) of (l, r) \<Rightarrow> (c # l, r)))"

definition request_path :: "string \<Rightarrow> string" where
  "request_path request =
     (let request_line = fst (crlf_line request) in
      if take 4 request_line = ''GET '' then
        (let rest = drop 4 request_line in
         if CHR '' '' \<in> set rest then takeWhile (\<lambda>c. c \<noteq> CHR '' '') rest else [])
      else [])"

definition route :: "u64 \<Rightarrow> runtime_metrics \<Rightarrow> runtime_status \<Rightarrow> string \<Rightarrow> string" where
  \<open>route now metrics status path =
     (if path = ''/health'' then build_response 200 ''application/json'' (health_json now metrics status)
      else if path = ''/ready'' then
        build_response (if ready status then 200 else 503) ''application/json'' (readiness_json status)
      else if path = ''/metrics'' then
        build_response 200 ''text/plain; version=0.0.4; charset=utf-8'' (render_prometheus now metrics)
      else build_response 404 ''application/json'' ''{"status":"not_found"}'')\<close>

section \<open>Serving a client\<close>

text \<open>The waiting loop: each round has the value of \<open>running_\<close> and the answer of \<open>poll\<close>.\<close>

datatype wait_result = ClientReady | GiveUp

fun wait_request :: "(bool \<times> poll_answer) list \<Rightarrow> wait_result option" where
  "wait_request [] = None"
| "wait_request ((is_running, answer) # rounds) =
     (if \<not> is_running then Some GiveUp
      else (case answer of
        PollReady _ \<Rightarrow> Some ClientReady
      | PollFailed e \<Rightarrow> if e \<noteq> EINTR then Some GiveUp else wait_request rounds
      | PollTimeout \<Rightarrow> wait_request rounds))"

fun http_send_all :: "(errno + nat) list \<Rightarrow> string \<Rightarrow> string \<Rightarrow> (bool \<times> string) option" where
  "http_send_all answers [] sent = Some (True, sent)"
| "http_send_all [] (b # bs) sent = None"
| "http_send_all (Inl e # answers) (b # bs) sent =
     (if e = EINTR then http_send_all answers (b # bs) sent else Some (False, sent))"
| "http_send_all (Inr n # answers) (b # bs) sent =
     (if n = 0 then Some (False, sent) else http_send_all answers (drop n (b # bs)) (sent @ take n (b # bs)))"

record client_input =
  ci_rounds :: "(bool \<times> poll_answer) list"
  ci_running :: bool
  ci_recv :: "errno + string"
  ci_now :: u64
  ci_sends :: "(errno + nat) list"

text \<open>What is sent to the client; no result while the call has not returned.\<close>

definition handle_client :: "runtime_metrics \<Rightarrow> runtime_status \<Rightarrow> client_input \<Rightarrow> string option" where
  "handle_client metrics status input =
     (case wait_request (ci_rounds input) of
        None \<Rightarrow> None
      | Some GiveUp \<Rightarrow> Some []
      | Some ClientReady \<Rightarrow>
          if \<not> ci_running input then Some []
          else (case ci_recv input of
            Inl e \<Rightarrow> Some []
          | Inr received \<Rightarrow>
              if received = [] then Some []
              else let request = take 4095 received;
                       response = route (ci_now input) metrics status (request_path request)
                   in map_option snd (http_send_all (ci_sends input) response [])))"

section \<open>The server\<close>

record http_server =
  hs_host :: string
  hs_port :: u16
  hs_running :: bool
  hs_listen_fd :: int
  hs_worker :: bool

definition http_server_new :: "string \<Rightarrow> u16 \<Rightarrow> http_server" where
  "http_server_new host port = \<lparr>hs_host = host, hs_port = port, hs_running = False, hs_listen_fd = -1, hs_worker = False\<rparr>"

record http_start_answers =
  ha_socket :: "errno + nat"
  ha_inet_pton :: "string \<Rightarrow> bool"
  ha_bind :: "errno option"
  ha_listen :: "errno option"
  ha_getsockname :: "u16 option"
  ha_thread :: "string option"

definition http_start :: "http_start_answers \<Rightarrow> http_server \<Rightarrow> bool \<times> string \<times> http_server" where
  "http_start os s0 =
     (if hs_running s0 then (False, ''HTTP server is already running'', s0)
      else (case ha_socket os of
        Inl e \<Rightarrow> (False, ''socket failed: '' @ strerror e, s0\<lparr>hs_listen_fd := -1\<rparr>)
      | Inr n \<Rightarrow>
          let s1 = s0\<lparr>hs_listen_fd := int n\<rparr>; closed = s1\<lparr>hs_listen_fd := -1\<rparr> in
          if hs_host s1 \<noteq> ''localhost'' \<and> \<not> ha_inet_pton os (hs_host s1) then
            (False, ''invalid HTTP IPv4 host: '' @ hs_host s1, closed)
          else (case ha_bind os of
            Some e \<Rightarrow> (False, ''bind failed for '' @ hs_host s1 @ '':'' @ nat_to_dec (unat (hs_port s1)) @ '': ''
                        @ strerror e, closed)
          | None \<Rightarrow>
              (case ha_listen os of
                 Some e \<Rightarrow> (False, ''listen failed: '' @ strerror e, closed)
               | None \<Rightarrow>
                   let s2 = (case ha_getsockname os of Some p \<Rightarrow> s1\<lparr>hs_port := p\<rparr> | None \<Rightarrow> s1) in
                   (case ha_thread os of
                      Some what \<Rightarrow> (False, ''HTTP worker start failed: '' @ what,
                                     s2\<lparr>hs_running := False, hs_listen_fd := -1\<rparr>)
                    | None \<Rightarrow> (True, [], s2\<lparr>hs_running := True, hs_worker := True\<rparr>))))))"

definition http_stop :: "http_server \<Rightarrow> http_server" where
  "http_stop s = s\<lparr>hs_running := False, hs_listen_fd := -1, hs_worker := False\<rparr>"

definition bound_port :: "http_server \<Rightarrow> u16" where
  "bound_port s = hs_port s"

text \<open>One round of the accept loop; the second running flag is read after a failed accept.\<close>

datatype accept_answer = Accepted client_input | AcceptFailed errno bool

fun serve :: "runtime_metrics \<Rightarrow> runtime_status \<Rightarrow> (bool \<times> accept_answer) list \<Rightarrow> string list \<times> bool" where
  "serve metrics status [] = ([], False)"
| "serve metrics status ((is_running, answer) # rounds) =
     (if \<not> is_running then ([], True)
      else (case answer of
        AcceptFailed e still_running \<Rightarrow>
          if e = EINTR then serve metrics status rounds
          else if \<not> still_running \<or> e = Errno ''Bad file descriptor'' \<or> e = Errno ''Invalid argument'' then ([], True)
          else serve metrics status rounds
      | Accepted input \<Rightarrow>
          (case handle_client metrics status input of
             None \<Rightarrow> ([], False)
           | Some response \<Rightarrow> (case serve metrics status rounds of (rs, ended) \<Rightarrow> (response # rs, ended)))))"

section \<open>What a client reads\<close>

text \<open>
  A client that reads the status line, four header lines and the empty line, and then as many
  characters as the length header says.
\<close>

definition client_read :: "string \<Rightarrow> string \<times> string" where
  "client_read text =
     (let (status_line, r1) = crlf_line text; (h1, r2) = crlf_line r1; (h2, r3) = crlf_line r2;
          (h3, r4) = crlf_line r3; (h4, r5) = crlf_line r4; (h5, body) = crlf_line r5
      in (status_line, take (dec_value (drop (length ''Content-Length: '') h2)) body))"

lemma crlf_line_text: "cr \<notin> set l \<Longrightarrow> crlf_line (l @ crlf @ rest) = (l, rest)"
proof (induction l)
  case (Cons c l)
  then show ?case by (cases l) (auto simp: crlf_def)
qed (simp add: crlf_def)

lemma printable_no_cr: "printable s \<Longrightarrow> cr \<notin> set s"
  by (simp add: cr_def)

lemma printable_reason [simp]: "printable (reason_phrase n)"
  by (simp add: reason_phrase_def)

lemma client_read_response:
  assumes "printable content_type"
  shows "client_read (build_response status_code content_type body)
    = (''HTTP/1.1 '' @ nat_to_dec status_code @ '' '' @ reason_phrase status_code, body)"
proof -
  have lines: "crlf_line ((''HTTP/1.1 '' @ nat_to_dec status_code @ '' '' @ reason_phrase status_code) @ crlf @ r1)
        = (''HTTP/1.1 '' @ nat_to_dec status_code @ '' '' @ reason_phrase status_code, r1)"
      "crlf_line ((''Content-Type: '' @ content_type) @ crlf @ r2) = (''Content-Type: '' @ content_type, r2)"
      "crlf_line ((''Content-Length: '' @ nat_to_dec (length body)) @ crlf @ r3)
        = (''Content-Length: '' @ nat_to_dec (length body), r3)"
      "crlf_line (''Connection: close'' @ crlf @ r4) = (''Connection: close'', r4)"
      "crlf_line (''Cache-Control: no-store'' @ crlf @ r5) = (''Cache-Control: no-store'', r5)"
      "crlf_line ([] @ crlf @ r6) = ([], r6)" for r1 r2 r3 r4 r5 r6
    using assms by (intro crlf_line_text printable_no_cr; simp)+
  show ?thesis
    unfolding client_read_def build_response_def
    using lines by (simp del: append_Cons add: Let_def)
qed

lemma http_send_all_effect:
  "http_send_all answers bytes sent = Some (True, sent') \<Longrightarrow> sent' = sent @ bytes"
proof (induction answers bytes sent rule: http_send_all.induct)
  case (4 n answers b bs sent)
  have pieces: "take n (b # bs) @ drop n (b # bs) = b # bs" by (rule append_take_drop_id)
  from 4 have "sent' = (sent @ take n (b # bs)) @ drop n (b # bs)" by (auto split: if_splits)
  then show ?case unfolding append_assoc pieces .
qed (auto split: if_splits)

lemma request_path_get:
  assumes "CHR '' '' \<notin> set path" "cr \<notin> set path"
  shows "request_path (''GET '' @ path @ '' HTTP/1.1'' @ crlf @ rest) = path"
proof -
  have "cr \<notin> set (''GET '' @ path @ '' HTTP/1.1'')" using assms(2) by (simp add: cr_def)
  from crlf_line_text [OF this, of rest]
  have "fst (crlf_line (''GET '' @ path @ '' HTTP/1.1'' @ crlf @ rest)) = ''GET '' @ path @ '' HTTP/1.1''"
    by (simp only: append_assoc fst_conv)
  then show ?thesis
    using assms(1) by (simp add: request_path_def takeWhile_append)
qed

definition expected_answer :: "u64 \<Rightarrow> runtime_metrics \<Rightarrow> runtime_status \<Rightarrow> string \<Rightarrow> string \<times> string" where
  \<open>expected_answer now metrics status path =
     (if path = ''/health'' then (''HTTP/1.1 200 OK'', health_json now metrics status)
      else if path = ''/ready'' then
        (if ready status then ''HTTP/1.1 200 OK'' else ''HTTP/1.1 503 Service Unavailable'', readiness_json status)
      else if path = ''/metrics'' then (''HTTP/1.1 200 OK'', render_prometheus now metrics)
      else (''HTTP/1.1 404 Not Found'', ''{"status":"not_found"}''))\<close>

lemma client_read_route: "client_read (route now metrics status path) = expected_answer now metrics status path"
  by (simp add: route_def expected_answer_def client_read_response reason_phrase_def dec_eval)

text \<open>
  C33: the monitoring answers. A client that sends a GET request of at most 4095 characters and gets
  all of the response reads the status line and, by the announced length, exactly the body for its
  path: the health report, the metrics, or the readiness report with status 200 when the
  configuration is loaded, the cache works and the workers run, else 503; any other path gives 404.
\<close>

theorem http_answers:
  assumes "wait_request (ci_rounds input) = Some ClientReady" and "ci_running input"
    and "ci_recv input = Inr (''GET '' @ path @ '' HTTP/1.1'' @ crlf @ headers)"
    and "CHR '' '' \<notin> set path" "cr \<notin> set path" "length (''GET '' @ path @ '' HTTP/1.1'' @ crlf @ headers) \<le> 4095"
    and "http_send_all (ci_sends input) (route (ci_now input) metrics status path) [] = Some (True, sent)"
  shows "map_option client_read (handle_client metrics status input)
    = Some (expected_answer (ci_now input) metrics status path)"
proof -
  let ?req = "''GET '' @ path @ '' HTTP/1.1'' @ crlf @ headers"
  have sent: "sent = route (ci_now input) metrics status path"
    using http_send_all_effect [OF assms(7)] by simp
  have "take 4095 ?req = ?req" using assms(6) by (rule take_all)
  then have "handle_client metrics status input = Some sent"
    using assms(1,2,3,7) request_path_get [OF assms(4,5), of headers]
    by (simp only: handle_client_def option.simps wait_result.simps sum.simps Let_def if_False not_True_eq_False)
      simp
  then show ?thesis by (simp add: sent client_read_route)
qed

definition example_client :: client_input where
  "example_client = \<lparr>ci_rounds = [(True, PollTimeout), (True, PollReady POLLIN)], ci_running = True,
     ci_recv = Inr (''GET '' @ ''/ready'' @ '' HTTP/1.1'' @ crlf @ crlf), ci_now = 100, ci_sends = [Inr 100000]\<rparr>"

lemma http_send_once: "length bytes \<le> n \<Longrightarrow> 0 < n \<Longrightarrow> http_send_all [Inr n] bytes [] = Some (True, bytes)"
  by (cases bytes) auto

theorem http_answers_witness:
  "map_option client_read (handle_client (runtime_metrics_new 0) (runtime_status_new ''1'' ''file'' True True) example_client)
    = Some (''HTTP/1.1 503 Service Unavailable'', readiness_json (runtime_status_new ''1'' ''file'' True True))"
proof -
  let ?mt = "runtime_metrics_new 0" and ?st = "runtime_status_new ''1'' ''file'' True True"
  have "length (route 100 ?mt ?st ''/ready'') \<le> 100000"
    by (simp add: route_def build_response_def readiness_json_def runtime_status_new_def reason_phrase_def
        crlf_def bool_to_text_def ready_def dec_eval)
  then have send: "http_send_all (ci_sends example_client) (route (ci_now example_client) ?mt ?st ''/ready'') []
      = Some (True, route 100 ?mt ?st ''/ready'')"
    by (simp add: example_client_def http_send_once)
  have "map_option client_read (handle_client ?mt ?st example_client)
      = Some (expected_answer (ci_now example_client) ?mt ?st ''/ready'')"
    by (rule http_answers [where headers = crlf, OF _ _ _ _ _ _ send])
      (simp_all add: example_client_def cr_def crlf_def)
  then show ?thesis by (simp add: expected_answer_def)
qed

text \<open>
  C38: one silent client stops the monitoring. A client that connects and sends nothing is waited
  for without limit: after any number of timed-out polls the call has not returned, so the
  serving thread accepts no other client, and health checks go unanswered until it disconnects.
\<close>

theorem http_silent_client_blocks:
  "handle_client metrics status (input\<lparr>ci_rounds := replicate n (True, PollTimeout)\<rparr>) = None
   \<and> serve metrics status ((True, Accepted (input\<lparr>ci_rounds := replicate n (True, PollTimeout)\<rparr>)) # others) = ([], False)"
proof -
  have "wait_request (replicate n (True, PollTimeout)) = None" by (induction n) simp_all
  then show ?thesis by (simp add: handle_client_def)
qed

lemma http_start_effect:
  "http_start os s = (ok, e, s') \<Longrightarrow> \<not> hs_running s \<Longrightarrow>
    (ok \<longleftrightarrow> hs_running s') \<and> (if ok then 0 \<le> hs_listen_fd s' \<and> hs_worker s' else hs_listen_fd s' = -1)"
  by (auto simp: http_start_def Let_def split: if_splits sum.splits option.splits)

lemma http_stop_effect: "\<not> hs_running (http_stop s) \<and> hs_listen_fd (http_stop s) < 0 \<and> \<not> hs_worker (http_stop s)"
  by (simp add: http_stop_def)

end
