(* ===== verification/Gateway.thy ===== *)
theory Gateway
  imports Devices RuntimeStatus Logger FileCache ReliablePublisher MqttClient TcpClient GatewayConfig HttpServer
begin

text \<open>
  \<^verbatim>\<open>src/src/main.cpp\<close>: how the parts are put together. The two handlers the device manager calls,
  publishing a reading on all channels, the devices built from the configuration, and the
  monitoring view. The metrics object is one shared object: it is the one the MQTT publisher
  holds. The logger is the list of calls made to it.
\<close>

section \<open>Topic, log level, devices\<close>

definition build_mqtt_topic :: "string \<Rightarrow> sensor_data \<Rightarrow> string" where
  "build_mqtt_topic topic_prefix data = topic_prefix @ ''/'' @ nat_to_dec (unat (s_device_id data)) @ ''/data''"

definition parse_log_level :: "string \<Rightarrow> log_level" where
  "parse_log_level level =
     (if level = ''INFO'' then LevelInfo else if level = ''WARN'' then LevelWarn
      else if level = ''ERROR'' then LevelError else LevelDebug)"

definition mqtt_options_of :: "mqtt_config \<Rightarrow> mqtt_options" where
  "mqtt_options_of q = \<lparr>mq_username = qc_username q, mq_password = qc_password q,
     mq_tls_enabled = tls_enabled (qc_tls q), mq_ca_file = tls_ca_file (qc_tls q),
     mq_certificate_file = tls_certificate_file (qc_tls q),
     mq_private_key_file = tls_private_key_file (qc_tls q), mq_tls_insecure = tls_insecure (qc_tls q)\<rparr>"

definition modbus_options_of :: "modbus_config \<Rightarrow> modbus_options" where
  "modbus_options_of c = \<lparr>mo_port = mc_port c, mo_baud_rate = mc_baud_rate c,
     mo_request = \<lparr>slave_id = mc_slave_id c,
       rq_function = (if mc_function_code c = 4 then ReadInputRegisters else ReadHoldingRegisters),
       start_address = mc_start_address c, register_count = mc_register_count c\<rparr>,
     mo_poll_interval_ms = mc_poll_interval_ms c, mo_response_timeout_ms = mc_response_timeout_ms c\<rparr>"

definition build_devices :: "gateway_config \<Rightarrow> string list \<Rightarrow> any_device device_manager" where
  "build_devices cfg serial_devices =
     (let m0 = device_manager_new (word_of_int (cc_heartbeat_timeout_seconds (cfg_can cfg)));
          m1 = fold (\<lambda>path. manager_add (UartDev (uart_new path (sc_baud_rate (cfg_serial cfg))))) serial_devices m0;
          m2 = (if mc_enabled (cfg_modbus cfg)
                then manager_add (ModbusDev (modbus_new (modbus_options_of (cfg_modbus cfg)))) m1 else m1)
      in if cc_enabled (cfg_can cfg) then manager_add (CanDev (can_new (cc_interface (cfg_can cfg)))) m2 else m2)"

section \<open>Publishing a reading\<close>

type_synonym ('k, 'c) channel = "('k, 'c) reliable_publisher + tcp_client"

record ('i, 'e) channel_input =
  ch_mqtt :: "('i, 'e) publish_input"
  ch_tcp :: tcp_send_input

definition channel_vtable ::
  "('k, 'i) mqtt_publish_op \<Rightarrow> ('c, 'e) cache_ops \<Rightarrow> (('k, 'c) channel, ('i, 'e) channel_input) publisher_vtable" where
  "channel_vtable pub ops = \<lparr>
     pv_channel = (\<lambda>ch. case ch of Inl rp \<Rightarrow> ''mqtt'' | Inr tc \<Rightarrow> ''tcp''),
     pv_publish = (\<lambda>input topic payload ch. case ch of
        Inl rp \<Rightarrow> Some (map_prod id Inl (reliable_publish pub ops (ch_mqtt input) topic payload rp))
      | Inr tc \<Rightarrow> map_option (map_prod id Inr) (tcp_publish (ch_tcp input) topic payload tc))\<rparr>"

record ('k, 'c) gateway =
  gw_mqtt :: "('k, 'c) reliable_publisher"
  gw_tcp :: tcp_client
  gw_tcp_enabled :: bool
  gw_log :: "log_call list"

definition gateway_channels :: "('k, 'c) gateway \<Rightarrow> ('k, 'c) channel list" where
  "gateway_channels g = group_add (Inl (gw_mqtt g)) [] @ (if gw_tcp_enabled g then group_add (Inr (gw_tcp g)) [] else [])"

fun store_channel :: "('k, 'c) channel \<Rightarrow> ('k, 'c) gateway \<Rightarrow> ('k, 'c) gateway" where
  "store_channel (Inl rp) g = g\<lparr>gw_mqtt := rp\<rparr>"
| "store_channel (Inr tc) g = g\<lparr>gw_tcp := tc\<rparr>"

definition gw_update_metrics :: "(runtime_metrics \<Rightarrow> runtime_metrics) \<Rightarrow> ('k, 'c) gateway \<Rightarrow> ('k, 'c) gateway" where
  "gw_update_metrics f g = g\<lparr>gw_mqtt := update_metrics f (gw_mqtt g)\<rparr>"

definition gw_write :: "log_call \<Rightarrow> ('k, 'c) gateway \<Rightarrow> ('k, 'c) gateway" where
  "gw_write line g = g\<lparr>gw_log := gw_log g @ [line]\<rparr>"

definition log_outcome :: "publish_outcome \<Rightarrow> ('k, 'c) gateway \<Rightarrow> ('k, 'c) gateway" where
  "log_outcome outcome g =
     (let message = ''publish result='' @ publish_status_text (po_status outcome) in
      if po_status outcome = Failed then gw_write (LogWarn (po_channel outcome) message) g
      else gw_write (LogDebug (po_channel outcome) message) g)"

definition count_outcome :: "publish_outcome \<Rightarrow> ('k, 'c) gateway \<Rightarrow> ('k, 'c) gateway" where
  "count_outcome outcome g =
     (if po_channel outcome = ''tcp'' then
        (if po_status outcome = Published then gw_update_metrics (record_tcp_publish_success 1) g
         else gw_update_metrics (record_tcp_publish_failed 1) g)
      else g)"

text \<open>No result while a publisher has not returned; one input per channel.\<close>

definition publish_sensor_data ::
  "('k, 'i) mqtt_publish_op \<Rightarrow> ('c, 'e) cache_ops \<Rightarrow> string \<Rightarrow> ('i, 'e) channel_input list \<Rightarrow> sensor_data
    \<Rightarrow> ProtocolType \<Rightarrow> ('k, 'c) gateway \<Rightarrow> ('k, 'c) gateway option" where
  "publish_sensor_data pub ops topic_prefix inputs data protocol g =
     (let json = sensor_data_to_json data; protocol_name = to_string protocol in
      if \<not> s_valid data then
        Some (gw_update_metrics (record_protocol_error 1)
          (gw_write (LogWarn protocol_name (''invalid sensor data: '' @ json)) g))
      else let g1 = gw_write (LogInfo ''sensor'' (''parsed data: '' @ json @ '', protocol='' @ protocol_name)) g in
        (case group_publish (channel_vtable pub ops) inputs (build_mqtt_topic topic_prefix data) json
                (gateway_channels g1) of
           None \<Rightarrow> None
         | Some (outcomes, channels) \<Rightarrow>
             Some (fold (\<lambda>outcome. count_outcome outcome \<circ> log_outcome outcome) outcomes
               (fold store_channel channels g1))))"

section \<open>The handlers\<close>

definition on_device_data ::
  "('k, 'i) mqtt_publish_op \<Rightarrow> ('c, 'e) cache_ops \<Rightarrow> string \<Rightarrow> ('i, 'e) channel_input list \<Rightarrow> sensor_data
    \<Rightarrow> ProtocolType \<Rightarrow> ('k, 'c) gateway \<Rightarrow> ('k, 'c) gateway option" where
  "on_device_data pub ops topic_prefix inputs data protocol g =
     publish_sensor_data pub ops topic_prefix inputs data protocol (gw_update_metrics (record_frames_parsed 1) g)"

definition handler_count :: "protocol_error_stats \<Rightarrow> nat" where
  "handler_count stats = (if stats_empty stats then 1 else stats_total stats)"

definition on_device_error ::
  "ProtocolType \<Rightarrow> protocol_error_stats \<Rightarrow> runtime_metrics \<Rightarrow> runtime_metrics" where
  "on_device_error protocol stats mt0 =
     (let mt1 = (if crc_errors stats > 0 then record_crc_errors (of_nat (crc_errors stats)) mt0 else mt0);
          mt2 = (if length_errors stats > 0 then record_length_errors (of_nat (length_errors stats)) mt1 else mt1);
          invalid_frames = invalid_frame_count stats;
          mt3 = (if invalid_frames > 0 then record_frames_invalid (of_nat invalid_frames) mt2 else mt2);
          protocol_errors = handler_count stats;
          mt4 = record_protocol_error (of_nat protocol_errors) mt3
      in if protocol = ModbusRtu then record_modbus_error (of_nat protocol_errors) mt4
         else if protocol = SocketCan then record_can_error (of_nat protocol_errors) mt4
         else mt4)"

definition device_error_message :: "string \<Rightarrow> protocol_error_stats \<Rightarrow> string" where
  "device_error_message error stats =
     (if error = [] then ''protocol input rejected'' else error)
     @ (if overflow_bytes stats > 0 then '', overflow_bytes='' @ nat_to_dec (overflow_bytes stats) else [])"

fun handle_manager_event ::
  "('k, 'i) mqtt_publish_op \<Rightarrow> ('c, 'e) cache_ops \<Rightarrow> string \<Rightarrow> ('i, 'e) channel_input list \<Rightarrow> manager_event
    \<Rightarrow> ('k, 'c) gateway \<Rightarrow> ('k, 'c) gateway option" where
  "handle_manager_event pub ops topic_prefix inputs (DataEvent data protocol) g = on_device_data pub ops topic_prefix inputs data protocol g"
| "handle_manager_event pub ops topic_prefix inputs (ErrorEvent protocol code error stats) g =
     Some (gw_write (LogWarn (to_string protocol) (device_error_message error stats))
       (gw_update_metrics (on_device_error protocol stats) g))"

section \<open>The monitoring view\<close>

definition health_of :: "device_status \<Rightarrow> device_health" where
  "health_of s = \<lparr>dh_device_id = ds_device_id s, dh_protocol = to_string (ds_protocol s), dh_online = ds_online s,
     dh_last_update = last_update_unix_seconds s, dh_error_count = error_count s\<rparr>"

definition update_device_observability ::
  "u64 \<Rightarrow> any_device device_manager \<Rightarrow> runtime_metrics \<times> runtime_status \<Rightarrow> runtime_metrics \<times> runtime_status" where
  "update_device_observability now m \<equiv> \<lambda>(mt, st).
     (let sts = statuses any_ops now m;
          online = length (filter ds_online sts);
          offline = length sts - online
      in (set_device_counts (of_nat online) (of_nat offline) mt,
          set_device_statuses (map health_of sts) (set_status_device_counts (of_nat online) (of_nat offline) st)))"

text \<open>
  The workers call the handlers and the main loop flushes the cache; the publisher's mutex makes
  each of these calls one step, so a run of the gateway is a sequence of such actions.
\<close>

datatype ('i, 'e) gateway_action =
    HandleEvent "('i, 'e) channel_input list" manager_event
  | FlushCache "('i, 'e) flush_input"

definition gateway_flush ::
  "('k, 'i) mqtt_publish_op \<Rightarrow> ('c, 'e) cache_ops \<Rightarrow> ('i, 'e) flush_input \<Rightarrow> ('k, 'c) gateway \<Rightarrow> ('k, 'c) gateway" where
  "gateway_flush pub ops input g = g\<lparr>gw_mqtt := snd (flush_cache pub ops input (gw_mqtt g))\<rparr>"

fun run_actions ::
  "('k, 'i) mqtt_publish_op \<Rightarrow> ('c, 'e) cache_ops \<Rightarrow> string \<Rightarrow> ('i, 'e) gateway_action list
    \<Rightarrow> ('k, 'c) gateway \<Rightarrow> ('k, 'c) gateway option" where
  "run_actions pub ops topic_prefix [] g = Some g"
| "run_actions pub ops topic_prefix (HandleEvent inputs ev # acts) g =
     Option.bind (handle_manager_event pub ops topic_prefix inputs ev g) (run_actions pub ops topic_prefix acts)"
| "run_actions pub ops topic_prefix (FlushCache input # acts) g =
     run_actions pub ops topic_prefix acts (gateway_flush pub ops input g)"

fun action_events :: "('i, 'e) gateway_action \<Rightarrow> manager_event list" where
  "action_events (HandleEvent inputs ev) = [ev]"
| "action_events (FlushCache input) = []"

section \<open>Counters of the input side\<close>

text \<open>The counters only the handlers change; publishing and flushing leave them alone.\<close>

definition device_counters :: "runtime_metrics \<Rightarrow> u64 \<times> u64 \<times> u64 \<times> u64 \<times> u64 \<times> u64 \<times> u64" where
  "device_counters mt = (mt_frames_parsed_total mt, mt_frames_invalid_total mt, mt_crc_errors_total mt,
     mt_length_errors_total mt, mt_protocol_error_total mt, mt_modbus_error_total mt, mt_can_error_total mt)"

definition input_counters :: "('k, 'c) reliable_publisher \<Rightarrow> (u64 \<times> u64 \<times> u64 \<times> u64 \<times> u64 \<times> u64 \<times> u64) option" where
  "input_counters rp = map_option device_counters (rp_metrics rp)"

lemma device_counters_output [simp]:
  "device_counters (record_mqtt_publish_success n mt) = device_counters mt"
  "device_counters (record_mqtt_publish_failed n mt) = device_counters mt"
  "device_counters (record_tcp_publish_success n mt) = device_counters mt"
  "device_counters (record_tcp_publish_failed n mt) = device_counters mt"
  "device_counters (set_cache_depth n mt) = device_counters mt"
  "device_counters (record_cache_enqueue n mt) = device_counters mt"
  "device_counters (record_cache_flush_attempt n mt) = device_counters mt"
  by (simp_all add: device_counters_def metric_defs)

definition output_counters :: "runtime_metrics \<Rightarrow> u64 \<times> u64 \<times> u64" where
  "output_counters mt = (mt_mqtt_publish_success_total mt, mt_mqtt_publish_failed_total mt,
     mt_tcp_publish_success_total mt + mt_tcp_publish_failed_total mt)"

definition tcp_published :: "nat \<Rightarrow> (runtime_metrics \<Rightarrow> runtime_metrics) \<Rightarrow> bool" where
  "tcp_published n f \<longleftrightarrow> (\<forall>mt. device_counters (f mt) = device_counters mt
     \<and> (case output_counters mt of (ok, failed, tcp) \<Rightarrow> output_counters (f mt) = (ok, failed, tcp + of_nat n)))"

lemma tcp_published_intros:
  "tcp_published 0 (\<lambda>mt. mt)" "tcp_published (Suc 0) (record_tcp_publish_success 1)"
  "tcp_published (Suc 0) (record_tcp_publish_failed 1)"
  by (simp_all add: tcp_published_def output_counters_def device_counters_def metric_defs)

interpretation input_side: neutral_counters device_counters
  by unfold_locales simp_all

lemmas input_counters_publish = input_side.neutral_publish [folded input_counters_def]
lemmas input_counters_flush = input_side.neutral_flush [folded input_counters_def]

lemma input_counters_update [simp]:
  "(\<And>mt. device_counters (f mt) = device_counters mt) \<Longrightarrow> input_counters (update_metrics f rp) = input_counters rp"
  unfolding input_counters_def by (rule input_side.neutral_update)

section \<open>What one event does\<close>

definition message_of :: "string \<Rightarrow> sensor_data \<Rightarrow> cached_message" where
  "message_of topic_prefix data = msg (build_mqtt_topic topic_prefix data) (sensor_data_to_json data)"

lemma gw_write_simps [simp]:
  "gw_mqtt (gw_write line g) = gw_mqtt g" "gw_tcp (gw_write line g) = gw_tcp g"
  "gw_tcp_enabled (gw_write line g) = gw_tcp_enabled g" "gw_log (gw_write line g) = gw_log g @ [line]"
  by (simp_all add: gw_write_def)

lemma log_outcome_simps [simp]:
  "gw_mqtt (log_outcome outcome g) = gw_mqtt g" "gw_tcp_enabled (log_outcome outcome g) = gw_tcp_enabled g"
  by (simp_all add: log_outcome_def Let_def)

lemma count_outcome_simps [simp]:
  "gw_mqtt (count_outcome outcome g) = (if po_channel outcome \<noteq> ''tcp'' then gw_mqtt g
     else update_metrics (if po_status outcome = Published then record_tcp_publish_success 1
       else record_tcp_publish_failed 1) (gw_mqtt g))"
  "gw_tcp_enabled (count_outcome outcome g) = gw_tcp_enabled g"
  by (simp_all add: count_outcome_def gw_update_metrics_def)

text \<open>
  Publishing a valid reading: the MQTT publisher publishes it, and afterwards only the counters
  of the TCP channel change.
\<close>

lemma publish_sensor_data_effect:
  assumes "publish_sensor_data pub ops tp inputs data protocol g = Some g'" and "s_valid data"
  obtains status rp f where
    "reliable_publish pub ops (ch_mqtt (hd inputs)) (build_mqtt_topic tp data) (sensor_data_to_json data) (gw_mqtt g)
       = (status, rp)"
    "gw_mqtt g' = update_metrics f rp" "tcp_published (if gw_tcp_enabled g then 1 else 0) f" "inputs \<noteq> []"
    "gw_tcp_enabled g' = gw_tcp_enabled g"
proof -
  obtain i "is" where inputs: "inputs = i # is"
    using assms by (cases inputs) (auto simp: publish_sensor_data_def gateway_channels_def group_add_def)
  obtain status rp where rp: "reliable_publish pub ops (ch_mqtt i) (build_mqtt_topic tp data) (sensor_data_to_json data)
      (gw_mqtt g) = (status, rp)" by fastforce
  note defs = publish_sensor_data_def gateway_channels_def group_add_def channel_vtable_def Let_def
  have id: "update_metrics (\<lambda>mt. mt) rp = rp"
    by (simp add: update_metrics_def option.map_ident)
  show ?thesis
  proof (cases "gw_tcp_enabled g")
    case False
    with assms rp inputs have "gw_mqtt g' = rp" "gw_tcp_enabled g' = gw_tcp_enabled g"
      by (auto simp: defs)
    with that [of status rp "\<lambda>mt. mt"] rp inputs False show ?thesis by (simp add: id tcp_published_intros)
  next
    case True
    obtain j js where js: "is = j # js"
      using assms rp inputs True by (cases "is") (simp_all add: defs)
    obtain st tc where tcp: "tcp_publish (ch_tcp j) (build_mqtt_topic tp data) (sensor_data_to_json data) (gw_tcp g)
        = Some (st, tc)"
      using assms rp inputs True js by (auto simp: defs split: option.splits)
    let ?f = "if st = Published then record_tcp_publish_success 1 else record_tcp_publish_failed 1"
    have "gw_mqtt g' = update_metrics ?f rp" "gw_tcp_enabled g' = gw_tcp_enabled g"
      using assms rp inputs True js tcp
      by (auto simp: defs)
    with rp inputs show ?thesis
      using that [of status rp ?f] True by (simp add: tcp_published_intros)
  qed
qed

lemma publish_invalid:
  "\<not> s_valid data \<Longrightarrow> publish_sensor_data pub ops tp inputs data protocol g
    = Some (gw_update_metrics (record_protocol_error 1)
        (gw_write (LogWarn (to_string protocol) (''invalid sensor data: '' @ sensor_data_to_json data)) g))"
  by (simp add: publish_sensor_data_def)

text \<open>What the handlers should count for one event, and for a sequence of events.\<close>

fun event_stats :: "manager_event \<Rightarrow> protocol_error_stats" where
  "event_stats (DataEvent data protocol) = no_error_stats"
| "event_stats (ErrorEvent protocol code error stats) = stats"

fun protocol_count :: "manager_event \<Rightarrow> nat" where
  "protocol_count (DataEvent data protocol) = (if s_valid data then 0 else 1)"
| "protocol_count (ErrorEvent protocol code error stats) = handler_count stats"

definition error_count_of :: "ProtocolType \<Rightarrow> manager_event \<Rightarrow> nat" where
  "error_count_of protocol ev =
     (case ev of ErrorEvent p code error stats \<Rightarrow> if p = protocol then handler_count stats else 0 | _ \<Rightarrow> 0)"

abbreviation total :: "(manager_event \<Rightarrow> nat) \<Rightarrow> manager_event list \<Rightarrow> u64" where
  "total f evs \<equiv> of_nat (sum_list (map f evs))"

definition counted :: "manager_event list \<Rightarrow> runtime_metrics \<Rightarrow> runtime_metrics \<Rightarrow> bool" where
  "counted evs mt mt' \<longleftrightarrow>
     mt_frames_parsed_total mt' = mt_frames_parsed_total mt + total (length \<circ> event_data) evs
   \<and> mt_frames_invalid_total mt' = mt_frames_invalid_total mt + total (invalid_frame_count \<circ> event_stats) evs
   \<and> mt_crc_errors_total mt' = mt_crc_errors_total mt + total (crc_errors \<circ> event_stats) evs
   \<and> mt_length_errors_total mt' = mt_length_errors_total mt + total (length_errors \<circ> event_stats) evs
   \<and> mt_protocol_error_total mt' = mt_protocol_error_total mt + total protocol_count evs
   \<and> mt_modbus_error_total mt' = mt_modbus_error_total mt + total (error_count_of ModbusRtu) evs
   \<and> mt_can_error_total mt' = mt_can_error_total mt + total (error_count_of SocketCan) evs"

lemma counted_trans: "counted evs mt mt1 \<Longrightarrow> counted evs' mt1 mt2 \<Longrightarrow> counted (evs @ evs') mt mt2"
  by (simp add: counted_def)

lemma counted_same: "device_counters mt' = device_counters mt \<Longrightarrow> counted [] mt mt'"
  by (simp add: counted_def device_counters_def)

lemma counted_counters: "device_counters mt1 = device_counters mt2 \<Longrightarrow> counted evs mt mt1 = counted evs mt mt2"
  by (simp add: counted_def device_counters_def)

lemma on_device_error_counted:
  "counted [ErrorEvent protocol code error stats] mt (on_device_error protocol stats mt)"
  by (cases protocol)
    (simp_all add: counted_def on_device_error_def Let_def metric_defs error_count_of_def)

lemma on_device_data_counted:
  assumes "on_device_data pub ops tp inputs data protocol g = Some g'" and "rp_metrics (gw_mqtt g) = Some mt"
  shows "\<exists>mt'. rp_metrics (gw_mqtt g') = Some mt' \<and> counted [DataEvent data protocol] mt mt'"
proof (cases "s_valid data")
  case False
  with assms show ?thesis
    by (auto simp: on_device_data_def publish_invalid gw_write_def gw_update_metrics_def update_metrics_def counted_def
        metric_defs no_error_stats_def invalid_frame_count_def error_count_of_def Let_def)
next
  case True
  let ?g = "gw_update_metrics (record_frames_parsed 1) g"
  have publish: "publish_sensor_data pub ops tp inputs data protocol ?g = Some g'"
    using assms(1) by (simp add: on_device_data_def)
  obtain status rp f where pub: "reliable_publish pub ops (ch_mqtt (hd inputs)) (build_mqtt_topic tp data)
        (sensor_data_to_json data) (gw_mqtt ?g) = (status, rp)"
      and g': "gw_mqtt g' = update_metrics f rp" "tcp_published (if gw_tcp_enabled ?g then 1 else 0) f"
        "inputs \<noteq> []" "gw_tcp_enabled g' = gw_tcp_enabled ?g"
    using publish_sensor_data_effect [OF publish True] .
  have "input_counters (gw_mqtt g') = input_counters (gw_mqtt ?g)"
    using g' input_counters_publish [OF pub] by (simp add: tcp_published_def)
  then obtain mt' where mt': "rp_metrics (gw_mqtt g') = Some mt'"
      "device_counters mt' = device_counters (record_frames_parsed 1 mt)"
    using assms(2) by (auto simp: input_counters_def gw_update_metrics_def update_metrics_def)
  have "counted [DataEvent data protocol] mt (record_frames_parsed 1 mt)"
    using True by (simp add: counted_def metric_defs no_error_stats_def invalid_frame_count_def error_count_of_def)
  then show ?thesis using mt' counted_counters by blast
qed

lemma run_actions_counted:
  assumes "run_actions pub ops tp acts g = Some g'" and "rp_metrics (gw_mqtt g) = Some mt"
  shows "\<exists>mt'. rp_metrics (gw_mqtt g') = Some mt' \<and> counted (concat (map action_events acts)) mt mt'"
  using assms
proof (induction acts arbitrary: g mt)
  case Nil
  then show ?case by (simp add: counted_same)
next
  case (Cons act acts)
  have "\<exists>g1 mt1. run_actions pub ops tp acts g1 = Some g' \<and> rp_metrics (gw_mqtt g1) = Some mt1
      \<and> counted (action_events act) mt mt1"
  proof (cases act)
    case (HandleEvent inputs ev)
    then obtain g1 where g1: "handle_manager_event pub ops tp inputs ev g = Some g1"
        "run_actions pub ops tp acts g1 = Some g'"
      using Cons.prems(1) by (auto simp: bind_eq_Some_conv)
    show ?thesis
    proof (cases ev)
      case (DataEvent data protocol)
      with g1 on_device_data_counted [of pub ops tp inputs data protocol g g1 mt] Cons.prems(2) HandleEvent show ?thesis
        by auto
    next
      case (ErrorEvent protocol code error stats)
      with g1 Cons.prems(2) HandleEvent on_device_error_counted show ?thesis
        by (auto simp: gw_write_def gw_update_metrics_def update_metrics_def)
    qed
  next
    case (FlushCache input)
    let ?g1 = "gateway_flush pub ops input g"
    have "input_counters (gw_mqtt ?g1) = input_counters (gw_mqtt g)"
      by (simp add: gateway_flush_def input_counters_flush)
    then obtain mt1 where "rp_metrics (gw_mqtt ?g1) = Some mt1" "device_counters mt1 = device_counters mt"
      using Cons.prems(2) by (auto simp: input_counters_def)
    with Cons.prems(1) FlushCache counted_same show ?thesis by fastforce
  qed
  then obtain g1 mt1 where "run_actions pub ops tp acts g1 = Some g'" "rp_metrics (gw_mqtt g1) = Some mt1"
      "counted (action_events act) mt mt1" by blast
  with Cons.IH [of g1 mt1] counted_trans show ?case by fastforce
qed

fun idle_timeout :: "manager_event \<Rightarrow> bool" where
  "idle_timeout (DataEvent data protocol) = False"
| "idle_timeout (ErrorEvent protocol code error stats) =
     (protocol = ModbusRtu \<and> code = Timeout \<and> error = [] \<and> stats_empty stats)"

abbreviation invalid_data :: "manager_event list \<Rightarrow> sensor_data list" where
  "invalid_data evs \<equiv> filter (\<lambda>d. \<not> s_valid d) (concat (map event_data evs))"

abbreviation valid_data :: "manager_event list \<Rightarrow> sensor_data list" where
  "valid_data evs \<equiv> filter s_valid (concat (map event_data evs))"

lemma protocol_count_event:
  "event_reportable ev \<Longrightarrow> protocol_count ev
    = event_errors ev + (if idle_timeout ev then 1 else 0) + length (invalid_data [ev])"
  by (cases ev) (auto simp: handler_count_def read_error_count_def split: ReadCode.split)

lemma protocol_count_events:
  "list_all event_reportable evs \<Longrightarrow> sum_list (map protocol_count evs)
    = sum_list (map event_errors evs) + length (filter idle_timeout evs) + length (invalid_data evs)"
  by (induction evs) (use protocol_count_event in auto)

section \<open>Messages of the gateway\<close>

lemma contains_separator_append [simp]:
  "contains_separator (a @ b) \<longleftrightarrow> contains_separator a \<or> contains_separator b"
  by (auto simp: contains_separator_def)

lemma printable_storable: "printable s \<Longrightarrow> \<not> contains_separator s"
  by (auto simp: contains_separator_def dest: printable_no_control)

lemma checked_json_printable: "checked_reading data \<Longrightarrow> printable (sensor_data_to_json data)"
  by (auto simp: checked_reading_def reading_def Let_def intro!: printable_sensor_json printable_range_warnings)

lemma message_of_storable:
  assumes "\<not> contains_separator tp" "checked_reading data"
  shows "storable (message_of tp data)"
proof -
  have "\<not> contains_separator (''/'' @ nat_to_dec (unat (s_device_id data)) @ ''/data'')"
    by (rule printable_storable) simp
  with assms printable_storable [OF checked_json_printable [OF assms(2)]] show ?thesis
    by (simp add: storable_def message_of_def build_mqtt_topic_def del: append.simps)
qed

lemma run_actions_Cons:
  "run_actions pub ops tp (act # acts) g = Option.bind (run_actions pub ops tp [act] g) (run_actions pub ops tp acts)"
  by (cases act) simp_all

section \<open>No reading is lost\<close>

definition kept :: "('c \<Rightarrow> cached_message list) \<Rightarrow> ('k, 'c) gateway \<Rightarrow> cached_message multiset" where
  "kept contents g = mset (acked (gw_mqtt g)) + mset (contents (rp_cache (gw_mqtt g)))"

fun disk_ok :: "('e \<Rightarrow> bool) \<Rightarrow> ('e \<Rightarrow> bool) \<Rightarrow> ('i, 'e) gateway_action \<Rightarrow> bool" where
  "disk_ok works clean (HandleEvent inputs ev) =
     list_all (\<lambda>i. works (pi_append (ch_mqtt i)) \<and> clean (pi_load (ch_mqtt i))) inputs"
| "disk_ok works clean (FlushCache input) = (clean (fi_load input) \<and> clean (fi_remove input))"

text \<open>
  \<open>grows k new k'\<close>: the messages kept in \<open>k\<close> and the new ones are all kept in \<open>k'\<close>, with at least the same
  multiplicity, and there are no others.
\<close>

definition grows :: "'m multiset \<Rightarrow> 'm multiset \<Rightarrow> 'm multiset \<Rightarrow> bool" where
  "grows k new k' \<longleftrightarrow> k + new \<subseteq># k' \<and> set_mset k' \<subseteq> set_mset k \<union> set_mset new"

lemma grows_refl: "grows k {#} k"
  by (simp add: grows_def)

lemma grows_trans:
  assumes "grows k n1 k1" "grows k1 n2 k2"
  shows "grows k (n1 + n2) k2"
proof -
  have "k + (n1 + n2) \<subseteq># k2"
    using assms subset_mset.order_trans [OF subset_mset.add_right_mono [of "k + n1" k1 n2]]
    by (simp add: grows_def ac_simps)
  with assms show ?thesis by (auto simp: grows_def)
qed

text \<open>
  A cache that stores what the gateway publishes: with a topic prefix it can hold, every
  append in a working environment succeeds.
\<close>

locale storing_cache = publisher_over_cache ops invar contents clean accepts
  for ops :: "('c, 'e) cache_ops" and invar :: "'c \<Rightarrow> bool" and contents :: "'c \<Rightarrow> cached_message list"
    and clean :: "'e \<Rightarrow> bool" and accepts :: "cached_message \<Rightarrow> bool" +
  fixes works :: "'e \<Rightarrow> bool" and good_prefix :: "string \<Rightarrow> bool"
  assumes works_clean: "works e \<Longrightarrow> clean e"
    and readings_accepted: "good_prefix tp \<Longrightarrow> checked_reading data \<Longrightarrow> accepts (message_of tp data)"
    and append_works: "invar c \<Longrightarrow> works e \<Longrightarrow> good_prefix tp \<Longrightarrow> checked_reading data
      \<Longrightarrow> cache_append ops e (build_mqtt_topic tp data) (sensor_data_to_json data) c = (ok, c') \<Longrightarrow> ok"
begin

lemma publish_stored:
  assumes "reliable_publish pub ops input (build_mqtt_topic tp data) (sensor_data_to_json data) rp = (status, rp')"
    and "invar (rp_cache rp)" "works (pi_append input)" "good_prefix tp" "checked_reading data"
  shows "status \<noteq> Failed"
proof -
  obtain ok rp1 where at: "attempt pub (pi_mqtt input) (message_of tp data) rp = (ok, rp1)" by fastforce
  have "rp_cache rp1 = rp_cache rp" using attempt_effect [OF at] by simp
  then have "fst (cache_append ops (pi_append input) (build_mqtt_topic tp data) (sensor_data_to_json data) (rp_cache rp1))"
    using append_works [OF assms(2-5)] by (metis prod.collapse)
  with assms(1) at show ?thesis
    by (cases ok) (auto simp: reliable_publish_def message_of_def Let_def split: prod.splits bool.splits)
qed

lemma data_event_kept:
  assumes "on_device_data pub ops tp inputs data protocol g = Some g'" "invar (rp_cache (gw_mqtt g))"
    and "disk_ok works clean (HandleEvent inputs (DataEvent data protocol))" "good_prefix tp" "checked_reading data"
  shows "invar (rp_cache (gw_mqtt g'))
    \<and> kept contents g' = kept contents g + mset (map (message_of tp) (filter s_valid [data]))"
proof (cases "s_valid data")
  case False
  with assms(1,2) show ?thesis
    by (auto simp: on_device_data_def publish_invalid gw_write_def gw_update_metrics_def kept_def)
next
  case True
  let ?g = "gw_update_metrics (record_frames_parsed 1) g" and ?m = "message_of tp data"
  have publish: "publish_sensor_data pub ops tp inputs data protocol ?g = Some g'"
    using assms(1) by (simp add: on_device_data_def)
  obtain status rp f where pub: "reliable_publish pub ops (ch_mqtt (hd inputs)) (build_mqtt_topic tp data)
        (sensor_data_to_json data) (gw_mqtt ?g) = (status, rp)"
      and g': "gw_mqtt g' = update_metrics f rp" "tcp_published (if gw_tcp_enabled ?g then 1 else 0) f"
        "inputs \<noteq> []" "gw_tcp_enabled g' = gw_tcp_enabled ?g"
    using publish_sensor_data_effect [OF publish True] .
  have env: "works (pi_append (ch_mqtt (hd inputs)))" "clean (pi_load (ch_mqtt (hd inputs)))"
    using assms(3) g'(3) by (cases inputs; simp)+
  have same: "rp_cache (gw_mqtt ?g) = rp_cache (gw_mqtt g)" "acked (gw_mqtt ?g) = acked (gw_mqtt g)"
    by (simp_all add: gw_update_metrics_def)
  have "status \<noteq> Failed"
    using publish_stored [OF pub _ env(1) assms(4,5)] assms(2) same by simp
  moreover have "invar (rp_cache rp)
      \<and> acked rp = acked (gw_mqtt g) @ (if status = Published then [?m] else [])
      \<and> contents (rp_cache rp) = contents (rp_cache (gw_mqtt g)) @ (if status = Deferred then [?m] else [])"
    using publish_effect [OF _ works_clean [OF env(1)] env(2) _ pub] assms(2) readings_accepted [OF assms(4,5)]
    unfolding same message_of_def by simp
  ultimately show ?thesis
    using g'(1) True by (cases status) (auto simp: kept_def)
qed

lemma flush_kept:
  fixes pub :: "('k, 'i) mqtt_publish_op"
  assumes "invar (rp_cache (gw_mqtt g))" "clean (fi_load input)" "clean (fi_remove input)"
  defines "g' \<equiv> gateway_flush pub ops input g"
  shows "invar (rp_cache (gw_mqtt g')) \<and> grows (kept contents g) {#} (kept contents g')"
proof -
  obtain n rp where fl: "flush_cache pub ops input (gw_mqtt g) = (n, rp)" by fastforce
  let ?q = "contents (rp_cache (gw_mqtt g))"
  have eff: "invar (rp_cache rp)" "acked rp = acked (gw_mqtt g) @ take n ?q"
      "contents (rp_cache rp) = drop n ?q \<or> contents (rp_cache rp) = ?q"
    using flush_effect [OF assms(1-3) fl] by auto
  have "mset (take n ?q) + mset (drop n ?q) = mset ?q" by (metis append_take_drop_id mset_append)
  then have "kept contents g \<subseteq># kept contents g'"
    using eff(2,3) fl by (auto simp: kept_def g'_def gateway_flush_def ac_simps)
  moreover have "set_mset (kept contents g') \<subseteq> set_mset (kept contents g)"
    using eff(2,3) fl by (auto simp: kept_def g'_def gateway_flush_def dest: in_set_takeD in_set_dropD)
  ultimately show ?thesis using eff(1) fl by (simp add: g'_def gateway_flush_def grows_def)
qed

lemma action_kept:
  assumes "run_actions pub ops tp [act] g = Some g'" "invar (rp_cache (gw_mqtt g))"
    and "disk_ok works clean act" "good_prefix tp"
    and "list_all checked_reading (concat (map event_data (action_events act)))"
  defines "new \<equiv> mset (map (message_of tp) (valid_data (action_events act)))"
  shows "invar (rp_cache (gw_mqtt g')) \<and> grows (kept contents g) new (kept contents g')"
proof (cases act)
  case (HandleEvent inputs ev)
  then have handle: "handle_manager_event pub ops tp inputs ev g = Some g'"
    using assms(1) by (auto simp: bind_eq_Some_conv)
  show ?thesis
  proof (cases ev)
    case (DataEvent data protocol)
    then show ?thesis
      using data_event_kept [of pub tp inputs data protocol g g'] handle assms(2-5) HandleEvent by (simp add: new_def grows_def)
  next
    case (ErrorEvent protocol code error stats)
    then show ?thesis
      using handle assms(2) HandleEvent by (auto simp: gw_write_def gw_update_metrics_def kept_def new_def grows_def)
  qed
next
  case (FlushCache input)
  with assms show ?thesis using flush_kept [of g input pub] by (auto simp: new_def)
qed

lemma run_actions_kept:
  assumes "run_actions pub ops tp acts g = Some g'" "invar (rp_cache (gw_mqtt g))"
    and "list_all (disk_ok works clean) acts" "good_prefix tp"
    and "list_all checked_reading (concat (map event_data (concat (map action_events acts))))"
  defines "new \<equiv> mset (map (message_of tp) (valid_data (concat (map action_events acts))))"
  shows "invar (rp_cache (gw_mqtt g')) \<and> grows (kept contents g) new (kept contents g')"
  using assms(1-3,5) unfolding new_def
proof (induction acts arbitrary: g)
  case (Cons act acts)
  obtain g1 where g1: "run_actions pub ops tp [act] g = Some g1" "run_actions pub ops tp acts g1 = Some g'"
    using Cons.prems(1) by (subst (asm) run_actions_Cons) (auto simp: bind_eq_Some_conv)
  let ?n1 = "mset (map (message_of tp) (valid_data (action_events act)))"
  let ?n2 = "mset (map (message_of tp) (valid_data (concat (map action_events acts))))"
  have first: "invar (rp_cache (gw_mqtt g1))" "grows (kept contents g) ?n1 (kept contents g1)"
    using action_kept [OF g1(1)] Cons.prems assms(4) by simp_all
  have rest: "invar (rp_cache (gw_mqtt g'))" "grows (kept contents g1) ?n2 (kept contents g')"
    using Cons.IH [OF g1(2) first(1)] Cons.prems by simp_all
  from rest(1) grows_trans [OF first(2) rest(2)] show ?case by simp
qed (simp add: grows_refl)

end

text \<open>The file cache stores the messages of the gateway.\<close>

definition file_works :: "file_env \<Rightarrow> bool" where
  "file_works e \<longleftrightarrow> fe_append_open e \<and> \<not> fe_mkdir_fails e \<and> fe_append_write e = None \<and> fe_read_open e"

interpretation fgate: storing_cache file_ops file_invar file_contents file_clean "\<lambda>_. True" file_works
  "\<lambda>tp. \<not> contains_separator tp"
proof unfold_locales
  fix c c' :: file_cache and e tp data ok
  assume "file_works e" "\<not> contains_separator tp" "checked_reading data"
    "cache_append file_ops e (build_mqtt_topic tp data) (sensor_data_to_json data) c = (ok, c')"
  then show ok
    using message_of_storable [of tp data]
    by (auto simp: file_ops_def file_append_def file_works_def storable_def message_of_def written_def Let_def
        split: if_splits)
qed (simp_all add: file_works_def file_clean_def)

section \<open>Handling an event ends\<close>

text \<open>
  The MQTT publisher always returns; the TCP publisher does when \<open>send\<close> is interrupted less often
  than it is asked.
\<close>

definition sends_enough :: "string \<Rightarrow> ('i, 'e) channel_input \<Rightarrow> bool" where
  "sends_enough json input \<longleftrightarrow>
     length json + 1 \<le> length (filter (\<lambda>a. a \<noteq> Inl EINTR) (ts_sends (ch_tcp input)))"

lemma tcp_publish_returns:
  assumes "sends_enough json input"
  shows "\<exists>status c'. tcp_publish (ch_tcp input) topic json c = Some (status, c')"
proof -
  obtain conn c1 where c1: "(if tcp_is_connected c then (True, c) else connect_to_server (ts_lookup (ch_tcp input)) c)
      = (conn, c1)" by fastforce
  obtain ok c2 where "send_all (ts_sends (ch_tcp input)) (json @ [newline]) c1 = Some (ok, c2)"
    using send_all_returns [of "json @ [newline]" "ts_sends (ch_tcp input)" c1] assms
    by (auto simp: sends_enough_def)
  then have "\<exists>ok c'. send_json (ch_tcp input) json c = Some (ok, c')"
    unfolding send_json_def c1 by (cases conn; cases ok) (auto intro: exI [of _ True] exI [of _ False])
  then show ?thesis by (auto simp: tcp_publish_def)
qed

lemma publish_returns:
  assumes "length (gateway_channels g) \<le> length inputs"
    and "gw_tcp_enabled g \<Longrightarrow> sends_enough (sensor_data_to_json data) (inputs ! 1)"
  shows "\<exists>g'. publish_sensor_data pub ops tp inputs data protocol g = Some g'"
proof (cases "s_valid data")
  case True
  obtain i "is" where inputs: "inputs = i # is"
    using assms(1) by (cases inputs) (simp_all add: gateway_channels_def group_add_def)
  obtain status rp where rp: "reliable_publish pub ops (ch_mqtt i) (build_mqtt_topic tp data) (sensor_data_to_json data)
      (gw_mqtt g) = (status, rp)" by fastforce
  note defs = publish_sensor_data_def gateway_channels_def group_add_def channel_vtable_def Let_def
  show ?thesis
  proof (cases "gw_tcp_enabled g")
    case True
    then obtain j js where "is = j # js"
      using assms(1) inputs by (cases "is") (simp_all add: gateway_channels_def group_add_def)
    with True rp inputs tcp_publish_returns [of "sensor_data_to_json data" j "build_mqtt_topic tp data" "gw_tcp g"]
      assms(2) \<open>s_valid data\<close>
    show ?thesis by (auto simp: defs)
  next
    case False
    with rp inputs \<open>s_valid data\<close> show ?thesis by (simp add: defs)
  qed
qed (simp add: publish_invalid)

lemma handle_event_returns:
  assumes "length (gateway_channels g) \<le> length inputs" "gw_tcp_enabled g
      \<Longrightarrow> list_all (\<lambda>data. sends_enough (sensor_data_to_json data) (inputs ! 1)) (event_data ev)"
  shows "\<exists>g'. handle_manager_event pub ops tp inputs ev g = Some g'"
proof (cases ev)
  case (DataEvent data protocol)
  then show ?thesis
    using publish_returns [of "gw_update_metrics (record_frames_parsed 1) g" inputs data pub ops tp protocol] assms
    by (cases "gw_tcp_enabled g")
      (simp_all add: on_device_data_def gw_update_metrics_def gateway_channels_def group_add_def)
qed simp

end
