(* ===== verification/GatewayExamples.thy ===== *)
theory GatewayExamples
  imports Gateway
begin

text \<open>
  Concrete gateways, devices and runs, on which the properties of the gateway are applied.
\<close>

text \<open>A gateway with a file cache, no TCP channel, and a broker that may be unreachable.\<close>

definition broker :: "(unit, bool) mqtt_publish_op" where
  "broker reachable topic payload k = (reachable, k)"

definition example_gateway :: "(unit, file_cache) gateway" where
  "example_gateway = \<lparr>gw_mqtt = reliable_publisher_new file_ops good_env () (file_cache_new ''data/cache.txt'' None)
       (Some (runtime_metrics_new 0)), gw_tcp = tcp_client_new ''localhost'' 9000, gw_tcp_enabled = False, gw_log = []\<rparr>"

definition example_start :: any_start_input where
  "example_start = \<lparr>as_uart = example_open, as_modbus = \<lparr>ms_serial = example_open, ms_now = 0\<rparr>,
     as_can = \<lparr>ca_socket = Inr 5, ca_ifindex = (\<lambda>_. Inr 3), ca_bind = (\<lambda>_. None)\<rparr>\<rparr>"

definition example_can_input :: can_read_input where
  "example_can_input = \<lparr>cr_can = \<lparr>ca_polls = [PollReady POLLIN],
       ca_recv = CanRecv \<lparr>k_can_id = 0x123, k_can_dlc = 8, k_data = can_payload 253 608 300 37 0\<rparr>\<rparr>,
     cr_unix_seconds = 1700000000\<rparr>"

text \<open>A Modbus poll at time \<open>now\<close> that nobody answers.\<close>

definition example_silent_poll :: "int \<Rightarrow> modbus_read_input" where
  "example_silent_poll now = \<lparr>mr_now = now, mr_tcflush = None, mr_writes = [Inr 8], mr_sent_at = now,
     mr_rounds = [\<lparr>rd_now = now + 500000000, rd_now_remaining = now, rd_serial = (\<lambda>_. \<lparr>sr_polls = [PollTimeout], sr_read = Inr []\<rparr>)\<rparr>],
     mr_unix_seconds = 1700000000\<rparr>"

definition example_turn :: "int \<Rightarrow> (any_start_input, any_read_input) worker_input" where
  "example_turn now = \<lparr>wi_running = True, wi_start = example_start,
     wi_read = \<lparr>ar_uart = example_read [], ar_modbus = example_silent_poll now, ar_can = example_can_input\<rparr>\<rparr>"

definition example_reading :: sensor_data where
  "example_reading = reading 0x23 0x01 253 608 300 3700 0 0"

definition started_with :: "any_device \<Rightarrow> any_device device_manager" where
  "started_with d = manager_start 1700000000 (manager_add d (device_manager_new 10))"

lemma started_with_reach: "new_device d \<Longrightarrow> manager_reach any_ops new_device (started_with d) []"
  unfolding started_with_def by (intro manager_reach.intros)

lemma example_can_turn:
  "\<exists>m. worker_turn any_ops 0 (example_turn now) (manager_start t (manager_add (CanDev (can_new ''can0'')) (device_manager_new hb)))
     = Some ([DataEvent example_reading SocketCan], m)"
proof -
  let ?frame = "\<lparr>can_id = 0x123, extended = False, dlc = 8, can_data = can_payload 253 608 300 37 0\<rparr>"
  have frame: "read_frame (cr_can example_can_input) s can_frame_init = Some (1, ?frame, [])" for s
    by (simp add: read_frame_def example_can_input_def poll_bits can_consts can_payload_def eval_nat_numeral)
  obtain dd where dd: "parse_sensor_frame ?frame device_data_init = (True, dd, [])"
      "to_sensor_data dd = example_reading"
    using parse_sensor_frame_ok [of ?frame 253 608 300 37 0 device_data_init]
    by (auto simp: example_reading_def)
  show ?thesis
    by (simp add: worker_turn_def worker_pass_def manager_start_def manager_add_def
        device_manager_new_def example_turn_def example_start_def can_start_def can_new_def open_device_def socketcan_new_def
        can_read_def frame dd data_events_def error_events_def report_error_def Let_def device_status_init_def)
qed

lemma example_can_reach:
  "\<exists>m. manager_reach any_ops new_device m [DataEvent example_reading SocketCan]"
proof -
  obtain m where "worker_turn any_ops 0 (example_turn 0) (started_with (CanDev (can_new ''can0'')))
      = Some ([DataEvent example_reading SocketCan], m)"
    using example_can_turn unfolding started_with_def by blast
  from reach_turn [OF started_with_reach this] show ?thesis by (auto simp: new_device_def)
qed

definition example_modbus_device :: modbus_device where
  "example_modbus_device = modbus_new \<lparr>mo_port = ''/dev/ttyUSB1'', mo_baud_rate = 9600, mo_request = read_request_init,
     mo_poll_interval_ms = 1000, mo_response_timeout_ms = 500\<rparr>"

text \<open>One unanswered poll, then a read call before the next poll is due.\<close>

lemma example_modbus_events:
  "\<exists>m. manager_reach any_ops new_device m
     [ErrorEvent ModbusRtu Timeout ''Modbus response timeout'' no_error_stats,
      ErrorEvent ModbusRtu Timeout [] no_error_stats]"
proof -
  let ?m0 = "started_with (ModbusDev example_modbus_device)"
  have reach: "manager_reach any_ops new_device ?m0 []"
    by (rule started_with_reach) (auto simp: new_device_def example_modbus_device_def)
  have "length (build_read_request read_request_init) = 8"
    by (simp add: build_read_request_def append_u16_be_def Let_def)
  then obtain b bs where req: "build_read_request read_request_init = b # bs" "length bs = 7"
    by (auto simp: eval_nat_numeral length_Suc_conv)
  note defs = started_with_def worker_turn_def worker_pass_def manager_start_def manager_add_def Let_def
    device_manager_new_def example_turn_def example_start_def example_silent_poll_def data_events_def error_events_def report_error_def
  obtain d where first: "worker_turn any_ops 0 (example_turn 0) ?m0
      = Some ([ErrorEvent ModbusRtu Timeout ''Modbus response timeout'' no_error_stats],
          ?m0\<lparr>devices := [ModbusDev d], workers := [True]\<rparr>)"
      and d: "m_next_poll d = 1000000000" "modbus_invar d"
    using req
    by (simp add: defs example_modbus_device_def modbus_new_def modbus_start_def open_port_def example_open_def
        modbus_read_def modbus_finish_def discard_input_def is_open_def ns_of_ms_def serial_port_init_def
        device_status_init_def modbus_record_error_def modbus_invar_def to_speed_def)
  have "worker_turn any_ops 0 (example_turn 1000) (?m0\<lparr>devices := [ModbusDev d], workers := [True]\<rparr>)
      = Some ([ErrorEvent ModbusRtu Timeout [] no_error_stats], ?m0\<lparr>devices := [ModbusDev d], workers := [True]\<rparr>)"
    using d modbus_idle_reported_as_error [of "example_turn 1000" d]
    by (simp add: worker_turn_def started_with_def manager_start_def example_turn_def example_silent_poll_def)
  from reach_turn [OF reach_turn [OF reach first] this] show ?thesis by auto
qed

lemma example_gateway_simps [simp]:
  "file_invar (rp_cache (gw_mqtt example_gateway))" "rp_metrics (gw_mqtt example_gateway) = Some (runtime_metrics_new 0)"
  "\<not> gw_tcp_enabled example_gateway"
  by (simp_all add: example_gateway_def reliable_publisher_new_def measure_cache_def file_ops_def file_invar_def
      file_contents_def file_cache_new_def file_load_all_def metric_defs runtime_metrics_new_def)

definition example_input :: "bool \<Rightarrow> (bool, file_env) channel_input" where
  "example_input reachable = \<lparr>ch_mqtt = \<lparr>pi_mqtt = reachable, pi_append = good_env, pi_load = good_env\<rparr>,
     ch_tcp = example_send\<rparr>"

definition example_flush :: "(bool, file_env) flush_input" where
  "example_flush = \<lparr>fi_load = good_env, fi_mqtt = (\<lambda>_. True), fi_remove = good_env\<rparr>"

end
