(* ===== verification/SqliteCache.thy ===== *)
theory SqliteCache
  imports MessageCache Posix "HOL-Library.Multiset"
begin

text \<open>
  \<^verbatim>\<open>src/src/cache/sqlite_cache.{h,cpp}\<close>: the cache in an SQLite database. The engine is not part of
  the sources: its functions are the fields of a record argument, on a database of type \<open>'db\<close> and
  prepared statements of type \<open>'st\<close>; what the cache relies on are the laws of the locale
  \<open>sqlite_engine_laws\<close>, for the statements the cache uses. An in-memory table shows that the laws
  can hold.
\<close>

section \<open>The engine\<close>

datatype step_result = StepRow | StepDone | StepError

record ('db, 'st, 'e) sqlite_engine =
  sqlite_open :: "'e \<Rightarrow> string \<Rightarrow> bool \<times> 'db option"
  sqlite_exec :: "'e \<Rightarrow> string \<Rightarrow> 'db \<Rightarrow> bool \<times> string option \<times> 'db"
  sqlite_prepare :: "'e \<Rightarrow> string \<Rightarrow> 'db \<Rightarrow> 'st option"
  sqlite_bind_text :: "'e \<Rightarrow> 'st \<Rightarrow> nat \<Rightarrow> string \<Rightarrow> int \<Rightarrow> bool \<times> 'st"
  sqlite_bind_int :: "'e \<Rightarrow> 'st \<Rightarrow> nat \<Rightarrow> int \<Rightarrow> bool \<times> 'st"
  sqlite_step :: "'e \<Rightarrow> 'st \<Rightarrow> 'db \<Rightarrow> step_result \<times> 'st \<times> 'db"
  sqlite_column_text :: "'st \<Rightarrow> nat \<Rightarrow> string option"
  sqlite_errmsg :: "'db \<Rightarrow> string"
  sqlite_errstr :: "'e \<Rightarrow> string"

section \<open>The cache\<close>

record 'db sqlite_cache =
  sq_path :: string
  sq_database :: "'db option"
  sq_ready :: bool
  sq_error_message :: string

definition create_table_sql :: string where
  "create_table_sql = [newline] @ ''CREATE TABLE IF NOT EXISTS pending_messages ('' @ [newline]
     @ ''    id INTEGER PRIMARY KEY AUTOINCREMENT,'' @ [newline]
     @ ''    topic TEXT NOT NULL,'' @ [newline]
     @ ''    payload TEXT NOT NULL,'' @ [newline]
     @ ''    created_at TEXT NOT NULL DEFAULT CURRENT_TIMESTAMP'' @ [newline] @ '')'' @ [newline]"

definition insert_sql :: string where
  "insert_sql = ''INSERT INTO pending_messages(topic, payload) VALUES(?, ?)''"

definition select_sql :: string where
  "select_sql = ''SELECT topic, payload FROM pending_messages ORDER BY id''"

definition delete_sql :: string where
  "delete_sql = [newline] @ ''DELETE FROM pending_messages'' @ [newline] @ ''WHERE id IN ('' @ [newline]
     @ ''    SELECT id FROM pending_messages'' @ [newline] @ ''    ORDER BY id'' @ [newline]
     @ ''    LIMIT ?'' @ [newline] @ '')'' @ [newline]"

definition set_error :: "string \<Rightarrow> 'db sqlite_cache \<Rightarrow> 'db sqlite_cache" where
  "set_error message c = c\<lparr>sq_error_message := message\<rparr>"

definition execute ::
  "('db, 'st, 'e) sqlite_engine \<Rightarrow> 'e \<Rightarrow> string \<Rightarrow> 'db sqlite_cache \<Rightarrow> bool \<times> 'db sqlite_cache" where
  "execute eng e sql c =
     (case sq_database c of
        None \<Rightarrow> (False, c)
      | Some db \<Rightarrow>
          (case sqlite_exec eng e sql db of (ok, sqlite_error, db') \<Rightarrow>
             let c1 = c\<lparr>sq_database := Some db'\<rparr> in
             if ok then (True, c1)
             else (False, set_error (''SQLite command failed: ''
                    @ (case sqlite_error of Some m \<Rightarrow> m | None \<Rightarrow> sqlite_errmsg eng db')) c1)))"

record 'e sqlite_init_env =
  si_mkdir :: "string option"
  si_open :: 'e
  si_exec :: "nat \<Rightarrow> 'e"

definition sqlite_initialize ::
  "('db, 'st, 'e) sqlite_engine \<Rightarrow> 'e sqlite_init_env \<Rightarrow> 'db sqlite_cache \<Rightarrow> bool \<times> 'db sqlite_cache" where
  "sqlite_initialize eng env c =
     (case (if has_parent (sq_path c) then si_mkdir env else None) of
        Some m \<Rightarrow> (False, set_error (''create cache directory failed: '' @ m) c)
      | None \<Rightarrow>
          (case sqlite_open eng (si_open env) (sq_path c) of (opened, db) \<Rightarrow>
             let c1 = c\<lparr>sq_database := db\<rparr> in
             if \<not> opened then
               (False, set_error (''open SQLite cache failed: ''
                  @ (case db of Some d \<Rightarrow> sqlite_errmsg eng d | None \<Rightarrow> sqlite_errstr eng (si_open env))) c1)
             else
               (case execute eng (si_exec env 0) ''PRAGMA journal_mode=WAL'' c1 of
                  (False, c2) \<Rightarrow> (False, c2)
                | (True, c2) \<Rightarrow>
                    (case execute eng (si_exec env 1) ''PRAGMA synchronous=FULL'' c2 of
                       (False, c3) \<Rightarrow> (False, c3)
                     | (True, c3) \<Rightarrow> execute eng (si_exec env 2) create_table_sql c3))))"

text \<open>
  The member \<open>error_message_\<close> is constructed after \<open>ready_\<close>, so the text that a failing
  initialisation assigns is replaced by the empty string.
\<close>

definition sqlite_cache_new ::
  "('db, 'st, 'e) sqlite_engine \<Rightarrow> 'e sqlite_init_env \<Rightarrow> string \<Rightarrow> 'db sqlite_cache" where
  "sqlite_cache_new eng env path =
     (case sqlite_initialize eng env \<lparr>sq_path = path, sq_database = None, sq_ready = False, sq_error_message = []\<rparr> of
        (ok, c) \<Rightarrow> c\<lparr>sq_ready := ok, sq_error_message := []\<rparr>)"

definition sqlite_is_ready :: "'db sqlite_cache \<Rightarrow> bool" where
  "sqlite_is_ready c = sq_ready c"

definition sqlite_destroy :: "'db sqlite_cache \<Rightarrow> 'db sqlite_cache" where
  "sqlite_destroy c = c\<lparr>sq_database := None\<rparr>"

text \<open>The size argument is converted to a 32-bit \<open>int\<close>.\<close>

definition int_of_size :: "nat \<Rightarrow> int" where
  "int_of_size n = sint (of_nat n :: u32)"

definition sqlite_append ::
  "('db, 'st, 'e) sqlite_engine \<Rightarrow> 'e \<Rightarrow> string \<Rightarrow> string \<Rightarrow> 'db sqlite_cache \<Rightarrow> bool \<times> 'db sqlite_cache" where
  "sqlite_append eng e topic payload c =
     (if \<not> sq_ready c then (False, c)
      else (case sq_database c of
        None \<Rightarrow> (False, c)
      | Some db \<Rightarrow>
          (case sqlite_prepare eng e insert_sql db of
             None \<Rightarrow> (False, set_error (''prepare cache insert failed: '' @ sqlite_errmsg eng db) c)
           | Some st \<Rightarrow>
               (case sqlite_bind_text eng e st 1 topic (int_of_size (length topic)) of (topic_result, st1) \<Rightarrow>
               (case sqlite_bind_text eng e st1 2 payload (int_of_size (length payload)) of (payload_result, st2) \<Rightarrow>
                  let (success, db') =
                    (if topic_result \<and> payload_result
                     then (case sqlite_step eng e st2 db of (r, st3, db1) \<Rightarrow> (r = StepDone, db1))
                     else (False, db));
                      c1 = c\<lparr>sq_database := Some db'\<rparr>
                  in if success then (True, c1)
                     else (False, set_error (''insert cache message failed: '' @ sqlite_errmsg eng db') c1))))))"

text \<open>A text column is read as a C string.\<close>

definition c_string :: "string option \<Rightarrow> string" where
  "c_string t = (case t of Some s \<Rightarrow> takeWhile (\<lambda>ch. ch \<noteq> CHR 0x00) s | None \<Rightarrow> [])"

partial_function (option) fetch_rows ::
  "('db, 'st, 'e) sqlite_engine \<Rightarrow> 'e \<Rightarrow> 'st \<Rightarrow> 'db \<Rightarrow> cached_message list
    \<Rightarrow> (step_result \<times> cached_message list \<times> 'db) option" where
  "fetch_rows eng e st db messages =
     (case sqlite_step eng e st db of (step_result, st', db') \<Rightarrow>
        if step_result = StepRow
        then fetch_rows eng e st' db' (messages @ [msg (c_string (sqlite_column_text eng st' 0))
               (c_string (sqlite_column_text eng st' 1))])
        else Some (step_result, messages, db'))"

definition sqlite_load_all ::
  "('db, 'st, 'e) sqlite_engine \<Rightarrow> 'e \<Rightarrow> 'db sqlite_cache \<Rightarrow> (cached_message list \<times> 'db sqlite_cache) option" where
  "sqlite_load_all eng e c =
     (if \<not> sq_ready c then Some ([], c)
      else (case sq_database c of
        None \<Rightarrow> Some ([], c)
      | Some db \<Rightarrow>
          (case sqlite_prepare eng e select_sql db of
             None \<Rightarrow> Some ([], set_error (''prepare cache query failed: '' @ sqlite_errmsg eng db) c)
           | Some st \<Rightarrow>
               map_option (\<lambda>(step_result, messages, db').
                   let c1 = c\<lparr>sq_database := Some db'\<rparr> in
                   if step_result = StepDone then (messages, c1)
                   else ([], set_error (''query cache messages failed: '' @ sqlite_errmsg eng db') c1))
                 (fetch_rows eng e st db []))))"

definition sqlite_remove_first ::
  "('db, 'st, 'e) sqlite_engine \<Rightarrow> 'e \<Rightarrow> nat \<Rightarrow> 'db sqlite_cache \<Rightarrow> bool \<times> 'db sqlite_cache" where
  "sqlite_remove_first eng e cnt c =
     (if \<not> sq_ready c \<or> cnt = 0 then (sq_ready c, c)
      else if cnt > 2147483647 then (False, set_error ''cache removal count is too large'' c)
      else (case sq_database c of
        None \<Rightarrow> (False, c)
      | Some db \<Rightarrow>
          (case sqlite_prepare eng e delete_sql db of
             None \<Rightarrow> (False, set_error (''prepare cache removal failed: '' @ sqlite_errmsg eng db) c)
           | Some st \<Rightarrow>
               (case sqlite_bind_int eng e st 1 (int_of_size cnt) of (bound, st1) \<Rightarrow>
                  let (success, db') =
                    (if bound then (case sqlite_step eng e st1 db of (r, st2, db1) \<Rightarrow> (r = StepDone, db1))
                     else (False, db));
                      c1 = c\<lparr>sq_database := Some db'\<rparr>
                  in if success then (True, c1)
                     else (False, set_error (''remove cached messages failed: '' @ sqlite_errmsg eng db') c1)))))"

text \<open>The virtual functions; a load that never ends has no messages here, and the laws exclude it.\<close>

definition sqlite_ops :: "('db, 'st, 'e) sqlite_engine \<Rightarrow> ('db sqlite_cache, 'e) cache_ops" where
  "sqlite_ops eng = \<lparr>cache_append = sqlite_append eng,
     cache_load_all = (\<lambda>e c. case sqlite_load_all eng e c of Some r \<Rightarrow> r | None \<Rightarrow> ([], c)),
     cache_remove_first = sqlite_remove_first eng\<rparr>"

section \<open>What the cache relies on\<close>

text \<open>
  \<open>rows db\<close> are topic and payload of the table in the order of the ids, \<open>sound db\<close> says that the file
  is a database, \<open>table db\<close> that the table exists in it, \<open>pending st\<close> are the rows a query has not returned yet. A statement takes
  effect when its step is done and has no effect otherwise; a query returns the rows in
  order; the identifiers grow, so a new row is the last one.
\<close>

abbreviation pragma :: "string \<Rightarrow> bool" where
  "pragma sql \<equiv> sql = ''PRAGMA journal_mode=WAL'' \<or> sql = ''PRAGMA synchronous=FULL''"

locale sqlite_engine_laws =
  fixes eng :: "('db, 'st, 'e) sqlite_engine" and sound :: "'db \<Rightarrow> bool" and table :: "'db \<Rightarrow> bool"
    and rows :: "'db \<Rightarrow> (string \<times> string) list" and pending :: "'st \<Rightarrow> (string \<times> string) list option"
  assumes open_law: "sqlite_open eng e path = (True, handle) \<Longrightarrow> \<exists>db. handle = Some db \<and> sound db"
    and exec_law: "sound db \<Longrightarrow> sqlite_exec eng e sql db = (ok, m, db') \<Longrightarrow> pragma sql \<or> sql = create_table_sql
      \<Longrightarrow> sound db' \<and> rows db' = rows db \<and> (table db \<longrightarrow> table db') \<and> (ok \<longrightarrow> sql = create_table_sql \<longrightarrow> table db')"
    and insert_law: "table db \<Longrightarrow> sqlite_prepare eng e insert_sql db = Some st
      \<Longrightarrow> sqlite_bind_text eng e st 1 t (int (length t)) = (True, st1)
      \<Longrightarrow> sqlite_bind_text eng e st1 2 p (int (length p)) = (True, st2)
      \<Longrightarrow> sqlite_step eng e st2 db = (r, st3, db')
      \<Longrightarrow> table db' \<and> rows db' = (if r = StepDone then rows db @ [(t, p)] else rows db)"
    and delete_law: "table db \<Longrightarrow> sqlite_prepare eng e delete_sql db = Some st
      \<Longrightarrow> sqlite_bind_int eng e st 1 (int n) = (True, st1) \<Longrightarrow> sqlite_step eng e st1 db = (r, st2, db')
      \<Longrightarrow> table db' \<and> rows db' = (if r = StepDone then drop n (rows db) else rows db)"
    and select_law: "table db \<Longrightarrow> sqlite_prepare eng e select_sql db = Some st \<Longrightarrow> pending st = Some (rows db)"
    and query_law: "table db \<Longrightarrow> pending st = Some ps \<Longrightarrow> sqlite_step eng e st db = (r, st', db')
      \<Longrightarrow> table db' \<and> rows db' = rows db \<and> (r = StepDone \<longrightarrow> ps = [])
        \<and> (r = StepRow \<longrightarrow> (\<exists>t p ps'. ps = (t, p) # ps' \<and> pending st' = Some ps'
              \<and> sqlite_column_text eng st' 0 = Some t \<and> sqlite_column_text eng st' 1 = Some p))"

definition sqlite_accepts :: "cached_message \<Rightarrow> bool" where
  "sqlite_accepts m \<longleftrightarrow> CHR 0x00 \<notin> set (cm_topic m) \<and> CHR 0x00 \<notin> set (cm_payload m)
     \<and> length (cm_topic m) < 2147483648 \<and> length (cm_payload m) < 2147483648"

definition sqlite_contents :: "('db \<Rightarrow> (string \<times> string) list) \<Rightarrow> 'db sqlite_cache \<Rightarrow> cached_message list" where
  "sqlite_contents rows c = (case sq_database c of None \<Rightarrow> [] | Some db \<Rightarrow> map (\<lambda>(t, p). msg t p) (rows db))"

definition sqlite_invar ::
  "('db \<Rightarrow> bool) \<Rightarrow> ('db \<Rightarrow> (string \<times> string) list) \<Rightarrow> 'db sqlite_cache \<Rightarrow> bool" where
  "sqlite_invar table rows c \<longleftrightarrow> sq_ready c \<and> list_all sqlite_accepts (sqlite_contents rows c)
     \<and> (case sq_database c of None \<Rightarrow> False | Some db \<Rightarrow> table db)"

lemma int_of_size: "n < 2147483648 \<Longrightarrow> int_of_size n = int n"
  by (simp add: int_of_size_def signed_of_nat signed_take_bit_eq_if_positive bit_iff_odd take_bit_nat_eq_self
      take_bit_int_eq_self_iff signed_take_bit_int_eq_self)

lemma c_string_accepted: "CHR 0x00 \<notin> set s \<Longrightarrow> c_string (Some s) = s"
  by (auto simp: c_string_def)

lemma sqlite_contents_simps [simp]:
  "sqlite_contents rows (c\<lparr>sq_database := Some db\<rparr>) = map (\<lambda>(t, p). msg t p) (rows db)"
  "sqlite_contents rows (set_error m c) = sqlite_contents rows c"
  "sqlite_invar table rows (set_error m c) = sqlite_invar table rows c"
  "sq_ready (set_error m c) = sq_ready c" "sq_database (set_error m c) = sq_database c"
  by (simp_all add: sqlite_contents_def set_error_def sqlite_invar_def)

context sqlite_engine_laws
begin

lemma fetch_rows_result:
  assumes "table db" "pending st = Some ps" "list_all sqlite_accepts (map (\<lambda>(t, p). msg t p) ps)"
  shows "\<exists>r ms db'. fetch_rows eng e st db acc = Some (r, ms, db') \<and> table db' \<and> rows db' = rows db
    \<and> r \<noteq> StepRow \<and> (r = StepDone \<longrightarrow> ms = acc @ map (\<lambda>(t, p). msg t p) ps)"
  using assms
proof (induction ps arbitrary: st db acc)
  case Nil
  obtain r st' db' where step: "sqlite_step eng e st db = (r, st', db')" by (metis prod_cases3)
  with query_law [OF Nil.prems(1,2) step] show ?case by (subst fetch_rows.simps) auto
next
  case (Cons row ps)
  obtain r st' db' where step: "sqlite_step eng e st db = (r, st', db')" by (metis prod_cases3)
  note law = query_law [OF Cons.prems(1,2) step]
  show ?case
  proof (cases "r = StepRow")
    case False
    with law step show ?thesis by (subst fetch_rows.simps) auto
  next
    case True
    with law obtain t p where row: "row = (t, p)" "pending st' = Some ps" "sqlite_column_text eng st' 0 = Some t"
        "sqlite_column_text eng st' 1 = Some p" by auto
    have "c_string (Some t) = t" "c_string (Some p) = p"
      using Cons.prems(3) row(1) by (simp_all add: sqlite_accepts_def c_string_accepted)
    with Cons.IH [of db' st' "acc @ [msg t p]"] law row Cons.prems(3) True step show ?thesis
      by (subst fetch_rows.simps) auto
  qed
qed

lemma sqlite_load_effect:
  assumes "sqlite_invar table rows c"
  shows "\<exists>ms c'. sqlite_load_all eng e c = Some (ms, c') \<and> sqlite_invar table rows c'
    \<and> sqlite_contents rows c' = sqlite_contents rows c \<and> (ms = sqlite_contents rows c \<or> ms = [])"
proof -
  obtain db where db: "sq_database c = Some db" "table db" "sq_ready c"
    using assms by (auto simp: sqlite_invar_def split: option.splits)
  show ?thesis
  proof (cases "sqlite_prepare eng e select_sql db")
    case None
    with assms db show ?thesis by (simp add: sqlite_load_all_def)
  next
    case (Some st)
    have contents: "sqlite_contents rows c = map (\<lambda>(t, p). msg t p) (rows db)"
      by (simp add: sqlite_contents_def db(1))
    obtain r ms db' where fetch: "fetch_rows eng e st db [] = Some (r, ms, db')" "table db'" "rows db' = rows db"
        "r = StepDone \<longrightarrow> ms = sqlite_contents rows c"
      using fetch_rows_result [OF db(2) select_law [OF db(2) Some], of e "[]"] assms contents
      by (auto simp: sqlite_invar_def)
    have "sqlite_invar table rows (c\<lparr>sq_database := Some db'\<rparr>)"
        "sqlite_contents rows (c\<lparr>sq_database := Some db'\<rparr>) = sqlite_contents rows c"
      using assms fetch(2,3) contents by (simp_all add: sqlite_invar_def)
    with fetch db Some show ?thesis by (simp add: sqlite_load_all_def Let_def)
  qed
qed

lemma sqlite_append_law:
  assumes "sqlite_invar table rows c" "sqlite_accepts (msg t p)" "sqlite_append eng e t p c = (ok, c')"
  shows "sqlite_invar table rows c'
    \<and> sqlite_contents rows c' = (if ok then sqlite_contents rows c @ [msg t p] else sqlite_contents rows c)"
proof -
  obtain db where db: "sq_database c = Some db" "table db" "sq_ready c"
    using assms(1) by (auto simp: sqlite_invar_def split: option.splits)
  have contents: "sqlite_contents rows c = map (\<lambda>(t, p). msg t p) (rows db)"
    by (simp add: sqlite_contents_def db(1))
  have size: "int_of_size (length t) = int (length t)" "int_of_size (length p) = int (length p)"
    using assms(2) by (simp_all add: sqlite_accepts_def int_of_size)
  show ?thesis
  proof (cases "sqlite_prepare eng e insert_sql db")
    case None
    with assms db show ?thesis by (auto simp: sqlite_append_def)
  next
    case (Some st)
    obtain b1 st1 where bind1: "sqlite_bind_text eng e st 1 t (int (length t)) = (b1, st1)" by fastforce
    obtain b2 st2 where bind2: "sqlite_bind_text eng e st1 2 p (int (length p)) = (b2, st2)" by fastforce
    obtain r st3 db1 where step: "sqlite_step eng e st2 db = (r, st3, db1)" by (metis prod_cases3)
    define db' where "db' = (if b1 \<and> b2 then db1 else db)"
    have "table db' \<and> rows db' = (if b1 \<and> b2 \<and> r = StepDone then rows db @ [(t, p)] else rows db)"
      using insert_law [OF db(2) Some _ _ step] bind1 bind2 db(2) by (auto simp: db'_def)
    moreover have "ok = (b1 \<and> b2 \<and> r = StepDone)"
        "\<exists>m. c' = c\<lparr>sq_database := Some db'\<rparr> \<or> c' = set_error m (c\<lparr>sq_database := Some db'\<rparr>)"
      using assms(3) db Some bind1 bind2 step size
      by (auto simp: sqlite_append_def db'_def Let_def split: if_splits)
    ultimately show ?thesis
      using assms(1,2) contents by (auto simp: sqlite_invar_def split: if_splits)
  qed
qed

lemma sqlite_remove_law:
  assumes "sqlite_invar table rows c" "sqlite_remove_first eng e n c = (ok, c')"
  shows "sqlite_invar table rows c'
    \<and> sqlite_contents rows c' = (if ok then drop n (sqlite_contents rows c) else sqlite_contents rows c)"
proof -
  obtain db where db: "sq_database c = Some db" "table db" "sq_ready c"
    using assms(1) by (auto simp: sqlite_invar_def split: option.splits)
  have contents: "sqlite_contents rows c = map (\<lambda>(t, p). msg t p) (rows db)"
    by (simp add: sqlite_contents_def db(1))
  show ?thesis
  proof (cases "n = 0 \<or> n > 2147483647 \<or> sqlite_prepare eng e delete_sql db = None")
    case True
    with assms db show ?thesis by (auto simp: sqlite_remove_first_def split: if_splits)
  next
    case False
    then obtain st where st: "sqlite_prepare eng e delete_sql db = Some st" by blast
    have size: "int_of_size n = int n" using False by (simp add: int_of_size)
    obtain b st1 where bind: "sqlite_bind_int eng e st 1 (int n) = (b, st1)" by fastforce
    obtain r st2 db1 where step: "sqlite_step eng e st1 db = (r, st2, db1)" by (metis prod_cases3)
    define db' where "db' = (if b then db1 else db)"
    have "table db' \<and> rows db' = (if b \<and> r = StepDone then drop n (rows db) else rows db)"
      using delete_law [OF db(2) st _ step] bind db(2) by (auto simp: db'_def)
    moreover have "ok = (b \<and> r = StepDone)"
        "\<exists>m. c' = c\<lparr>sq_database := Some db'\<rparr> \<or> c' = set_error m (c\<lparr>sq_database := Some db'\<rparr>)"
      using assms(2) db st bind step size False
      by (auto simp: sqlite_remove_first_def db'_def Let_def split: if_splits)
    moreover have "list_all sqlite_accepts (drop n (sqlite_contents rows c))"
      using assms(1) by (auto simp: sqlite_invar_def list_all_iff dest: in_set_dropD)
    ultimately show ?thesis
      using assms(1) contents by (auto simp: sqlite_invar_def drop_map split: if_splits)
  qed
qed

lemma execute_law:
  assumes "execute eng e sql c = (ok, c')" "sq_database c = Some db" "sound db" "pragma sql \<or> sql = create_table_sql"
  shows "\<exists>db'. sq_database c' = Some db' \<and> sound db' \<and> rows db' = rows db \<and> (table db \<longrightarrow> table db')
    \<and> (ok \<longrightarrow> sql = create_table_sql \<longrightarrow> table db') \<and> sq_path c' = sq_path c"
proof -
  obtain r m db' where "sqlite_exec eng e sql db = (r, m, db')" by (metis prod_cases3)
  with exec_law [OF assms(3) this assms(4)] assms(1,2) show ?thesis
    by (auto simp: execute_def Let_def set_error_def split: if_splits)
qed

text \<open>A cache that reports itself ready holds what the database held before.\<close>

lemma sqlite_new_ready:
  assumes "sq_ready (sqlite_cache_new eng env path)" "sqlite_open eng (si_open env) path = (True, Some db)"
    and "list_all sqlite_accepts (map (\<lambda>(t, p). msg t p) (rows db))"
  shows "sqlite_invar table rows (sqlite_cache_new eng env path)
    \<and> sqlite_contents rows (sqlite_cache_new eng env path) = map (\<lambda>(t, p). msg t p) (rows db)"
proof -
  let ?c0 = "\<lparr>sq_path = path, sq_database = None, sq_ready = False, sq_error_message = []\<rparr> :: 'db sqlite_cache"
  let ?c1 = "?c0\<lparr>sq_database := Some db\<rparr>"
  obtain ok1 c2 where x1: "execute eng (si_exec env 0) ''PRAGMA journal_mode=WAL'' ?c1 = (ok1, c2)" by fastforce
  obtain ok2 c3 where x2: "execute eng (si_exec env 1) ''PRAGMA synchronous=FULL'' c2 = (ok2, c3)" by fastforce
  obtain ok3 c4 where x3: "execute eng (si_exec env 2) create_table_sql c3 = (ok3, c4)" by fastforce
  have all: "ok1 \<and> ok2 \<and> ok3 \<and> sqlite_cache_new eng env path = c4\<lparr>sq_ready := True, sq_error_message := []\<rparr>"
    using assms(1,2) x1 x2 x3
    by (auto simp: sqlite_cache_new_def sqlite_initialize_def Let_def split: option.splits if_splits bool.splits prod.splits)
  have "sound db" using open_law [OF assms(2)] by simp
  then obtain db2 where d2: "sq_database c2 = Some db2" "sound db2" "rows db2 = rows db"
    using execute_law [OF x1, of db] by auto
  obtain db3 where d3: "sq_database c3 = Some db3" "sound db3" "rows db3 = rows db2"
    using execute_law [OF x2 d2(1,2)] by auto
  obtain db4 where d4: "sq_database c4 = Some db4" "rows db4 = rows db3" "table db4"
    using execute_law [OF x3 d3(1,2)] all by auto
  with all d2 d3 assms(3) show ?thesis
    by (simp add: sqlite_invar_def sqlite_contents_def)
qed

sublocale message_cache "sqlite_ops eng" "sqlite_invar table rows" "sqlite_contents rows" "\<lambda>_. True" sqlite_accepts
proof unfold_locales
  fix c c' :: "'db sqlite_cache" and e t p ok
  assume "sqlite_invar table rows c" "sqlite_accepts (msg t p)" "cache_append (sqlite_ops eng) e t p c = (ok, c')"
  then show "sqlite_invar table rows c'
    \<and> sqlite_contents rows c' = (if ok then sqlite_contents rows c @ [msg t p] else sqlite_contents rows c)"
    using sqlite_append_law [of c t p e ok c'] by (simp add: sqlite_ops_def)
next
  fix c c' :: "'db sqlite_cache" and e ms
  assume "sqlite_invar table rows c" "cache_load_all (sqlite_ops eng) e c = (ms, c')"
  then show "sqlite_invar table rows c' \<and> sqlite_contents rows c' = sqlite_contents rows c
      \<and> (ms = sqlite_contents rows c \<or> ms = [])"
    using sqlite_load_effect [of c e] by (auto simp: sqlite_ops_def)
next
  fix c c' :: "'db sqlite_cache" and e n ok
  assume "sqlite_invar table rows c" "cache_remove_first (sqlite_ops eng) e n c = (ok, c')"
  then show "sqlite_invar table rows c'
      \<and> sqlite_contents rows c' = (if ok then drop n (sqlite_contents rows c) else sqlite_contents rows c)"
    using sqlite_remove_law [of c e n ok c'] by (simp add: sqlite_ops_def)
qed

lemmas sqlite_run_calls_queue = run_calls_queue

lemma sqlite_message_cache:
  "message_cache (sqlite_ops eng) (sqlite_invar table rows) (sqlite_contents rows) (\<lambda>_. True) sqlite_accepts"
  by (rule message_cache_axioms)

end

section \<open>A table that keeps the laws\<close>

text \<open>
  A table in memory with growing identifiers, and statements that fail as an environment says. A query
  sorts by identifier; the deletion collects the first identifiers in that order and removes the
  rows that carry one of them.
\<close>

type_synonym table_row = "nat \<times> string \<times> string"

record table_db =
  tb_exists :: bool
  tb_rows :: "table_row list"
  tb_next_id :: nat

record table_env =
  te_open :: bool
  te_exec :: bool
  te_prepare :: bool
  te_bind :: bool
  te_steps :: nat

datatype table_statement =
    InsertStatement "string option" "string option"
  | DeleteStatement "int option"
  | SelectStatement "table_row list" "table_row option"

definition in_order :: "table_db \<Rightarrow> table_row list" where
  "in_order db = sort_key fst (tb_rows db)"

definition table_prepare :: "table_env \<Rightarrow> string \<Rightarrow> table_db \<Rightarrow> table_statement option" where
  "table_prepare e sql db =
     (if \<not> te_prepare e \<or> \<not> tb_exists db then None
      else if sql = insert_sql then Some (InsertStatement None None)
      else if sql = delete_sql then Some (DeleteStatement None)
      else if sql = select_sql then Some (SelectStatement (in_order db) None)
      else None)"

fun table_bind_text :: "table_env \<Rightarrow> table_statement \<Rightarrow> nat \<Rightarrow> string \<Rightarrow> int \<Rightarrow> bool \<times> table_statement" where
  "table_bind_text e (InsertStatement a b) i s n =
     (if te_bind e \<and> 0 \<le> n then (True, if i = 1 then InsertStatement (Some (take (nat n) s)) b
                                      else InsertStatement a (Some (take (nat n) s)))
      else (False, InsertStatement a b))"
| "table_bind_text e st i s n = (False, st)"

fun table_bind_int :: "table_env \<Rightarrow> table_statement \<Rightarrow> nat \<Rightarrow> int \<Rightarrow> bool \<times> table_statement" where
  "table_bind_int e (DeleteStatement k) i n = (if te_bind e then (True, DeleteStatement (Some n)) else (False, DeleteStatement k))"
| "table_bind_int e st i n = (False, st)"

fun table_step :: "table_env \<Rightarrow> table_statement \<Rightarrow> table_db \<Rightarrow> step_result \<times> table_statement \<times> table_db" where
  "table_step e (InsertStatement (Some t) (Some p)) db =
     (if 0 < te_steps e
      then (StepDone, InsertStatement (Some t) (Some p),
            db\<lparr>tb_rows := tb_rows db @ [(tb_next_id db, t, p)], tb_next_id := tb_next_id db + 1\<rparr>)
      else (StepError, InsertStatement (Some t) (Some p), db))"
| "table_step e (DeleteStatement (Some n)) db =
     (if 0 < te_steps e
      then (StepDone, DeleteStatement (Some n),
            let ids = map fst (if n < 0 then in_order db else take (nat n) (in_order db))
            in db\<lparr>tb_rows := filter (\<lambda>r. fst r \<notin> set ids) (tb_rows db)\<rparr>)
      else (StepError, DeleteStatement (Some n), db))"
| "table_step e (SelectStatement rs cur) db =
     (if length rs < te_steps e
      then (case rs of [] \<Rightarrow> (StepDone, SelectStatement [] None, db)
                     | r # rs' \<Rightarrow> (StepRow, SelectStatement rs' (Some r), db))
      else (StepError, SelectStatement rs cur, db))"
| "table_step e st db = (StepError, st, db)"

fun table_column :: "table_statement \<Rightarrow> nat \<Rightarrow> string option" where
  "table_column (SelectStatement rs (Some (i, t, p))) n = (if n = 0 then Some t else if n = 1 then Some p else None)"
| "table_column st n = None"

definition table_engine :: "table_db \<Rightarrow> (table_db, table_statement, table_env) sqlite_engine" where
  "table_engine stored = \<lparr>
     sqlite_open = (\<lambda>e path. if te_open e then (True, Some stored) else (False, None)),
     sqlite_exec = (\<lambda>e sql db. if \<not> te_exec e then (False, Some ''disk I/O error'', db)
        else (True, None, if sql = create_table_sql then db\<lparr>tb_exists := True\<rparr> else db)),
     sqlite_prepare = table_prepare, sqlite_bind_text = table_bind_text, sqlite_bind_int = table_bind_int,
     sqlite_step = table_step, sqlite_column_text = table_column,
     sqlite_errmsg = (\<lambda>_. ''disk I/O error''), sqlite_errstr = (\<lambda>_. ''unable to open database file'')\<rparr>"

definition ids_grow :: "table_db \<Rightarrow> bool" where
  "ids_grow db \<longleftrightarrow> distinct (map fst (tb_rows db)) \<and> list_all (\<lambda>r. fst r < tb_next_id db) (tb_rows db)"

definition table_ok :: "table_db \<Rightarrow> bool" where
  "table_ok db \<longleftrightarrow> tb_exists db \<and> ids_grow db"

definition table_rows :: "table_db \<Rightarrow> (string \<times> string) list" where
  "table_rows db = map snd (in_order db)"

fun table_pending :: "table_statement \<Rightarrow> (string \<times> string) list option" where
  "table_pending (SelectStatement rs cur) = Some (map snd rs)"
| "table_pending st = None"

lemma insort_key_snoc: "f a \<le> f x \<Longrightarrow> insort_key f a (ys @ [x]) = insort_key f a ys @ [x]"
  by (induction ys) auto

lemma sort_key_snoc: "list_all (\<lambda>r. f r < f x) rs \<Longrightarrow> sort_key f (rs @ [x]) = sort_key f rs @ [x]"
  by (induction rs) (auto simp: insort_key_snoc)

lemma distinct_map_sort_key: "distinct (map f (sort_key f xs)) = distinct (map f xs)"
  by (metis mset_map mset_sort mset_eq_imp_distinct_iff)

lemma remove_first_ids:
  "distinct (map f ys) \<Longrightarrow> filter (\<lambda>r. f r \<notin> set (map f (take n ys))) ys = drop n ys"
proof (induction ys arbitrary: n)
  case (Cons y ys)
  show ?case
  proof (cases n)
    case (Suc k)
    have "f y \<notin> f ` set ys" using Cons.prems by simp
    then have "filter (\<lambda>r. f r \<notin> set (map f (take n (y # ys)))) ys = filter (\<lambda>r. f r \<notin> set (map f (take k ys))) ys"
      by (intro filter_cong) (auto simp: Suc, metis image_eqI)
    then show ?thesis using Cons.IH [of k] Cons.prems Suc by simp
  qed simp
qed simp

lemma in_order_insert:
  assumes "ids_grow db"
  shows "in_order (db\<lparr>tb_rows := tb_rows db @ [(tb_next_id db, t, p)], tb_next_id := tb_next_id db + 1\<rparr>)
    = in_order db @ [(tb_next_id db, t, p)]"
  using assms by (simp add: in_order_def ids_grow_def sort_key_snoc)

lemma in_order_delete:
  assumes "ids_grow db"
  shows "in_order (db\<lparr>tb_rows := filter (\<lambda>r. fst r \<notin> set (map fst (take n (in_order db)))) (tb_rows db)\<rparr>)
    = drop n (in_order db)"
proof -
  have "distinct (map fst (in_order db))"
    using assms by (simp add: in_order_def ids_grow_def distinct_map_sort_key)
  from remove_first_ids [OF this] show ?thesis
    by (simp add: in_order_def filter_sort [symmetric])
qed

lemma ids_grow_filter:
  assumes "ids_grow db"
  shows "ids_grow (db\<lparr>tb_rows := filter P (tb_rows db)\<rparr>)"
  using assms by (auto simp: ids_grow_def list_all_iff distinct_map_filter)

lemma sql_distinct [simp]:
  "insert_sql \<noteq> delete_sql" "delete_sql \<noteq> insert_sql" "insert_sql \<noteq> select_sql" "select_sql \<noteq> insert_sql"
  "delete_sql \<noteq> select_sql" "select_sql \<noteq> delete_sql"
  by (simp_all add: insert_sql_def delete_sql_def select_sql_def newline_def)

lemma table_engine_laws:
  assumes "ids_grow stored"
  shows "sqlite_engine_laws (table_engine stored) ids_grow table_ok table_rows table_pending"
proof unfold_locales
  fix e path handle
  assume "sqlite_open (table_engine stored) e path = (True, handle)"
  then show "\<exists>db. handle = Some db \<and> ids_grow db"
    using assms by (auto simp: table_engine_def split: if_splits)
next
  fix e sql db ok m db'
  assume "ids_grow db" "sqlite_exec (table_engine stored) e sql db = (ok, m, db')" "pragma sql \<or> sql = create_table_sql"
  then show "ids_grow db' \<and> table_rows db' = table_rows db \<and> (table_ok db \<longrightarrow> table_ok db')
      \<and> (ok \<longrightarrow> sql = create_table_sql \<longrightarrow> table_ok db')"
    by (auto simp: table_engine_def table_ok_def table_rows_def in_order_def ids_grow_def split: if_splits)
next
  fix db e st t st1 p st2 r st3 db'
  assume "table_ok db" "sqlite_prepare (table_engine stored) e insert_sql db = Some st"
    "sqlite_bind_text (table_engine stored) e st 1 t (int (length t)) = (True, st1)"
    "sqlite_bind_text (table_engine stored) e st1 2 p (int (length p)) = (True, st2)"
    "sqlite_step (table_engine stored) e st2 db = (r, st3, db')"
  moreover have "ids_grow (db\<lparr>tb_rows := tb_rows db @ [(tb_next_id db, t, p)], tb_next_id := tb_next_id db + 1\<rparr>)"
    if "ids_grow db" using that by (auto simp: ids_grow_def list_all_iff less_Suc_eq)
  ultimately show "table_ok db' \<and> table_rows db' = (if r = StepDone then table_rows db @ [(t, p)] else table_rows db)"
    by (auto simp: table_engine_def table_prepare_def table_ok_def table_rows_def in_order_insert [unfolded Suc_eq_plus1 [symmetric]] split: if_splits)
next
  fix db e st n st1 r st2 db'
  assume "table_ok db" "sqlite_prepare (table_engine stored) e delete_sql db = Some st"
    "sqlite_bind_int (table_engine stored) e st 1 (int n) = (True, st1)"
    "sqlite_step (table_engine stored) e st1 db = (r, st2, db')"
  then show "table_ok db' \<and> table_rows db' = (if r = StepDone then drop n (table_rows db) else table_rows db)"
    using in_order_delete [of db n] ids_grow_filter [of db]
    by (auto simp: table_engine_def table_prepare_def table_ok_def table_rows_def drop_map split: if_splits)
next
  fix db e st
  assume "table_ok db" "sqlite_prepare (table_engine stored) e select_sql db = Some st"
  then show "table_pending st = Some (table_rows db)"
    by (auto simp: table_engine_def table_prepare_def table_rows_def split: if_splits)
next
  fix db st ps e r st' db'
  assume "table_ok db" "table_pending st = Some ps" "sqlite_step (table_engine stored) e st db = (r, st', db')"
  then show "table_ok db' \<and> table_rows db' = table_rows db \<and> (r = StepDone \<longrightarrow> ps = [])
      \<and> (r = StepRow \<longrightarrow> (\<exists>t p ps'. ps = (t, p) # ps' \<and> table_pending st' = Some ps'
            \<and> sqlite_column_text (table_engine stored) st' 0 = Some t
            \<and> sqlite_column_text (table_engine stored) st' 1 = Some p))"
    by (cases st) (auto simp: table_engine_def split: if_splits list.splits)
qed

definition stored_example :: table_db where
  "stored_example = \<lparr>tb_exists = True, tb_rows = [(7, ''a'', ''1''), (9, ''b'', ''2'')], tb_next_id = 10\<rparr>"

interpretation tcache: sqlite_engine_laws "table_engine stored_example" ids_grow table_ok table_rows table_pending
  by (rule table_engine_laws) (simp add: ids_grow_def stored_example_def)

section \<open>Properties\<close>

text \<open>
  C23: the SQLite cache keeps a queue, for every engine that keeps the laws of SQL statements. Every
  sequence of appends and removals on a ready cache, with any failures of the engine, behaves like
  the same sequence on a list of messages; a load returns, with all messages in order or, after an
  engine error, with none, and never with a part of them.
\<close>

theorem sqlite_cache_queue:
  assumes "sqlite_engine_laws eng sound table rows pending" and "sqlite_invar table rows c"
    and "list_all (\<lambda>call. list_all sqlite_accepts (appended call)) calls"
    and "run_calls (sqlite_ops eng) calls c = (oks, c')"
  shows "sqlite_invar table rows c'
    \<and> sqlite_contents rows c' = fold (\<lambda>(call, ok). queue_call call ok) (zip calls oks) (sqlite_contents rows c)
    \<and> (\<exists>ms c''. sqlite_load_all eng e c' = Some (ms, c'') \<and> (ms = sqlite_contents rows c' \<or> ms = []))"
  using sqlite_engine_laws.sqlite_run_calls_queue [OF assms(1,2) _ assms(4)] assms(3)
    sqlite_engine_laws.sqlite_load_effect [OF assms(1), of c' e] by auto

definition good_table :: table_env where
  "good_table = \<lparr>te_open = True, te_exec = True, te_prepare = True, te_bind = True, te_steps = 100\<rparr>"

definition good_init :: "table_env sqlite_init_env" where
  "good_init = \<lparr>si_mkdir = None, si_open = good_table, si_exec = (\<lambda>_. good_table)\<rparr>"

abbreviation example_sqlite :: "table_db sqlite_cache" where
  "example_sqlite \<equiv> sqlite_cache_new (table_engine stored_example) good_init ''data/cache.db''"

lemma example_sqlite_ready:
  "sq_ready example_sqlite"
  by (simp add: sqlite_cache_new_def sqlite_initialize_def good_init_def good_table_def table_engine_def execute_def)

lemma example_sqlite_invar:
  "sqlite_invar table_ok table_rows example_sqlite"
  "sqlite_contents table_rows example_sqlite = [msg ''a'' ''1'', msg ''b'' ''2'']"
  using tcache.sqlite_new_ready [OF example_sqlite_ready, of stored_example]
  by (simp_all add: table_engine_def good_init_def good_table_def stored_example_def table_rows_def in_order_def
      sqlite_accepts_def)

theorem sqlite_cache_queue_witness:
  "\<exists>c. run_calls (sqlite_ops (table_engine stored_example))
      [Append good_table ''c'' ''3'', RemoveFirst good_table 1] example_sqlite = ([True, True], c)
    \<and> sqlite_contents table_rows c = [msg ''b'' ''2'', msg ''c'' ''3'']"
proof -
  let ?calls = "[Append good_table ''c'' ''3'', RemoveFirst good_table 1]"
  obtain oks c where run: "run_calls (sqlite_ops (table_engine stored_example)) ?calls example_sqlite = (oks, c)"
    by fastforce
  have "sq_database example_sqlite = Some stored_example"
    by (simp add: sqlite_cache_new_def sqlite_initialize_def good_init_def good_table_def table_engine_def execute_def
        stored_example_def)
  then have oks: "oks = [True, True]"
    using run example_sqlite_ready
    by (auto simp: sqlite_ops_def sqlite_append_def sqlite_remove_first_def table_engine_def table_prepare_def
        good_table_def stored_example_def int_of_size split: prod.splits if_splits)
  have "list_all (\<lambda>call. list_all sqlite_accepts (appended call)) ?calls" by (simp add: sqlite_accepts_def)
  from sqlite_cache_queue [OF tcache.sqlite_engine_laws_axioms example_sqlite_invar(1) this run]
  have "sqlite_contents table_rows c = [msg ''b'' ''2'', msg ''c'' ''3'']"
    by (simp add: oks example_sqlite_invar(2))
  with run oks show ?thesis by blast
qed

end
