(* ===== verification/SqliteGateway.thy ===== *)
theory SqliteGateway
  imports GatewayExamples SqliteCache
begin

text \<open>
  The gateway of \<^verbatim>\<open>src/src/main.cpp\<close> over the cache of \<^verbatim>\<open>src/src/cache/sqlite_cache.cpp\<close>. The sizes
  the cache and the MQTT client convert to \<open>int\<close> are small, so over an engine that works the SQLite
  cache stores every message of the gateway, and what was proved of the gateway over a storing cache
  holds with it.
\<close>

section \<open>Size of messages\<close>

lemma checked_json_length:
  "checked_reading data \<Longrightarrow> length (sensor_data_to_json data) \<le> (if s_valid data then 160 else 400)"
  unfolding checked_reading_def using length_reading_json by blast

lemma topic_length: "length (build_mqtt_topic topic_prefix data) \<le> length topic_prefix + 9"
  using length_dec_u8 [of "s_device_id data"] by (simp add: build_mqtt_topic_def)

lemma printable_no_nul: "printable s \<Longrightarrow> CHR 0x00 \<notin> set s"
  by (auto simp: printable_def list_all_iff)

definition sqlite_prefix :: "string \<Rightarrow> bool" where
  "sqlite_prefix tp \<longleftrightarrow> CHR 0x00 \<notin> set tp \<and> length tp < 2147483639"

lemma message_of_accepted:
  assumes "sqlite_prefix tp" "checked_reading data"
  shows "sqlite_accepts (message_of tp data)"
proof -
  have "CHR 0x00 \<notin> set (''/'' @ nat_to_dec (unat (s_device_id data)) @ ''/data'')"
    by (rule printable_no_nul) simp
  moreover have "length (sensor_data_to_json data) < 2147483648"
    using checked_json_length [OF assms(2)] by (simp split: if_splits)
  ultimately show ?thesis
    using assms(1) topic_length [of tp data] printable_no_nul [OF checked_json_printable [OF assms(2)]]
    by (simp add: sqlite_accepts_def sqlite_prefix_def message_of_def) (simp add: build_mqtt_topic_def)
qed

text \<open>
  C24: no size is cut off. The message of every reading a device hands out has a payload of at most 160
  characters if the reading is valid and 400 otherwise, and a topic at most nine characters longer
  than the prefix; so the conversions of these sizes to a 32-bit \<open>int\<close> in the MQTT client and in the
  SQLite cache keep their value.
\<close>

theorem message_size_bounds:
  assumes "manager_reach any_ops new_device m evs" "data \<in> set (concat (map event_data evs))"
    and "length topic_prefix \<le> 1000"
  shows "length (cm_payload (message_of topic_prefix data)) \<le> (if s_valid data then 160 else 400)
    \<and> length (cm_topic (message_of topic_prefix data)) \<le> length topic_prefix + 9
    \<and> int_of_size (length (cm_payload (message_of topic_prefix data))) = int (length (cm_payload (message_of topic_prefix data)))
    \<and> int_of_size (length (cm_topic (message_of topic_prefix data))) = int (length (cm_topic (message_of topic_prefix data)))"
proof -
  have "checked_reading data"
    using manager_readings_checked [OF assms(1)] assms(2) by (auto simp: list_all_iff)
  note len = checked_json_length [OF this] topic_length [of topic_prefix data]
  have "length (sensor_data_to_json data) < 2147483648" "length (build_mqtt_topic topic_prefix data) < 2147483648"
    using len assms(3) by (simp_all split: if_splits)
  with len show ?thesis by (simp add: message_of_def int_of_size)
qed

theorem message_size_bounds_witness:
  "length (cm_payload (message_of ''sensor'' example_reading)) \<le> 160"
proof -
  obtain m where "manager_reach any_ops new_device m [DataEvent example_reading SocketCan]"
    using example_can_reach by blast
  moreover have "s_valid example_reading" by (simp add: example_reading_def reading_def range_warnings_def)
  ultimately show ?thesis
    using message_size_bounds [of m "[DataEvent example_reading SocketCan]" example_reading "''sensor''"] by simp
qed

section \<open>An engine that works\<close>

text \<open>
  Without errors of the disk a prepared insertion runs to its end: the statement compiles, its
  parameters are bound, its step is done.
\<close>

locale working_engine = sqlite_engine_laws eng sound table rows pending
  for eng :: "('db, 'st, 'e) sqlite_engine" and sound :: "'db \<Rightarrow> bool" and table :: "'db \<Rightarrow> bool"
    and rows :: "'db \<Rightarrow> (string \<times> string) list" and pending :: "'st \<Rightarrow> (string \<times> string) list option" +
  fixes works :: "'e \<Rightarrow> bool"
  assumes prepare_works: "works e \<Longrightarrow> table db \<Longrightarrow> sqlite_prepare eng e insert_sql db \<noteq> None"
    and bind_works: "works e \<Longrightarrow> table db \<Longrightarrow> sqlite_prepare eng e insert_sql db = Some st
      \<Longrightarrow> sqlite_bind_text eng e st 1 t (int (length t)) = (b1, st1)
      \<Longrightarrow> sqlite_bind_text eng e st1 2 p (int (length p)) = (b2, st2) \<Longrightarrow> b1 \<and> b2"
    and insert_works: "works e \<Longrightarrow> table db \<Longrightarrow> sqlite_prepare eng e insert_sql db = Some st
      \<Longrightarrow> sqlite_bind_text eng e st 1 t (int (length t)) = (True, st1)
      \<Longrightarrow> sqlite_bind_text eng e st1 2 p (int (length p)) = (True, st2)
      \<Longrightarrow> sqlite_step eng e st2 db = (r, st3, db') \<Longrightarrow> r = StepDone"
begin

lemma sqlite_append_works:
  assumes "sqlite_invar table rows c" "works e" "sqlite_accepts (msg t p)" "sqlite_append eng e t p c = (ok, c')"
  shows ok
proof -
  obtain db where db: "sq_database c = Some db" "table db" "sq_ready c"
    using assms(1) by (auto simp: sqlite_invar_def split: option.splits)
  have size: "int_of_size (length t) = int (length t)" "int_of_size (length p) = int (length p)"
    using assms(3) by (simp_all add: sqlite_accepts_def int_of_size)
  obtain st where st: "sqlite_prepare eng e insert_sql db = Some st"
    using prepare_works [OF assms(2) db(2)] by blast
  obtain b1 st1 where b1: "sqlite_bind_text eng e st 1 t (int (length t)) = (b1, st1)" by fastforce
  obtain b2 st2 where b2: "sqlite_bind_text eng e st1 2 p (int (length p)) = (b2, st2)" by fastforce
  have bound: "b1" "b2" using bind_works [OF assms(2) db(2) st b1 b2] by simp_all
  obtain r st3 db' where step: "sqlite_step eng e st2 db = (r, st3, db')" by (metis prod_cases3)
  have "r = StepDone" using insert_works [OF assms(2) db(2) st _ _ step] b1 b2 bound by simp
  with assms(4) db st b1 b2 bound step size show ?thesis by (simp add: sqlite_append_def)
qed

sublocale storing_cache "sqlite_ops eng" "sqlite_invar table rows" "sqlite_contents rows" "\<lambda>_. True" sqlite_accepts
  works sqlite_prefix
proof unfold_locales
  fix tp data
  assume "sqlite_prefix tp" "checked_reading data"
  then show "sqlite_accepts (message_of tp data)" by (rule message_of_accepted)
next
  fix c c' :: "'db sqlite_cache" and e tp data ok
  assume "sqlite_invar table rows c" "works e" "sqlite_prefix tp" "checked_reading data"
    "cache_append (sqlite_ops eng) e (build_mqtt_topic tp data) (sensor_data_to_json data) c = (ok, c')"
  then show ok
    using sqlite_append_works [of c e "build_mqtt_topic tp data" "sensor_data_to_json data"] message_of_accepted [of tp data]
    by (simp add: sqlite_ops_def message_of_def)
qed simp_all

end

definition table_works :: "table_env \<Rightarrow> bool" where
  "table_works e \<longleftrightarrow> te_prepare e \<and> te_bind e \<and> 0 < te_steps e"

lemma table_engine_works:
  assumes "ids_grow stored"
  shows "working_engine (table_engine stored) ids_grow table_ok table_rows table_pending table_works"
  by (intro working_engine.intro working_engine_axioms.intro table_engine_laws [OF assms])
    (auto simp: table_engine_def table_prepare_def table_works_def table_ok_def split: if_splits)

interpretation tgate: working_engine "table_engine stored_example" ids_grow table_ok table_rows table_pending table_works
  by (rule table_engine_works) (simp add: ids_grow_def stored_example_def)

end
