(* ===== verification/AnyCache.thy ===== *)
theory AnyCache
  imports SqliteGateway
begin

text \<open>
  The cache object of \<^verbatim>\<open>src/src/main.cpp\<close>: a pointer to the abstract \<open>MessageCache\<close> that refers to a
  file cache or to an SQLite cache, as the configuration says. A call goes to the class of the
  object; the contract of the two classes becomes the contract of the pointer.
\<close>

section \<open>The cache behind the pointer\<close>

datatype 'db any_cache = FileObject file_cache | SqliteObject "'db sqlite_cache"

record 'e any_cache_env =
  ae_file :: file_env
  ae_sqlite :: 'e

fun any_append ::
  "('db, 'st, 'e) sqlite_engine \<Rightarrow> 'e any_cache_env \<Rightarrow> string \<Rightarrow> string \<Rightarrow> 'db any_cache \<Rightarrow> bool \<times> 'db any_cache" where
  "any_append eng e topic payload (FileObject c) = map_prod id FileObject (file_append (ae_file e) topic payload c)"
| "any_append eng e topic payload (SqliteObject c) = map_prod id SqliteObject (sqlite_append eng (ae_sqlite e) topic payload c)"

fun any_load_all ::
  "('db, 'st, 'e) sqlite_engine \<Rightarrow> 'e any_cache_env \<Rightarrow> 'db any_cache \<Rightarrow> cached_message list \<times> 'db any_cache" where
  "any_load_all eng e (FileObject c) = map_prod id FileObject (cache_load_all file_ops (ae_file e) c)"
| "any_load_all eng e (SqliteObject c) = map_prod id SqliteObject (cache_load_all (sqlite_ops eng) (ae_sqlite e) c)"

fun any_remove_first ::
  "('db, 'st, 'e) sqlite_engine \<Rightarrow> 'e any_cache_env \<Rightarrow> nat \<Rightarrow> 'db any_cache \<Rightarrow> bool \<times> 'db any_cache" where
  "any_remove_first eng e n (FileObject c) = map_prod id FileObject (cache_remove_first file_ops (ae_file e) n c)"
| "any_remove_first eng e n (SqliteObject c) = map_prod id SqliteObject (sqlite_remove_first eng (ae_sqlite e) n c)"

definition any_cache_ops :: "('db, 'st, 'e) sqlite_engine \<Rightarrow> ('db any_cache, 'e any_cache_env) cache_ops" where
  "any_cache_ops eng = \<lparr>cache_append = any_append eng, cache_load_all = any_load_all eng,
     cache_remove_first = any_remove_first eng\<rparr>"

text \<open>\<open>make_unique\<close> in \<open>run_gateway\<close>: an SQLite cache that is not ready ends the program with its error text.\<close>

definition make_message_cache ::
  "('db, 'st, 'e) sqlite_engine \<Rightarrow> 'e sqlite_init_env \<Rightarrow> string option \<Rightarrow> cache_config \<Rightarrow> string + 'db any_cache" where
  "make_message_cache eng env existing cfg =
     (if cache_type cfg = ''sqlite'' then
        (let sqlite_cache = sqlite_cache_new eng env (cache_path cfg) in
         if \<not> sqlite_is_ready sqlite_cache then Inl (sq_error_message sqlite_cache)
         else Inr (SqliteObject sqlite_cache))
      else Inr (FileObject (file_cache_new (cache_path cfg) existing)))"

section \<open>Its contract\<close>

fun any_cache_invar :: "('db \<Rightarrow> bool) \<Rightarrow> ('db \<Rightarrow> (string \<times> string) list) \<Rightarrow> 'db any_cache \<Rightarrow> bool" where
  "any_cache_invar table rows (FileObject c) = file_invar c"
| "any_cache_invar table rows (SqliteObject c) = sqlite_invar table rows c"

fun any_contents :: "('db \<Rightarrow> (string \<times> string) list) \<Rightarrow> 'db any_cache \<Rightarrow> cached_message list" where
  "any_contents rows (FileObject c) = file_contents c"
| "any_contents rows (SqliteObject c) = sqlite_contents rows c"

definition any_clean :: "'e any_cache_env \<Rightarrow> bool" where
  "any_clean e \<longleftrightarrow> file_clean (ae_file e)"

definition any_works :: "('e \<Rightarrow> bool) \<Rightarrow> 'e any_cache_env \<Rightarrow> bool" where
  "any_works works e \<longleftrightarrow> file_works (ae_file e) \<and> works (ae_sqlite e)"

definition any_prefix :: "string \<Rightarrow> bool" where
  "any_prefix tp \<longleftrightarrow> \<not> contains_separator tp \<and> sqlite_prefix tp"

text \<open>The messages an earlier run left behind in the file or database of the configuration.\<close>

definition left_behind ::
  "('db, 'st, 'e) sqlite_engine \<Rightarrow> ('db \<Rightarrow> (string \<times> string) list) \<Rightarrow> 'e sqlite_init_env \<Rightarrow> string option
    \<Rightarrow> cache_config \<Rightarrow> cached_message list \<Rightarrow> bool" where
  "left_behind eng rows env existing cfg stored \<longleftrightarrow>
     (if cache_type cfg = ''sqlite''
      then list_all sqlite_accepts stored
        \<and> (case sqlite_open eng (si_open env) (cache_path cfg) of
             (True, Some db) \<Rightarrow> stored = map (\<lambda>(t, p). msg t p) (rows db) | _ \<Rightarrow> False)
      else file_invar (file_cache_new (cache_path cfg) existing)
        \<and> stored = file_contents (file_cache_new (cache_path cfg) existing))"

lemma any_cache_ops_simps [simp]:
  "cache_append (any_cache_ops eng) = any_append eng" "cache_load_all (any_cache_ops eng) = any_load_all eng"
  "cache_remove_first (any_cache_ops eng) = any_remove_first eng"
  by (simp_all add: any_cache_ops_def)

lemma cache_op_simps [simp]:
  "cache_append file_ops = file_append" "cache_append (sqlite_ops eng) = sqlite_append eng"
  "cache_remove_first (sqlite_ops eng) = sqlite_remove_first eng"
  by (simp_all add: file_ops_def sqlite_ops_def)

context working_engine
begin

sublocale anyc: storing_cache "any_cache_ops eng" "any_cache_invar table rows" "any_contents rows" any_clean sqlite_accepts
  "any_works works" any_prefix
proof unfold_locales
  fix c c' :: "'db any_cache" and e t p ok
  assume "any_cache_invar table rows c" "any_clean e" "sqlite_accepts (msg t p)"
    "cache_append (any_cache_ops eng) e t p c = (ok, c')"
  then show "any_cache_invar table rows c'
    \<and> any_contents rows c' = (if ok then any_contents rows c @ [msg t p] else any_contents rows c)"
    using fcache.append_law [of _ "ae_file e" t p] append_law [of _ t p "ae_sqlite e"]
    by (cases c) (force simp: any_clean_def map_prod_def split: prod.splits)+
next
  fix c c' :: "'db any_cache" and e ms
  assume "any_cache_invar table rows c" "any_clean e" "cache_load_all (any_cache_ops eng) e c = (ms, c')"
  then show "any_cache_invar table rows c' \<and> any_contents rows c' = any_contents rows c
      \<and> (ms = any_contents rows c \<or> ms = [])"
    using fcache.load_law [of _ "ae_file e" ms] load_law [of _ "ae_sqlite e" ms]
    by (cases c) (force simp: any_clean_def map_prod_def split: prod.splits)+
next
  fix c c' :: "'db any_cache" and e n ok
  assume "any_cache_invar table rows c" "any_clean e" "cache_remove_first (any_cache_ops eng) e n c = (ok, c')"
  then show "any_cache_invar table rows c'
      \<and> any_contents rows c' = (if ok then drop n (any_contents rows c) else any_contents rows c)"
    using fcache.remove_law [of _ "ae_file e" n ok] remove_law [of _ "ae_sqlite e" n ok]
    by (cases c) (force simp: any_clean_def map_prod_def split: prod.splits)+
next
  fix e assume "any_works works e"
  then show "any_clean e" by (simp add: any_works_def any_clean_def fgate.works_clean)
next
  fix tp data assume "any_prefix tp" "checked_reading data"
  then show "sqlite_accepts (message_of tp data)" by (simp add: any_prefix_def message_of_accepted)
next
  fix c c' :: "'db any_cache" and e tp data ok
  assume "any_cache_invar table rows c" "any_works works e" "any_prefix tp" "checked_reading data"
    "cache_append (any_cache_ops eng) e (build_mqtt_topic tp data) (sensor_data_to_json data) c = (ok, c')"
  then show ok
    using fgate.append_works [of _ "ae_file e" tp data ok] append_works [of _ "ae_sqlite e" tp data ok]
    by (cases c) (force simp: any_works_def any_prefix_def map_prod_def split: prod.splits)+
qed

lemmas any_run_actions_kept = anyc.run_actions_kept
lemmas any_flush_kept = anyc.flush_kept
lemmas any_measure_cache_effect = anyc.measure_cache_effect

lemma make_cache_holds:
  assumes "make_message_cache eng env existing cfg = Inr c" "left_behind eng rows env existing cfg stored"
  shows "any_cache_invar table rows c \<and> any_contents rows c = stored"
  using assms sqlite_new_ready [of env "cache_path cfg"]
  by (auto simp: make_message_cache_def left_behind_def Let_def sqlite_is_ready_def
      split: if_splits bool.splits option.splits)

end

end
