(* ===== verification/ShutdownSignal.thy ===== *)
theory ShutdownSignal
  imports Posix
begin

text \<open>
  \<^verbatim>\<open>src/src/app/shutdown_signal.{h,cpp}\<close>: the flag set by SIGINT and SIGTERM, and the wait of the
  main loop. The flag is only ever set while the program runs, so the state is one truth value; a
  signal that arrives between two reads of the flag is part of the input.
\<close>

section \<open>Operations\<close>

datatype shutdown_signal = SIGINT | SIGTERM

record signal_state =
  shutdown_flag :: bool
  handled :: "shutdown_signal set"

definition signal_init :: signal_state where
  "signal_init = \<lparr>shutdown_flag = False, handled = {}\<rparr>"

text \<open>A signal without handler ends the process: no state.\<close>

definition deliver :: "shutdown_signal \<Rightarrow> signal_state \<Rightarrow> signal_state option" where
  "deliver signal s = (if signal \<in> handled s then Some (s\<lparr>shutdown_flag := True\<rparr>) else None)"

definition install_handler ::
  "(shutdown_signal \<Rightarrow> errno option) \<Rightarrow> shutdown_signal \<Rightarrow> string \<Rightarrow> signal_state \<Rightarrow> bool \<times> string \<times> signal_state" where
  "install_handler sigaction signal_number signal_name s =
     (case sigaction signal_number of
        Some e \<Rightarrow> (False, ''install '' @ signal_name @ '' handler failed: '' @ strerror e, s)
      | None \<Rightarrow> (True, [], s\<lparr>handled := insert signal_number (handled s)\<rparr>))"

definition install_shutdown_signal_handlers ::
  "(shutdown_signal \<Rightarrow> errno option) \<Rightarrow> signal_state \<Rightarrow> bool \<times> string \<times> signal_state" where
  "install_shutdown_signal_handlers sigaction s0 =
     (let s1 = s0\<lparr>shutdown_flag := False\<rparr> in
      case install_handler sigaction SIGINT ''SIGINT'' s1 of
        (False, e, s2) \<Rightarrow> (False, e, s2)
      | (True, _, s2) \<Rightarrow>
          (case install_handler sigaction SIGTERM ''SIGTERM'' s2 of
             (False, e, s3) \<Rightarrow> (False, e, s3)
           | (True, _, s3) \<Rightarrow> (True, [], s3)))"

definition shutdown_requested :: "signal_state \<Rightarrow> bool" where
  "shutdown_requested s = shutdown_flag s"

definition reset_shutdown_request_for_test :: "signal_state \<Rightarrow> signal_state" where
  "reset_shutdown_request_for_test s = s\<lparr>shutdown_flag := False\<rparr>"

text \<open>
  One round of the wait: whether a signal arrived before the flag is read, and the clock in
  nanoseconds. The result lists the pauses in milliseconds.
\<close>

record wait_round =
  wr_signal :: bool
  wr_now :: int

definition arrive :: "bool \<Rightarrow> signal_state \<Rightarrow> signal_state" where
  "arrive signal s = (if signal then s\<lparr>shutdown_flag := True\<rparr> else s)"

fun wait_loop :: "int \<Rightarrow> wait_round list \<Rightarrow> signal_state \<Rightarrow> (int list \<times> signal_state) option" where
  "wait_loop deadline [] s = None"
| "wait_loop deadline (round # rounds) s0 =
     (let s = arrive (wr_signal round) s0 in
      if shutdown_requested s then Some ([], s)
      else if wr_now round \<ge> deadline then Some ([], s)
      else map_option (\<lambda>(pauses, s'). (min (ms_of_ns (deadline - wr_now round)) 50 # pauses, s'))
             (wait_loop deadline rounds s))"

record wait_input =
  wt_now :: int
  wt_rounds :: "wait_round list"
  wt_last_signal :: bool

definition wait_for_shutdown :: "wait_input \<Rightarrow> int \<Rightarrow> signal_state \<Rightarrow> (bool \<times> int list \<times> signal_state) option" where
  "wait_for_shutdown input timeout_ms s0 =
     map_option (\<lambda>(pauses, s). let s' = arrive (wt_last_signal input) s in (shutdown_requested s', pauses, s'))
       (wait_loop (wt_now input + ns_of_ms timeout_ms) (wt_rounds input) s0)"

section \<open>Properties\<close>

lemma arrive_flag [simp]: "shutdown_flag (arrive b s) = (b \<or> shutdown_flag s)" "handled (arrive b s) = handled s"
  by (simp_all add: arrive_def)

lemma ms_of_ns_bounds: "0 \<le> ns \<Longrightarrow> 0 \<le> ms_of_ns ns \<and> ns_of_ms (ms_of_ns ns) \<le> ns"
  unfolding ms_of_ns_def ns_of_ms_def using div_mult_mod_eq [of ns 1000000] pos_mod_sign [of 1000000 ns]
  by (simp add: pos_imp_zdiv_nonneg_iff)

text \<open>The rounds the loop takes: up to the first that sees the flag or the deadline.\<close>

lemma wait_loop_effect:
  assumes "wait_loop deadline rounds s = Some (pauses, s')"
  shows "\<exists>n < length rounds. length pauses = n
    \<and> (\<forall>i<n. 0 \<le> pauses ! i \<and> pauses ! i \<le> 50
          \<and> wr_now (rounds ! i) + ns_of_ms (pauses ! i) \<le> deadline)
    \<and> (\<forall>i<n. \<not> wr_signal (rounds ! i) \<and> wr_now (rounds ! i) < deadline)
    \<and> (shutdown_flag s' \<longleftrightarrow> shutdown_flag s \<or> wr_signal (rounds ! n))
    \<and> (\<not> shutdown_flag s' \<longrightarrow> wr_now (rounds ! n) \<ge> deadline) \<and> handled s' = handled s"
  using assms
proof (induction deadline rounds s arbitrary: pauses rule: wait_loop.induct)
  case (2 deadline round rounds s)
  show ?case
  proof (cases "wr_signal round \<or> shutdown_flag s \<or> wr_now round \<ge> deadline")
    case True
    with 2 show ?thesis
      by (intro exI [of _ 0]) (auto simp: shutdown_requested_def Let_def split: if_splits)
  next
    case False
    let ?p = "min (ms_of_ns (deadline - wr_now round)) 50"
    obtain ps where rest: "wait_loop deadline rounds (arrive (wr_signal round) s) = Some (ps, s')" "pauses = ?p # ps"
      using "2.prems" False by (auto simp: shutdown_requested_def Let_def)
    obtain n where n: "n < length rounds" "length ps = n"
        "\<forall>i<n. 0 \<le> ps ! i \<and> ps ! i \<le> 50 \<and> wr_now (rounds ! i) + ns_of_ms (ps ! i) \<le> deadline"
        "\<forall>i<n. \<not> wr_signal (rounds ! i) \<and> wr_now (rounds ! i) < deadline"
        "shutdown_flag s' \<longleftrightarrow> shutdown_flag (arrive (wr_signal round) s) \<or> wr_signal (rounds ! n)"
        "\<not> shutdown_flag s' \<longrightarrow> wr_now (rounds ! n) \<ge> deadline" "handled s' = handled s"
      using "2.IH" [OF refl _ _ rest(1)] False by (auto simp: shutdown_requested_def)
    have "0 \<le> ?p \<and> wr_now round + ns_of_ms ?p \<le> deadline"
      using ms_of_ns_bounds [of "deadline - wr_now round"] False by (auto simp: ns_of_ms_def min_def)
    with n rest(2) False show ?thesis
      by (intro exI [of _ "Suc n"]) (auto simp: nth_Cons split: nat.splits)
  qed
qed simp

text \<open>
  C25: waiting for a shutdown. The wait returns true exactly when a signal arrived before or during
  it. It returns false only after the timeout has passed. No pause is longer than 50 milliseconds
  or reaches beyond the deadline, so a signal is noticed within 50 milliseconds.
\<close>

theorem wait_for_shutdown_exact:
  assumes "wait_for_shutdown input timeout_ms s = Some (requested, pauses, s')"
  defines "deadline \<equiv> wt_now input + ns_of_ms timeout_ms"
  shows "requested = shutdown_requested s'
    \<and> (requested \<longleftrightarrow> shutdown_requested s \<or> wt_last_signal input
        \<or> (\<exists>r \<in> set (take (Suc (length pauses)) (wt_rounds input)). wr_signal r))
    \<and> (\<not> requested \<longrightarrow> wr_now (wt_rounds input ! length pauses) \<ge> deadline)
    \<and> length pauses < length (wt_rounds input)
    \<and> (\<forall>i<length pauses. 0 \<le> pauses ! i \<and> pauses ! i \<le> 50
         \<and> wr_now (wt_rounds input ! i) + ns_of_ms (pauses ! i) \<le> deadline)"
proof -
  obtain s1 where loop: "wait_loop deadline (wt_rounds input) s = Some (pauses, s1)"
      and s': "s' = arrive (wt_last_signal input) s1" "requested = shutdown_requested s'"
    using assms(1) by (auto simp: wait_for_shutdown_def deadline_def Let_def)
  from wait_loop_effect [OF loop] have eff: "length pauses < length (wt_rounds input)"
      "\<forall>i<length pauses. 0 \<le> pauses ! i \<and> pauses ! i \<le> 50
          \<and> wr_now (wt_rounds input ! i) + ns_of_ms (pauses ! i) \<le> deadline"
      "\<forall>i<length pauses. \<not> wr_signal (wt_rounds input ! i)"
      "shutdown_flag s1 \<longleftrightarrow> shutdown_flag s \<or> wr_signal (wt_rounds input ! length pauses)"
      "\<not> shutdown_flag s1 \<longrightarrow> wr_now (wt_rounds input ! length pauses) \<ge> deadline" by auto
  have "take (Suc (length pauses)) (wt_rounds input)
      = take (length pauses) (wt_rounds input) @ [wt_rounds input ! length pauses]"
    using eff(1) by (rule take_Suc_conv_app_nth)
  moreover have "\<not> wr_signal r" if "r \<in> set (take (length pauses) (wt_rounds input))" for r
    using that eff(1,3) by (auto simp: in_set_conv_nth)
  ultimately have "(\<exists>r \<in> set (take (Suc (length pauses)) (wt_rounds input)). wr_signal r)
      \<longleftrightarrow> wr_signal (wt_rounds input ! length pauses)" by auto
  with eff s' show ?thesis by (auto simp: shutdown_requested_def)
qed

definition example_wait :: "bool \<Rightarrow> wait_input" where
  "example_wait signal = \<lparr>wt_now = 0, wt_rounds = [\<lparr>wr_signal = False, wr_now = 0\<rparr>, \<lparr>wr_signal = signal, wr_now = 50000000\<rparr>,
     \<lparr>wr_signal = False, wr_now = 60000000\<rparr>], wt_last_signal = False\<rparr>"

theorem wait_for_shutdown_exact_witness:
  "\<exists>pauses s'. wait_for_shutdown (example_wait True) 55 signal_init = Some (True, pauses, s') \<and> length pauses = 1"
proof -
  obtain requested pauses s' where run: "wait_for_shutdown (example_wait True) 55 signal_init = Some (requested, pauses, s')"
      and n: "length pauses = 1"
    by (simp add: wait_for_shutdown_def example_wait_def signal_init_def arrive_def shutdown_requested_def ns_of_ms_def)
  from wait_for_shutdown_exact [OF run]
  have "requested \<longleftrightarrow> shutdown_requested signal_init \<or> wt_last_signal (example_wait True)
      \<or> (\<exists>r \<in> set (take (Suc (length pauses)) (wt_rounds (example_wait True))). wr_signal r)" by blast
  then have requested by (simp add: n example_wait_def)
  with run n show ?thesis by auto
qed

text \<open>
  The wait ends. As soon as one round sees a signal or the clock at the deadline, the
  wait has returned.
\<close>

theorem wait_for_shutdown_returns:
  assumes "\<exists>r\<in>set (wt_rounds input). wr_signal r \<or> wr_now r \<ge> wt_now input + ns_of_ms timeout_ms"
  shows "\<exists>result. wait_for_shutdown input timeout_ms s = Some result"
proof -
  have "wait_loop deadline rounds s \<noteq> None"
    if "\<exists>r\<in>set rounds. wr_signal r \<or> wr_now r \<ge> deadline" for deadline rounds s
    using that
    by (induction deadline rounds s rule: wait_loop.induct) (auto simp: shutdown_requested_def Let_def)
  from this [OF assms] show ?thesis by (force simp: wait_for_shutdown_def Let_def)
qed

theorem wait_for_shutdown_returns_witness:
  "\<exists>result. wait_for_shutdown (example_wait False) 55 signal_init = Some result"
  by (rule wait_for_shutdown_returns) (simp add: example_wait_def ns_of_ms_def)

text \<open>
  The handlers. If installing reports success, both signals only set the flag from then on;
  the flag starts cleared. If it fails, the text names the signal and the reason.
\<close>

theorem handlers_installed:
  "let (ok, error, s') = install_shutdown_signal_handlers sigaction s in
     \<not> shutdown_requested s'
     \<and> (ok \<longleftrightarrow> sigaction SIGINT = None \<and> sigaction SIGTERM = None)
     \<and> (if ok then error = [] \<and> deliver signal s' = Some (s'\<lparr>shutdown_flag := True\<rparr>)
        else error = (case sigaction SIGINT of
            Some e \<Rightarrow> ''install SIGINT handler failed: '' @ strerror e
          | None \<Rightarrow> ''install SIGTERM handler failed: '' @ strerror (the (sigaction SIGTERM))))"
  by (cases signal)
    (auto simp: install_shutdown_signal_handlers_def install_handler_def deliver_def shutdown_requested_def Let_def
      split: option.split)

end
