(* ===== verification/GatewayMain.thy ===== *)
theory GatewayMain
  imports AnyCache ShutdownSignal
begin

text \<open>
  \<^verbatim>\<open>src/src/main.cpp\<close>: the functions \<open>run_gateway\<close> and \<open>main\<close>. Starting is one definition, since nothing
  else runs before the device manager starts. From then on the main thread, the workers and the
  signals interleave: the main thread is a sequence of steps between which the workers take their
  passes. The wait for a shutdown only touches the signal flag, so it is one step, placed at
  the time it returns. The answers of the system and the library are input records.
\<close>

section \<open>Start of the gateway\<close>

datatype main_phase =
    AwaitUart nat | Announce | Waiting | Flushing | Observing
  | Leaving | StoppingHttp | StoppingDevices | Disconnecting | Returned

record 'c process =
  pr_phase :: main_phase
  pr_gateway :: "(mqtt_client, 'c) gateway"
  pr_devices :: "any_device device_manager"
  pr_http :: "http_server option"
  pr_status :: runtime_status
  pr_signals :: signal_state

record 'e start_input =
  gs_mosquitto :: "mosquitto_call \<Rightarrow> bool"
  gs_sqlite :: "'e sqlite_init_env"
  gs_cache_file :: "string option"
  gs_measure :: "'e any_cache_env"
  gs_http :: http_start_answers
  gs_flush :: "(mqtt_publish_input, 'e any_cache_env) flush_input"
  gs_unix_seconds :: u64
  gs_signal :: bool

definition start_http :: "http_config \<Rightarrow> http_start_answers \<Rightarrow> string + http_server option" where
  "start_http cfg os =
     (if hc_enabled cfg then
        (case http_start os (http_server_new (hc_host cfg) (hc_port cfg)) of (ok, http_error, server) \<Rightarrow>
           if ok then Inr (Some server) else Inl http_error)
      else Inr None)"

text \<open>What \<open>HttpServer::start\<close> on a new server and \<open>HttpServer::stop\<close> write to the log.\<close>

fun http_start_log :: "string + http_server option \<Rightarrow> log_call list" where
  "http_start_log (Inl http_error) = [LogError ''http'' http_error]"
| "http_start_log (Inr None) = []"
| "http_start_log (Inr (Some server)) =
     [LogInfo ''http'' (''server started: '' @ hs_host server @ '':'' @ nat_to_dec (unat (hs_port server)))]"

fun http_stop_log :: "http_server option \<Rightarrow> log_call list" where
  "http_stop_log None = []"
| "http_stop_log (Some server) = (if hs_running server then [LogInfo ''http'' ''server stopped''] else [])"

definition new_gateway ::
  "('db, 'st, 'e) sqlite_engine \<Rightarrow> gateway_config \<Rightarrow> 'e start_input \<Rightarrow> 'db any_cache \<Rightarrow> runtime_metrics
    \<Rightarrow> log_call list \<Rightarrow> (mqtt_client, 'db any_cache) gateway" where
  "new_gateway eng cfg input cache mt log =
     (let g = \<lparr>gw_mqtt = reliable_publisher_new (any_cache_ops eng) (gs_measure input)
                 (mqtt_client_new (gs_mosquitto input) (qc_host (cfg_mqtt cfg)) (qc_port (cfg_mqtt cfg))
                   (mqtt_options_of (cfg_mqtt cfg))) cache (Some mt),
               gw_tcp = tcp_client_new (tcpc_host (cfg_tcp cfg)) (tcpc_port (cfg_tcp cfg)),
               gw_tcp_enabled = tcpc_enabled (cfg_tcp cfg),
               gw_log = log @ [LogInfo ''cache'' (''backend='' @ cache_type (cfg_cache cfg)
                 @ '', path='' @ cache_path (cfg_cache cfg))]\<rparr>
      in gw_write (LogInfo ''publisher'' (''enabled channels='' @ nat_to_dec (group_size (gateway_channels g)))) g)"

text \<open>\<open>run_gateway\<close> up to the start of the workers; an early return leaves the log and the status.\<close>

definition run_gateway_start ::
  "('db, 'st, 'e) sqlite_engine \<Rightarrow> gateway_config \<Rightarrow> string list \<Rightarrow> 'e start_input \<Rightarrow> runtime_status \<Rightarrow> runtime_metrics
    \<Rightarrow> signal_state \<Rightarrow> log_call list \<Rightarrow> (log_call list \<times> runtime_status) + 'db any_cache process" where
  "run_gateway_start eng cfg serial_devices input st mt signals log =
     (case make_message_cache eng (gs_sqlite input) (gs_cache_file input) (cfg_cache cfg) of
        Inl error \<Rightarrow> Inl (log @ [LogError ''cache'' error], st)
      | Inr cache \<Rightarrow>
          let st1 = set_cache_ready True st; g0 = new_gateway eng cfg input cache mt log in
          (case start_http (cfg_http cfg) (gs_http input) of
             Inl http_error \<Rightarrow> Inl (gw_log g0 @ http_start_log (Inl http_error), st1)
           | Inr http \<Rightarrow>
               let g1 = gw_write (LogInfo ''cache'' ''checking cached mqtt messages'')
                          (fold gw_write (http_start_log (Inr http)) g0) in
               Inr \<lparr>pr_phase = (if serial_devices = [] then Announce else AwaitUart 0),
                    pr_gateway = gateway_flush mqtt_publish (any_cache_ops eng) (gs_flush input) g1,
                    pr_devices = manager_start (gs_unix_seconds input) (build_devices cfg serial_devices),
                    pr_http = http, pr_status = st1, pr_signals = arrive (gs_signal input) signals\<rparr>))"

section \<open>The main thread\<close>

record 'e main_input =
  mi_unix_seconds :: u64
  mi_wait :: wait_input
  mi_flush :: "(mqtt_publish_input, 'e any_cache_env) flush_input"

definition observe_devices :: "u64 \<Rightarrow> 'c process \<Rightarrow> 'c process" where
  "observe_devices now p =
     (case rp_metrics (gw_mqtt (pr_gateway p)) of
        None \<Rightarrow> p
      | Some mt \<Rightarrow>
          (case update_device_observability now (pr_devices p) (mt, pr_status p) of (mt', st') \<Rightarrow>
             p\<lparr>pr_gateway := gw_update_metrics (\<lambda>_. mt') (pr_gateway p), pr_status := st'\<rparr>))"

text \<open>One attempt of the loop that waits for the serial ports, twenty at most.\<close>

definition await_uart :: "string list \<Rightarrow> u64 \<Rightarrow> nat \<Rightarrow> 'c process \<Rightarrow> 'c process" where
  "await_uart serial_devices now tries p =
     (let uart_online = length (filter (\<lambda>s. ds_protocol s = Uart \<and> ds_online s) (statuses any_ops now (pr_devices p))) in
      if uart_online = length serial_devices then
        p\<lparr>pr_phase := Announce,
          pr_gateway := gw_write (LogInfo ''serial'' ''waiting for raw bytes'')
            (fold gw_write (replicate uart_online (LogInfo ''serial'' ''serial opened by device manager'')) (pr_gateway p))\<rparr>
      else p\<lparr>pr_phase := (if tries + 1 < 20 then AwaitUart (tries + 1) else Announce)\<rparr>)"

definition input_count :: "gateway_config \<Rightarrow> string list \<Rightarrow> nat" where
  "input_count cfg serial_devices = length serial_devices + (if mc_enabled (cfg_modbus cfg) then 1 else 0)
     + (if cc_enabled (cfg_can cfg) then 1 else 0)"

definition announce :: "gateway_config \<Rightarrow> string list \<Rightarrow> u64 \<Rightarrow> 'c process \<Rightarrow> 'c process" where
  "announce cfg serial_devices now p =
     (let g1 = gw_write (LogInfo ''serial'' (''worker count='' @ nat_to_dec (length serial_devices)))
                 (gw_write (LogInfo ''device'' (''input count='' @ nat_to_dec (input_count cfg serial_devices))) (pr_gateway p));
          p1 = observe_devices now (p\<lparr>pr_gateway := g1\<rparr>)
      in p1\<lparr>pr_gateway := gw_update_metrics (set_serial_worker_count (of_nat (length serial_devices))) (pr_gateway p1),
            pr_status := set_serial_workers_started True (of_nat (length serial_devices)) (pr_status p1),
            pr_phase := Waiting\<rparr>)"

definition main_step ::
  "('db, 'st, 'e) sqlite_engine \<Rightarrow> gateway_config \<Rightarrow> string list \<Rightarrow> 'e main_input \<Rightarrow> 'db any_cache process
    \<Rightarrow> 'db any_cache process option" where
  "main_step eng cfg serial_devices input p =
     (case pr_phase p of
        AwaitUart tries \<Rightarrow> Some (await_uart serial_devices (mi_unix_seconds input) tries p)
      | Announce \<Rightarrow> Some (announce cfg serial_devices (mi_unix_seconds input) p)
      | Waiting \<Rightarrow>
          map_option (\<lambda>(requested, pauses, s).
              p\<lparr>pr_signals := s, pr_phase := (if requested then Leaving else Flushing)\<rparr>)
            (wait_for_shutdown (mi_wait input) (qc_cache_retry_interval_seconds (cfg_mqtt cfg) * 1000) (pr_signals p))
      | Flushing \<Rightarrow>
          Some (p\<lparr>pr_gateway := gateway_flush mqtt_publish (any_cache_ops eng) (mi_flush input) (pr_gateway p),
                  pr_phase := Observing\<rparr>)
      | Observing \<Rightarrow> Some ((observe_devices (mi_unix_seconds input) p)\<lparr>pr_phase := Waiting\<rparr>)
      | Leaving \<Rightarrow>
          Some (p\<lparr>pr_status := set_serial_workers_started False (of_nat (length serial_devices)) (pr_status p),
                  pr_phase := StoppingHttp\<rparr>)
      | StoppingHttp \<Rightarrow>
          Some (p\<lparr>pr_http := map_option http_stop (pr_http p),
                  pr_gateway := fold gw_write (http_stop_log (pr_http p)) (pr_gateway p), pr_phase := StoppingDevices\<rparr>)
      | StoppingDevices \<Rightarrow> Some (p\<lparr>pr_devices := manager_stop any_ops (pr_devices p), pr_phase := Disconnecting\<rparr>)
      | Disconnecting \<Rightarrow>
          Some (p\<lparr>pr_gateway := (pr_gateway p)\<lparr>gw_tcp := tcp_disconnect (gw_tcp (pr_gateway p))\<rparr>, pr_phase := Returned\<rparr>)
      | Returned \<Rightarrow> None)"

section \<open>Interleaved runs\<close>

text \<open>A callback of the MQTT library on its network thread, between two calls of the publisher.\<close>

definition network_event :: "mqtt_event \<Rightarrow> (mqtt_client, 'c) gateway \<Rightarrow> (mqtt_client, 'c) gateway" where
  "network_event callback g =
     g\<lparr>gw_mqtt := (gw_mqtt g)\<lparr>rp_client := handle_event callback (rp_client (gw_mqtt g))\<rparr>\<rparr>"

text \<open>
  The states of the process and the events of the device manager so far, from the start state \<open>p0\<close>:
  a worker takes a pass and its handlers run, the main thread takes a step, the MQTT library calls
  back, a signal is delivered. \<open>env_ok\<close> restricts the answers of the disk.
\<close>

inductive gateway_run ::
  "('db, 'st, 'e) sqlite_engine \<Rightarrow> gateway_config \<Rightarrow> string list
    \<Rightarrow> ((mqtt_publish_input, 'e any_cache_env) gateway_action \<Rightarrow> bool) \<Rightarrow> 'db any_cache process
    \<Rightarrow> 'db any_cache process \<Rightarrow> manager_event list \<Rightarrow> bool"
  for eng :: "('db, 'st, 'e) sqlite_engine" and cfg :: gateway_config and serial_devices :: "string list"
    and env_ok :: "(mqtt_publish_input, 'e any_cache_env) gateway_action \<Rightarrow> bool" and p0 :: "'db any_cache process" where
  run_started: "gateway_run eng cfg serial_devices env_ok p0 p0 []"
| run_worker: "gateway_run eng cfg serial_devices env_ok p0 p ev
    \<Longrightarrow> worker_turn any_ops i input (pr_devices p) = Some (evs, m')
    \<Longrightarrow> length inputs = length evs \<Longrightarrow> list_all env_ok (map2 HandleEvent inputs evs)
    \<Longrightarrow> run_actions mqtt_publish (any_cache_ops eng) (qc_topic_prefix (cfg_mqtt cfg)) (map2 HandleEvent inputs evs)
          (pr_gateway p) = Some g'
    \<Longrightarrow> gateway_run eng cfg serial_devices env_ok p0 (p\<lparr>pr_devices := m', pr_gateway := g'\<rparr>) (ev @ evs)"
| run_main: "gateway_run eng cfg serial_devices env_ok p0 p ev \<Longrightarrow> env_ok (FlushCache (mi_flush input))
    \<Longrightarrow> main_step eng cfg serial_devices input p = Some p' \<Longrightarrow> gateway_run eng cfg serial_devices env_ok p0 p' ev"
| run_network: "gateway_run eng cfg serial_devices env_ok p0 p ev
    \<Longrightarrow> gateway_run eng cfg serial_devices env_ok p0 (p\<lparr>pr_gateway := network_event callback (pr_gateway p)\<rparr>) ev"
| run_signal: "gateway_run eng cfg serial_devices env_ok p0 p ev \<Longrightarrow> deliver signal (pr_signals p) = Some s
    \<Longrightarrow> gateway_run eng cfg serial_devices env_ok p0 (p\<lparr>pr_signals := s\<rparr>) ev"

section \<open>The program\<close>

datatype 'c main_outcome =
    ExitVersion string
  | ExitConfig string
  | ExitEarly logger "log_call list"
  | Started gateway_config logger "string list" "'c process"

record 'e main_env =
  me_log :: log_open_env
  me_steady_seconds :: u64
  me_sigaction :: "shutdown_signal \<Rightarrow> errno option"
  me_start :: "'e start_input"

definition shutdown_log :: "signal_state \<Rightarrow> log_call list" where
  "shutdown_log s = (if shutdown_requested s then [LogInfo ''app'' ''shutdown requested''] else [])"

definition config_path_of :: "string list \<Rightarrow> string" where
  "config_path_of args = (case args of [] \<Rightarrow> ''config/gateway.yaml'' | path # _ \<Rightarrow> path)"

text \<open>\<open>main\<close> up to the start of the workers; \<open>args\<close> are the arguments after the program name.\<close>

definition gateway_main ::
  "string \<Rightarrow> 'n yaml_api \<Rightarrow> (string \<Rightarrow> bool) \<Rightarrow> ('db, 'st, 'e) sqlite_engine \<Rightarrow> 'e main_env \<Rightarrow> string list
    \<Rightarrow> 'db any_cache main_outcome" where
  "gateway_main kVersion y inet_pton eng env args =
     (if args = [''--version''] then ExitVersion (line_of (''linux-iot-edge-gateway '' @ kVersion))
      else
        (case load_gateway_config y inet_pton (config_path_of args) default_config of
           Inl error \<Rightarrow> ExitConfig (line_of (''load config failed: '' @ config_error_message error))
         | Inr cfg \<Rightarrow>
             let logger = logger_new (me_log env) (log_path (cfg_log cfg)) (parse_log_level (log_level (cfg_log cfg)));
                 mt = runtime_metrics_new (me_steady_seconds env);
                 st = set_config_loaded True (runtime_status_new kVersion (cache_type (cfg_cache cfg)) True
                        (tcpc_enabled (cfg_tcp cfg)))
             in (case install_shutdown_signal_handlers (me_sigaction env) signal_init of
                   (False, error, s) \<Rightarrow> ExitEarly logger [LogError ''app'' error]
                 | (True, error, s) \<Rightarrow>
                     let serial_devices = (case args of _ # device # _ \<Rightarrow> [device] | _ \<Rightarrow> sc_devices (cfg_serial cfg))
                     in (case run_gateway_start eng cfg serial_devices (me_start env) st mt s
                                [LogInfo ''app'' (''edge gateway starting, version='' @ kVersion)] of
                           Inl (log, st') \<Rightarrow> ExitEarly logger (log @ shutdown_log (arrive (gs_signal (me_start env)) s))
                         | Inr p \<Rightarrow> Started cfg logger serial_devices p))))"

text \<open>The end of \<open>main\<close> once \<open>run_gateway\<close> has returned 0: the exit code and all log calls.\<close>

definition main_finish :: "'c process \<Rightarrow> (int \<times> log_call list) option" where
  "main_finish p =
     (if pr_phase p = Returned
      then Some (0, gw_log (pr_gateway p) @ shutdown_log (pr_signals p) @ [LogInfo ''app'' ''edge gateway stopped''])
      else None)"

fun early_exit_code :: "'c main_outcome \<Rightarrow> int option" where
  "early_exit_code (ExitVersion output) = Some 0"
| "early_exit_code (ExitConfig error) = Some 1"
| "early_exit_code (ExitEarly logger log) = Some 1"
| "early_exit_code (Started cfg logger serial_devices p) = None"

section \<open>The devices\<close>

lemma reach_add_all:
  "manager_reach any_ops new_device m ev \<Longrightarrow> (\<And>x. new_device (mk x))
    \<Longrightarrow> manager_reach any_ops new_device (fold (\<lambda>x. manager_add (mk x)) xs m) ev"
  by (induction xs arbitrary: m) (auto intro: reach_add)

lemma build_devices_reach: "manager_reach any_ops new_device (build_devices cfg serial_devices) []"
proof -
  have uart: "manager_reach any_ops new_device (fold (\<lambda>path. manager_add (UartDev (uart_new path b))) serial_devices
      (device_manager_new timeout)) []" for b timeout
    by (rule reach_add_all [OF reach_new]) (auto simp: new_device_def)
  show ?thesis
    unfolding build_devices_def Let_def
    by (simp; intro conjI impI; (intro uart reach_add)?) (auto simp: new_device_def)
qed

lemma handler_events:
  "length inputs = length evs \<Longrightarrow> concat (map action_events (map2 HandleEvent inputs evs)) = evs"
  by (induction inputs evs rule: list_induct2) simp_all

section \<open>What a step of the main thread changes\<close>

lemma fold_gw_write [simp]:
  "gw_mqtt (fold gw_write lines g) = gw_mqtt g" "gw_tcp_enabled (fold gw_write lines g) = gw_tcp_enabled g"
  by (induction lines arbitrary: g) simp_all

lemma repeat_gw_write [simp]:
  "gw_mqtt ((gw_write line ^^ n) g) = gw_mqtt g" "gw_tcp ((gw_write line ^^ n) g) = gw_tcp g"
  by (induction n) simp_all

lemma gw_update_metrics_simps [simp]:
  "gw_mqtt (gw_update_metrics f g) = update_metrics f (gw_mqtt g)" "gw_tcp (gw_update_metrics f g) = gw_tcp g"
  by (simp_all add: gw_update_metrics_def)

text \<open>The publisher without its counters.\<close>

definition publisher_core :: "('k, 'c) reliable_publisher \<Rightarrow> 'k \<times> 'c \<times> (cached_message \<times> bool) list" where
  "publisher_core rp = (rp_client rp, rp_cache rp, rp_attempts rp)"

lemma publisher_core_metrics [simp]: "publisher_core (update_metrics f rp) = publisher_core rp"
  by (simp add: publisher_core_def update_metrics_def)

lemma kept_core:
  "publisher_core (gw_mqtt g') = publisher_core (gw_mqtt g) \<Longrightarrow> kept contents g' = kept contents g"
  "publisher_core (gw_mqtt g') = publisher_core (gw_mqtt g) \<Longrightarrow> rp_cache (gw_mqtt g') = rp_cache (gw_mqtt g)"
  by (simp_all add: publisher_core_def kept_def acked_def)

lemma observe_devices_effect [simp]:
  "publisher_core (gw_mqtt (pr_gateway (observe_devices now p))) = publisher_core (gw_mqtt (pr_gateway p))"
  "gw_tcp (pr_gateway (observe_devices now p)) = gw_tcp (pr_gateway p)"
  "pr_devices (observe_devices now p) = pr_devices p" "pr_http (observe_devices now p) = pr_http p"
  "pr_signals (observe_devices now p) = pr_signals p" "pr_phase (observe_devices now p) = pr_phase p"
  "ready (pr_status (observe_devices now p)) = ready (pr_status p)"
  "config_loaded (pr_status (observe_devices now p)) = config_loaded (pr_status p)"
  "cache_ready (pr_status (observe_devices now p)) = cache_ready (pr_status p)"
  by (simp_all add: observe_devices_def update_device_observability_def ready_def status_defs Let_def split: option.split)

lemma main_step_gateway:
  "main_step eng cfg serial_devices input p = Some p'
    \<Longrightarrow> pr_gateway p' = gateway_flush mqtt_publish (any_cache_ops eng) (mi_flush input) (pr_gateway p)
      \<or> publisher_core (gw_mqtt (pr_gateway p')) = publisher_core (gw_mqtt (pr_gateway p))"
  by (auto simp: main_step_def await_uart_def announce_def Let_def split: main_phase.splits if_splits)

lemma main_step_devices:
  "main_step eng cfg serial_devices input p = Some p' \<Longrightarrow> pr_devices p' = pr_devices p
    \<or> pr_devices p' = manager_stop any_ops (pr_devices p)"
  by (auto simp: main_step_def await_uart_def announce_def Let_def split: main_phase.splits if_splits)

lemma gateway_run_reach:
  assumes "gateway_run eng cfg serial_devices env_ok p0 p ev" "manager_reach any_ops new_device (pr_devices p0) []"
  shows "manager_reach any_ops new_device (pr_devices p) ev"
  using assms
proof (induction rule: gateway_run.induct)
  case (run_main p ev input p')
  then show ?case using main_step_devices [OF run_main.hyps(3)] by (auto intro: reach_stop)
qed (auto intro: reach_turn)

section \<open>Messages of a run\<close>

context working_engine
begin

lemma gateway_run_kept:
  assumes "gateway_run eng cfg serial_devices (disk_ok (any_works works) any_clean) p0 p ev"
    and "manager_reach any_ops new_device (pr_devices p0) []" "any_prefix (qc_topic_prefix (cfg_mqtt cfg))"
    and "any_cache_invar table rows (rp_cache (gw_mqtt (pr_gateway p0)))"
  shows "any_cache_invar table rows (rp_cache (gw_mqtt (pr_gateway p)))
    \<and> grows (kept (any_contents rows) (pr_gateway p0))
        (mset (map (message_of (qc_topic_prefix (cfg_mqtt cfg))) (valid_data ev))) (kept (any_contents rows) (pr_gateway p))"
  using assms
proof (induction rule: gateway_run.induct)
  case run_started
  then show ?case by (simp add: grows_refl)
next
  case (run_worker p ev i input evs m' inputs g')
  have "manager_reach any_ops new_device m' (ev @ evs)"
    using gateway_run_reach [OF run_worker.hyps(1) run_worker.prems(1)] run_worker.hyps(2) by (rule reach_turn)
  then have "list_all checked_reading (concat (map event_data evs))"
    using manager_readings_checked by fastforce
  note kept = any_run_actions_kept [OF run_worker.hyps(5) _ run_worker.hyps(4) run_worker.prems(2),
      unfolded handler_events [OF run_worker.hyps(3)], OF _ this]
  have IH: "any_cache_invar table rows (rp_cache (gw_mqtt (pr_gateway p)))"
      "grows (kept (any_contents rows) (pr_gateway p0))
        (mset (map (message_of (qc_topic_prefix (cfg_mqtt cfg))) (valid_data ev))) (kept (any_contents rows) (pr_gateway p))"
    using run_worker.IH run_worker.prems by simp_all
  from kept [OF IH(1)] grows_trans [OF IH(2)] show ?case by simp
next
  case (run_main p ev input p')
  have IH: "any_cache_invar table rows (rp_cache (gw_mqtt (pr_gateway p)))"
      "grows (kept (any_contents rows) (pr_gateway p0))
        (mset (map (message_of (qc_topic_prefix (cfg_mqtt cfg))) (valid_data ev))) (kept (any_contents rows) (pr_gateway p))"
    using run_main.IH run_main.prems by simp_all
  from main_step_gateway [OF run_main.hyps(3)] show ?case
  proof
    assume flush: "pr_gateway p' = gateway_flush mqtt_publish (any_cache_ops eng) (mi_flush input) (pr_gateway p)"
    from any_flush_kept [OF IH(1), of "mi_flush input" mqtt_publish] run_main.hyps(2)
    have "any_cache_invar table rows (rp_cache (gw_mqtt (pr_gateway p')))"
        "grows (kept (any_contents rows) (pr_gateway p)) {#} (kept (any_contents rows) (pr_gateway p'))"
      unfolding flush by simp_all
    with grows_trans [OF IH(2)] show ?thesis by fastforce
  next
    assume "publisher_core (gw_mqtt (pr_gateway p')) = publisher_core (gw_mqtt (pr_gateway p))"
    from kept_core [OF this] IH show ?thesis by simp
  qed
next
  case (run_network p ev callback)
  then show ?case by (simp add: network_event_def kept_def acked_def)
next
  case (run_signal p ev signal s)
  then show ?case by simp
qed

end

section \<open>Life cycle\<close>

abbreviation shutting_down :: "main_phase set" where
  "shutting_down \<equiv> {Leaving, StoppingHttp, StoppingDevices, Disconnecting, Returned}"

text \<open>What holds of the parts in every phase of the main thread.\<close>

definition lifecycle :: "gateway_config \<Rightarrow> 'c process \<Rightarrow> bool" where
  "lifecycle cfg p \<longleftrightarrow>
     (running (pr_devices p) \<longleftrightarrow> pr_phase p \<notin> {Disconnecting, Returned})
   \<and> config_loaded (pr_status p) \<and> cache_ready (pr_status p)
   \<and> (ready (pr_status p) \<longleftrightarrow> pr_phase p \<in> {Waiting, Flushing, Observing, Leaving})
   \<and> (case pr_http p of
        None \<Rightarrow> \<not> hc_enabled (cfg_http cfg)
      | Some server \<Rightarrow> hc_enabled (cfg_http cfg)
          \<and> (hs_running server \<longleftrightarrow> pr_phase p \<notin> {StoppingDevices, Disconnecting, Returned}))
   \<and> (pr_phase p \<in> shutting_down \<longrightarrow> shutdown_requested (pr_signals p))
   \<and> (pr_phase p = Returned \<longrightarrow> \<not> tcp_is_connected (gw_tcp (pr_gateway p)))"

lemma wait_requested:
  "wait_for_shutdown input timeout s = Some (requested, pauses, s') \<Longrightarrow> requested = shutdown_requested s'"
  by (auto simp: wait_for_shutdown_def Let_def)

lemma manager_stop_running [simp]: "\<not> running (manager_stop ops m)"
  by (simp add: manager_stop_def Let_def)

lemma ready_workers:
  "config_loaded st \<Longrightarrow> cache_ready st \<Longrightarrow> ready (set_serial_workers_started b n st) = b"
  by (simp add: ready_def status_defs)

lemma status_loaded [simp]:
  "config_loaded (set_serial_workers_started b n st) = config_loaded st"
  "cache_ready (set_serial_workers_started b n st) = cache_ready st"
  by (simp_all add: status_defs)

lemma await_uart_effect [simp]:
  "pr_devices (await_uart ds now n p) = pr_devices p" "pr_http (await_uart ds now n p) = pr_http p"
  "pr_status (await_uart ds now n p) = pr_status p" "pr_signals (await_uart ds now n p) = pr_signals p"
  "pr_phase (await_uart ds now n p) = Announce \<or> pr_phase (await_uart ds now n p) = AwaitUart (n + 1)"
  by (simp_all add: await_uart_def Let_def)

lemma tcp_disconnect_closed [simp]: "\<not> tcp_is_connected (tcp_disconnect c)"
  by (simp add: tcp_disconnect_def tcp_is_connected_def)

lemma main_step_lifecycle:
  assumes "lifecycle cfg p" "main_step eng cfg serial_devices input p = Some p'"
  shows "lifecycle cfg p'"
proof (cases "pr_phase p = Waiting")
  case True
  then obtain requested pauses s where
    wait: "wait_for_shutdown (mi_wait input) (qc_cache_retry_interval_seconds (cfg_mqtt cfg) * 1000) (pr_signals p)
        = Some (requested, pauses, s)"
      and p': "p' = p\<lparr>pr_signals := s, pr_phase := (if requested then Leaving else Flushing)\<rparr>"
    using assms(2) by (auto simp: main_step_def)
  with assms(1) True wait_requested [OF wait] show ?thesis
    by (auto simp: lifecycle_def split: option.splits)
next
  case False
  show ?thesis
  proof (cases "pr_phase p")
    case (AwaitUart n)
    with assms await_uart_effect(5) [of serial_devices "mi_unix_seconds input" n p] show ?thesis
      by (auto simp: main_step_def lifecycle_def split: option.splits)
  next
    case Announce
    with assms show ?thesis
      by (auto simp: main_step_def lifecycle_def announce_def Let_def ready_workers split: option.splits)
  qed (use assms False in \<open>auto simp: main_step_def lifecycle_def ready_workers http_stop_effect split: option.splits\<close>)
qed

lemma worker_turn_running: "worker_turn ops i input m = Some (evs, m') \<Longrightarrow> running m \<and> running m'"
  by (auto simp: worker_turn_def split: if_splits)

lemma lifecycle_worker:
  "lifecycle cfg p \<Longrightarrow> running (pr_devices p) \<and> running m' \<Longrightarrow> lifecycle cfg (p\<lparr>pr_devices := m', pr_gateway := g'\<rparr>)"
  by (auto simp: lifecycle_def split: option.splits)

lemma lifecycle_network: "lifecycle cfg p \<Longrightarrow> lifecycle cfg (p\<lparr>pr_gateway := network_event callback (pr_gateway p)\<rparr>)"
  by (simp add: lifecycle_def network_event_def split: option.splits)

lemma lifecycle_signal: "lifecycle cfg p \<Longrightarrow> shutdown_requested s \<Longrightarrow> lifecycle cfg (p\<lparr>pr_signals := s\<rparr>)"
  by (simp add: lifecycle_def split: option.splits)

lemma deliver_requested: "deliver signal s = Some s' \<Longrightarrow> shutdown_requested s'"
  by (auto simp: deliver_def shutdown_requested_def split: if_splits)

lemma gateway_run_lifecycle:
  "gateway_run eng cfg serial_devices env_ok p0 p ev \<Longrightarrow> lifecycle cfg p0 \<Longrightarrow> lifecycle cfg p"
proof (induction rule: gateway_run.induct)
  case (run_worker p ev i input evs m' inputs g')
  then show ?case by (intro lifecycle_worker worker_turn_running)
next
  case (run_main p ev input p')
  then show ?case using main_step_lifecycle by blast
next
  case (run_network p ev callback)
  then show ?case using lifecycle_network by blast
next
  case (run_signal p ev signal s)
  then show ?case using lifecycle_signal deliver_requested by blast
qed

lemma start_lifecycle:
  assumes "run_gateway_start eng cfg serial_devices input st mt signals log = Inr p"
    and "config_loaded st" "\<not> serial_workers_started st"
  shows "lifecycle cfg p"
proof -
  obtain http where http: "start_http (cfg_http cfg) (gs_http input) = Inr http" "pr_http p = http"
      and p: "pr_phase p = Announce \<or> pr_phase p = AwaitUart 0" "pr_status p = set_cache_ready True st"
        "pr_devices p = manager_start (gs_unix_seconds input) (build_devices cfg serial_devices)"
    using assms(1) by (auto simp: run_gateway_start_def Let_def split: sum.splits)
  have "running (pr_devices p)" by (simp add: p(3) manager_start_def)
  moreover have "case http of None \<Rightarrow> \<not> hc_enabled (cfg_http cfg)
      | Some server \<Rightarrow> hc_enabled (cfg_http cfg) \<and> hs_running server"
    using http(1) http_start_effect [of "gs_http input" "http_server_new (hc_host (cfg_http cfg)) (hc_port (cfg_http cfg))"]
    by (auto simp: start_http_def http_server_new_def split: if_splits prod.splits)
  ultimately show ?thesis
    using p assms(2,3) http(2) by (auto simp: lifecycle_def ready_def status_defs split: option.splits)
qed

section \<open>The start\<close>

lemma start_devices:
  "run_gateway_start eng cfg serial_devices input st mt signals log = Inr p
    \<Longrightarrow> pr_devices p = manager_start (gs_unix_seconds input) (build_devices cfg serial_devices)"
  by (auto simp: run_gateway_start_def Let_def split: sum.splits)

lemma start_reach:
  "run_gateway_start eng cfg serial_devices input st mt signals log = Inr p
    \<Longrightarrow> manager_reach any_ops new_device (pr_devices p) []"
  by (simp add: start_devices reach_start build_devices_reach)

lemma start_signals:
  "run_gateway_start eng cfg serial_devices input st mt signals log = Inr p \<Longrightarrow> handled (pr_signals p) = handled signals"
  by (auto simp: run_gateway_start_def Let_def split: sum.splits)

lemma fold_manager_add:
  "\<not> running m \<Longrightarrow> devices (fold (\<lambda>x. manager_add (mk x)) xs m) = devices m @ map mk xs
    \<and> workers (fold (\<lambda>x. manager_add (mk x)) xs m) = workers m \<and> \<not> running (fold (\<lambda>x. manager_add (mk x)) xs m)"
  by (induction xs arbitrary: m) (simp_all add: manager_add_def)

lemma start_counts:
  assumes "run_gateway_start eng cfg serial_devices input st mt signals log = Inr p"
  shows "length (workers (pr_devices p)) = input_count cfg serial_devices"
    "length (devices (pr_devices p)) = input_count cfg serial_devices"
  using fold_manager_add [of "device_manager_new timeout" "\<lambda>path. UartDev (uart_new path b)" serial_devices for timeout b]
  by (simp_all add: start_devices [OF assms] build_devices_def manager_start_def input_count_def device_manager_new_def
      manager_add_def Let_def)

lemma start_failed_reason:
  "run_gateway_start eng cfg serial_devices input st mt signals log = Inl x
    \<Longrightarrow> (\<exists>e. make_message_cache eng (gs_sqlite input) (gs_cache_file input) (cfg_cache cfg) = Inl e)
      \<or> (\<exists>e. start_http (cfg_http cfg) (gs_http input) = Inl e)"
  by (auto simp: run_gateway_start_def Let_def split: sum.splits)

lemma exit_early_reason:
  assumes "gateway_main kVersion y inet_pton eng env args = ExitEarly logger log"
  shows "\<exists>cfg. load_gateway_config y inet_pton (config_path_of args) default_config = Inr cfg
    \<and> ((\<exists>signal. me_sigaction env signal \<noteq> None)
       \<or> (\<exists>e. make_message_cache eng (gs_sqlite (me_start env)) (gs_cache_file (me_start env)) (cfg_cache cfg) = Inl e)
       \<or> (\<exists>e. start_http (cfg_http cfg) (gs_http (me_start env)) = Inl e))"
proof -
  obtain cfg where cfg: "load_gateway_config y inet_pton (config_path_of args) default_config = Inr cfg"
    using assms by (auto simp: gateway_main_def Let_def split: if_splits sum.splits)
  obtain ok error s where inst: "install_shutdown_signal_handlers (me_sigaction env) signal_init = (ok, error, s)"
    by (metis prod_cases3)
  show ?thesis
  proof (cases ok)
    case False
    then have "\<exists>signal. me_sigaction env signal \<noteq> None"
      using inst by (auto simp: install_shutdown_signal_handlers_def install_handler_def Let_def split: option.splits)
    with cfg show ?thesis by blast
  next
    case True
    with assms cfg inst show ?thesis
      by (auto simp: gateway_main_def Let_def split: if_splits sum.splits dest!: start_failed_reason)
  qed
qed

lemma main_started:
  assumes "gateway_main kVersion y inet_pton eng env args = Started cfg logger serial_devices p"
  obtains st mt signals log where
    "run_gateway_start eng cfg serial_devices (me_start env) st mt signals log = Inr p"
    "config_loaded st" "\<not> serial_workers_started st" "handled signals = {SIGINT, SIGTERM}"
    "serial_devices = (if 2 \<le> length args then [args ! 1] else sc_devices (cfg_serial cfg))"
    "load_gateway_config y inet_pton (config_path_of args) default_config = Inr cfg"
    "logger = logger_new (me_log env) (log_path (cfg_log cfg)) (parse_log_level (log_level (cfg_log cfg)))"
    "mt = runtime_metrics_new (me_steady_seconds env)"
proof -
  let ?st = "set_config_loaded True (runtime_status_new kVersion (cache_type (cfg_cache cfg)) True (tcpc_enabled (cfg_tcp cfg)))"
  have load: "load_gateway_config y inet_pton (config_path_of args) default_config = Inr cfg"
    using assms by (auto simp: gateway_main_def Let_def split: if_splits sum.splits prod.splits bool.splits)
  obtain ok error s where inst: "install_shutdown_signal_handlers (me_sigaction env) signal_init = (ok, error, s)"
    by (metis prod_cases3)
  have ok: ok
    using assms load inst by (auto simp: gateway_main_def Let_def split: if_splits bool.splits)
  have handled: "handled s = {SIGINT, SIGTERM}"
    using inst ok by (auto simp: install_shutdown_signal_handlers_def install_handler_def signal_init_def Let_def
        split: option.splits)
  have start: "run_gateway_start eng cfg serial_devices (me_start env) ?st (runtime_metrics_new (me_steady_seconds env)) s
      [LogInfo ''app'' (''edge gateway starting, version='' @ kVersion)] = Inr p"
    and devs: "serial_devices = (case args of _ # device # _ \<Rightarrow> [device] | _ \<Rightarrow> sc_devices (cfg_serial cfg))"
    and logger: "logger = logger_new (me_log env) (log_path (cfg_log cfg)) (parse_log_level (log_level (cfg_log cfg)))"
    using assms load inst ok
    by (auto simp: gateway_main_def Let_def split: if_splits sum.splits prod.splits)
  have "config_loaded ?st" "\<not> serial_workers_started ?st"
    by (simp_all add: status_defs runtime_status_new_def)
  moreover have "serial_devices = (if 2 \<le> length args then [args ! 1] else sc_devices (cfg_serial cfg))"
    unfolding devs by (cases args; cases "tl args") simp_all
  ultimately show ?thesis using that [OF start] handled load logger by blast
qed

context working_engine
begin

lemma start_kept:
  assumes "run_gateway_start eng cfg serial_devices input st mt signals log = Inr p"
    and "left_behind eng rows (gs_sqlite input) (gs_cache_file input) (cfg_cache cfg) stored"
    and "any_clean (gs_measure input)" "any_clean (fi_load (gs_flush input))" "any_clean (fi_remove (gs_flush input))"
  shows "any_cache_invar table rows (rp_cache (gw_mqtt (pr_gateway p)))
    \<and> grows (mset stored) {#} (kept (any_contents rows) (pr_gateway p))"
proof -
  obtain cache where made: "make_message_cache eng (gs_sqlite input) (gs_cache_file input) (cfg_cache cfg) = Inr cache"
    using assms(1) by (auto simp: run_gateway_start_def split: sum.splits)
  note holds = make_cache_holds [OF made assms(2)]
  obtain http where http: "start_http (cfg_http cfg) (gs_http input) = Inr http"
    using assms(1) made by (auto simp: run_gateway_start_def Let_def split: sum.splits)
  let ?g = "gw_write (LogInfo ''cache'' ''checking cached mqtt messages'')
    (fold gw_write (http_start_log (Inr http)) (new_gateway eng cfg input cache mt log))"
  have p: "pr_gateway p = gateway_flush mqtt_publish (any_cache_ops eng) (gs_flush input) ?g"
    using assms(1) made http by (auto simp: run_gateway_start_def Let_def)
  have new: "any_cache_invar table rows (rp_cache (gw_mqtt ?g))"
      "kept (any_contents rows) ?g = mset stored"
    using any_measure_cache_effect [where ?rp = "\<lparr>rp_client = mqtt_client_new (gs_mosquitto input) (qc_host (cfg_mqtt cfg))
        (qc_port (cfg_mqtt cfg)) (mqtt_options_of (cfg_mqtt cfg)), rp_cache = cache, rp_metrics = Some mt, rp_attempts = []\<rparr>",
        OF _ assms(3)] holds
    by (simp_all add: new_gateway_def reliable_publisher_new_def kept_def acked_def Let_def)
  from any_flush_kept [OF new(1) assms(4,5), of mqtt_publish] new(2) show ?thesis by (simp add: p)
qed

end

section \<open>The end\<close>

fun steps_left :: "main_phase \<Rightarrow> nat" where
  "steps_left (AwaitUart n) = 7 + (20 - n)"
| "steps_left Announce = 6"
| "steps_left Waiting = 5"
| "steps_left Flushing = 7"
| "steps_left Observing = 6"
| "steps_left Leaving = 4"
| "steps_left StoppingHttp = 3"
| "steps_left StoppingDevices = 2"
| "steps_left Disconnecting = 1"
| "steps_left Returned = 0"

fun main_steps ::
  "('db, 'st, 'e) sqlite_engine \<Rightarrow> gateway_config \<Rightarrow> string list \<Rightarrow> 'e main_input list \<Rightarrow> 'db any_cache process
    \<Rightarrow> 'db any_cache process option" where
  "main_steps eng cfg serial_devices [] p = Some p"
| "main_steps eng cfg serial_devices (input # inputs) p =
     Option.bind (main_step eng cfg serial_devices input p) (main_steps eng cfg serial_devices inputs)"

lemma wait_requested_returns:
  "wt_rounds input \<noteq> [] \<Longrightarrow> shutdown_requested s
    \<Longrightarrow> \<exists>pauses s'. wait_for_shutdown input timeout s = Some (True, pauses, s') \<and> shutdown_requested s'"
  by (cases "wt_rounds input") (auto simp: wait_for_shutdown_def shutdown_requested_def Let_def)

lemma main_step_progress:
  assumes "shutdown_requested (pr_signals p)" "wt_rounds (mi_wait input) \<noteq> []" "pr_phase p \<noteq> Returned"
  shows "\<exists>p'. main_step eng cfg serial_devices input p = Some p' \<and> shutdown_requested (pr_signals p')
    \<and> steps_left (pr_phase p') < steps_left (pr_phase p)"
proof (cases "pr_phase p = Waiting")
  case True
  obtain pauses s' where "wait_for_shutdown (mi_wait input) (qc_cache_retry_interval_seconds (cfg_mqtt cfg) * 1000) (pr_signals p)
      = Some (True, pauses, s')" "shutdown_requested s'"
    using wait_requested_returns [OF assms(2,1)] by blast
  with True show ?thesis by (intro exI [of _ "p\<lparr>pr_signals := s', pr_phase := Leaving\<rparr>"]) (simp add: main_step_def)
next
  case False
  with assms show ?thesis
    by (cases "pr_phase p") (auto simp: main_step_def announce_def await_uart_def Let_def)
qed

lemma shutdown_ends:
  assumes "shutdown_requested (pr_signals p)" "list_all (\<lambda>input. wt_rounds (mi_wait input) \<noteq> []) inputs"
    and "steps_left (pr_phase p) \<le> length inputs"
  shows "\<exists>k p'. k \<le> steps_left (pr_phase p) \<and> main_steps eng cfg serial_devices (take k inputs) p = Some p'
    \<and> pr_phase p' = Returned"
  using assms
proof (induction inputs arbitrary: p)
  case Nil
  then show ?case by (cases "pr_phase p") auto
next
  case (Cons input inputs)
  show ?case
  proof (cases "pr_phase p = Returned")
    case True
    then show ?thesis by (intro exI [of _ 0] exI [of _ p]) simp
  next
    case False
    then obtain p1 where p1: "main_step eng cfg serial_devices input p = Some p1" "shutdown_requested (pr_signals p1)"
        "steps_left (pr_phase p1) < steps_left (pr_phase p)"
      using main_step_progress [of p input eng cfg serial_devices] Cons.prems by auto
    then obtain k p' where "k \<le> steps_left (pr_phase p1)"
        "main_steps eng cfg serial_devices (take k inputs) p1 = Some p'" "pr_phase p' = Returned"
      using Cons.IH [of p1] Cons.prems by auto
    with p1 show ?thesis by (intro exI [of _ "Suc k"] exI [of _ p']) simp
  qed
qed

end
