(* ===== verification/Accounting.thy ===== *)
theory Accounting
  imports GatewayMain
begin

text \<open>
  The counters of \<^verbatim>\<open>src/src/app/runtime_metrics.cpp\<close> over whole runs of \<^verbatim>\<open>src/src/main.cpp\<close>: what every
  step of the program adds to them, on the input side and on the output side.
\<close>

section \<open>The MQTT publisher\<close>

text \<open>The publish calls that were acknowledged and those that were not, as the counters should show them.\<close>

definition attempt_counts :: "(cached_message \<times> bool) list \<Rightarrow> u64 \<times> u64" where
  "attempt_counts as = (of_nat (length (filter snd as)), of_nat (length (filter (\<lambda>a. \<not> snd a) as)))"

definition mqtt_counters :: "runtime_metrics \<Rightarrow> u64 \<times> u64" where
  "mqtt_counters mt = (mt_mqtt_publish_success_total mt, mt_mqtt_publish_failed_total mt)"

definition ledger :: "('k, 'c) reliable_publisher \<Rightarrow> bool" where
  "ledger rp \<longleftrightarrow> map_option mqtt_counters (rp_metrics rp) = Some (attempt_counts (rp_attempts rp))"

lemma ledger_update [simp]:
  "(\<And>mt. mqtt_counters (f mt) = mqtt_counters mt) \<Longrightarrow> ledger (update_metrics f rp) = ledger rp"
  "ledger (rp\<lparr>rp_cache := c\<rparr>) = ledger rp"
  by (simp_all add: ledger_def update_metrics_def option.map_comp comp_def)

lemma mqtt_counters_other [simp]:
  "mqtt_counters (set_cache_depth n mt) = mqtt_counters mt" "mqtt_counters (record_cache_enqueue n mt) = mqtt_counters mt"
  "mqtt_counters (record_cache_flush_attempt n mt) = mqtt_counters mt"
  by (simp_all add: mqtt_counters_def metric_defs)

lemma ledger_measure [simp]: "ledger (measure_cache ops e rp) = ledger rp"
  by (auto simp: measure_cache_def ledger_def split: option.split prod.split)

lemma ledger_attempt:
  assumes "attempt pub i m rp = (ok, rp')" "ledger rp"
  shows "ledger (update_metrics (if ok then record_mqtt_publish_success 1 else record_mqtt_publish_failed 1) rp')"
  using assms attempt_effect [OF assms(1)]
  by (auto simp: ledger_def update_metrics_def attempt_counts_def mqtt_counters_def metric_defs)

lemma ledger_publish:
  assumes "reliable_publish pub ops input t p rp = (status, rp')" "ledger rp"
  shows "ledger rp'"
proof -
  obtain ok rp1 where at: "attempt pub (pi_mqtt input) (msg t p) rp = (ok, rp1)" by fastforce
  from ledger_attempt [OF at assms(2)] assms(1) at show ?thesis
    by (auto simp: reliable_publish_def Let_def split: prod.splits bool.splits)
qed

lemma ledger_replay: "replay pub i ms n rp = (n', rp') \<Longrightarrow> ledger rp \<Longrightarrow> ledger rp'"
proof (induction ms arbitrary: n rp)
  case (Cons m ms)
  obtain ok rp1 where at: "attempt pub (i n) m rp = (ok, rp1)" by fastforce
  from ledger_attempt [OF at Cons.prems(2)] Cons.IH Cons.prems(1) at show ?case by (cases ok) auto
qed simp

lemma ledger_flush: "ledger rp \<Longrightarrow> ledger (snd (flush_cache pub ops input rp))"
  by (auto simp: flush_cache_def Let_def dest: ledger_replay split: prod.splits bool.splits)

section \<open>The gateway\<close>

definition tcp_total :: "runtime_metrics \<Rightarrow> u64" where
  "tcp_total mt = mt_tcp_publish_success_total mt + mt_tcp_publish_failed_total mt"

lemma output_counters_split: "output_counters mt = (fst (mqtt_counters mt), snd (mqtt_counters mt), tcp_total mt)"
  by (simp add: output_counters_def mqtt_counters_def tcp_total_def)

text \<open>The books after some events: input counters, MQTT counters, and one TCP result per valid reading.\<close>

definition tcp_results :: "bool \<Rightarrow> manager_event list \<Rightarrow> u64" where
  "tcp_results tcp ev = (if tcp then of_nat (length (valid_data ev)) else 0)"

definition books :: "bool \<Rightarrow> manager_event list \<Rightarrow> ('k, 'c) gateway \<Rightarrow> bool" where
  "books tcp ev g \<longleftrightarrow> ledger (gw_mqtt g) \<and> gw_tcp_enabled g = tcp
     \<and> (\<exists>mt. rp_metrics (gw_mqtt g) = Some mt \<and> counted ev (runtime_metrics_new 0) mt \<and> tcp_total mt = tcp_results tcp ev)"

text \<open>Steps that leave the counters of the books alone.\<close>

definition book_counters :: "runtime_metrics \<Rightarrow> (u64 \<times> u64 \<times> u64 \<times> u64 \<times> u64 \<times> u64 \<times> u64) \<times> (u64 \<times> u64) \<times> u64" where
  "book_counters mt = (device_counters mt, mqtt_counters mt, tcp_total mt)"

lemma books_same:
  assumes "books tcp ev g" "map_option book_counters (rp_metrics (gw_mqtt g')) = map_option book_counters (rp_metrics (gw_mqtt g))"
    and "rp_attempts (gw_mqtt g') = rp_attempts (gw_mqtt g)" "gw_tcp_enabled g' = gw_tcp_enabled g"
  shows "books tcp ev g'"
proof -
  obtain mt where mt: "rp_metrics (gw_mqtt g) = Some mt" "counted ev (runtime_metrics_new 0) mt" "tcp_total mt = tcp_results tcp ev"
    using assms(1) by (auto simp: books_def)
  obtain mt' where mt': "rp_metrics (gw_mqtt g') = Some mt'" "book_counters mt' = book_counters mt"
    using assms(2) mt(1) by (cases "rp_metrics (gw_mqtt g')") auto
  then have same: "device_counters mt' = device_counters mt" "mqtt_counters mt' = mqtt_counters mt" "tcp_total mt' = tcp_total mt"
    by (simp_all add: book_counters_def)
  have "counted ev (runtime_metrics_new 0) mt'" using counted_counters [OF same(1)] mt(2) by blast
  with assms mt mt' same show ?thesis by (auto simp: books_def ledger_def tcp_results_def)
qed

lemma books_update:
  "books tcp ev g \<Longrightarrow> (\<And>mt. book_counters (f mt) = book_counters mt) \<Longrightarrow> books tcp ev (gw_update_metrics f g)"
  by (rule books_same) (simp_all add: update_metrics_def option.map_comp comp_def gw_update_metrics_def)

lemma books_write [simp]: "books tcp ev (gw_write line g) = books tcp ev g"
  by (simp add: books_def tcp_results_def)

interpretation tcp_side: neutral_counters tcp_total
  by unfold_locales (simp_all add: tcp_total_def metric_defs)

lemma books_flush: "books tcp ev g \<Longrightarrow> books tcp ev (gateway_flush pub ops input g)"
proof -
  assume "books tcp ev g"
  then obtain mt where mt: "rp_metrics (gw_mqtt g) = Some mt" "counted ev (runtime_metrics_new 0) mt" "tcp_total mt = tcp_results tcp ev"
      and ledger: "ledger (gw_mqtt g)" and tcp: "gw_tcp_enabled g = tcp" by (auto simp: books_def)
  let ?rp = "snd (flush_cache pub ops input (gw_mqtt g))"
  obtain mt' where mt': "rp_metrics ?rp = Some mt'" "device_counters mt' = device_counters mt"
    using input_counters_flush [of pub ops input "gw_mqtt g"] mt(1) by (auto simp: input_counters_def)
  have "tcp_total mt' = tcp_total mt"
    using tcp_side.neutral_flush [of pub ops input "gw_mqtt g"] mt(1) mt'(1) by simp
  with mt mt' tcp counted_counters [OF mt'(2)] ledger_flush [OF ledger] show ?thesis
    by (auto simp: books_def gateway_flush_def tcp_results_def)
qed

lemma tcp_published_counters:
  "tcp_published n f \<Longrightarrow> mqtt_counters (f mt) = mqtt_counters mt \<and> tcp_total (f mt) = tcp_total mt + of_nat n"
  by (cases "output_counters mt")
    (auto simp: tcp_published_def output_counters_def mqtt_counters_def tcp_total_def split: prod.splits)

lemma neutral_input [simp]:
  "mqtt_counters (record_frames_parsed n mt) = mqtt_counters mt" "tcp_total (record_frames_parsed n mt) = tcp_total mt"
  "mqtt_counters (record_protocol_error n mt) = mqtt_counters mt" "tcp_total (record_protocol_error n mt) = tcp_total mt"
  "mqtt_counters (on_device_error protocol stats mt) = mqtt_counters mt" "tcp_total (on_device_error protocol stats mt) = tcp_total mt"
  by (simp_all add: mqtt_counters_def tcp_total_def on_device_error_def metric_defs Let_def)

lemma output_data_event:
  assumes "on_device_data pub ops tp inputs data protocol g = Some g'" "ledger (gw_mqtt g)"
    and "rp_metrics (gw_mqtt g) = Some mt" "rp_metrics (gw_mqtt g') = Some mt'"
  shows "ledger (gw_mqtt g') \<and> gw_tcp_enabled g' = gw_tcp_enabled g
    \<and> tcp_total mt' = tcp_total mt + (if gw_tcp_enabled g \<and> s_valid data then 1 else 0)"
proof (cases "s_valid data")
  case False
  with assms have "g' = gw_update_metrics (record_protocol_error 1) (gw_write (LogWarn (to_string protocol)
      (''invalid sensor data: '' @ sensor_data_to_json data)) (gw_update_metrics (record_frames_parsed 1) g))"
    by (simp add: on_device_data_def publish_invalid)
  with assms False show ?thesis by (auto simp: gw_update_metrics_def update_metrics_def ledger_def)
next
  case True
  let ?g = "gw_update_metrics (record_frames_parsed 1) g"
  obtain status rp f where pub: "reliable_publish pub ops (ch_mqtt (hd inputs)) (build_mqtt_topic tp data)
        (sensor_data_to_json data) (gw_mqtt ?g) = (status, rp)"
      and g': "gw_mqtt g' = update_metrics f rp" "tcp_published (if gw_tcp_enabled ?g then 1 else 0) f"
        "inputs \<noteq> []" "gw_tcp_enabled g' = gw_tcp_enabled ?g"
    using publish_sensor_data_effect [OF assms(1) [unfolded on_device_data_def] True] .
  have "ledger (gw_mqtt ?g)" using assms(2) by simp
  note rp = ledger_publish [OF pub this] tcp_side.neutral_publish [OF pub]
  obtain mt1 where mt1: "rp_metrics rp = Some mt1" "tcp_total mt1 = tcp_total mt"
    using rp(2) assms(3) by (cases "rp_metrics rp") (auto simp: gw_update_metrics_def update_metrics_def)
  have mt': "mt' = f mt1" using assms(4) g'(1) mt1(1) by (simp add: update_metrics_def)
  from tcp_published_counters [OF g'(2)] rp(1) mt1 mt' g'(1,4) True show ?thesis
    by (simp add: gw_update_metrics_def)
qed

lemma books_event:
  assumes "books tcp ev g" "handle_manager_event pub ops tp inputs e g = Some g'"
  shows "books tcp (ev @ [e]) g'"
proof -
  obtain mt where mt: "rp_metrics (gw_mqtt g) = Some mt" "counted ev (runtime_metrics_new 0) mt" "tcp_total mt = tcp_results tcp ev"
      and ledger: "ledger (gw_mqtt g)" and tcp: "gw_tcp_enabled g = tcp" using assms(1) by (auto simp: books_def)
  show ?thesis
  proof (cases e)
    case (DataEvent data protocol)
    then have data: "on_device_data pub ops tp inputs data protocol g = Some g'" using assms(2) by simp
    obtain mt' where mt': "rp_metrics (gw_mqtt g') = Some mt'" "counted [e] mt mt'"
      using on_device_data_counted [OF data mt(1)] DataEvent by blast
    from output_data_event [OF data ledger mt(1) mt'(1)] counted_trans [OF mt(2) mt'(2)] mt' mt(3) tcp DataEvent show ?thesis
      by (auto simp: books_def tcp_results_def)
  next
    case (ErrorEvent protocol code error stats)
    then have g': "g' = gw_write (LogWarn (to_string protocol) (device_error_message error stats))
        (gw_update_metrics (on_device_error protocol stats) g)" using assms(2) by simp
    have "counted [e] mt (on_device_error protocol stats mt)" using on_device_error_counted ErrorEvent by simp
    from counted_trans [OF mt(2) this] mt ledger tcp ErrorEvent show ?thesis
      by (auto simp: g' books_def tcp_results_def gw_update_metrics_def update_metrics_def ledger_def)
  qed
qed

lemma books_actions:
  "books tcp ev g \<Longrightarrow> run_actions pub ops tp acts g = Some g' \<Longrightarrow> books tcp (ev @ concat (map action_events acts)) g'"
proof (induction acts arbitrary: ev g)
  case (Cons act acts)
  obtain g1 where g1: "run_actions pub ops tp [act] g = Some g1" "run_actions pub ops tp acts g1 = Some g'"
    using Cons.prems(2) by (subst (asm) run_actions_Cons) (auto simp: bind_eq_Some_conv)
  have "books tcp (ev @ action_events act) g1"
  proof (cases act)
    case (HandleEvent inputs e)
    with g1(1) books_event [OF Cons.prems(1)] show ?thesis by (auto simp: bind_eq_Some_conv)
  next
    case (FlushCache input)
    with g1(1) books_flush [OF Cons.prems(1)] show ?thesis by auto
  qed
  from Cons.IH [OF this g1(2)] show ?case by simp
qed simp

section \<open>The program\<close>

lemma book_counters_main [simp]:
  "book_counters (set_serial_worker_count n mt) = book_counters mt"
  "book_counters (set_device_counts a b mt) = book_counters mt"
  by (simp_all add: book_counters_def device_counters_def mqtt_counters_def tcp_total_def metric_defs)

lemma books_observe:
  assumes "books tcp ev (pr_gateway p)"
  shows "books tcp ev (pr_gateway (observe_devices now p))"
proof (cases "rp_metrics (gw_mqtt (pr_gateway p))")
  case (Some mt)
  obtain mt' st' where upd: "update_device_observability now (pr_devices p) (mt, pr_status p) = (mt', st')" by fastforce
  then have "book_counters mt' = book_counters mt"
    by (auto simp: update_device_observability_def Let_def)
  with assms Some upd show ?thesis
    by (intro books_same [OF assms]) (simp_all add: observe_devices_def gw_update_metrics_def update_metrics_def)
qed (use assms in \<open>simp add: observe_devices_def\<close>)

lemma books_fold_write [simp]: "books tcp ev (fold gw_write lines g) = books tcp ev g"
  by (induction lines arbitrary: g) simp_all

lemma books_repeat_write [simp]: "books tcp ev ((gw_write line ^^ n) g) = books tcp ev g"
  by (induction n) simp_all

lemma books_tcp: "books tcp ev (g\<lparr>gw_tcp := c\<rparr>) = books tcp ev g"
  by (simp add: books_def tcp_results_def)

lemma books_main_step:
  assumes "books tcp ev (pr_gateway p)" "main_step eng cfg serial_devices input p = Some p'"
  shows "books tcp ev (pr_gateway p')"
proof (cases "pr_phase p")
  case Announce
  let ?p = "p\<lparr>pr_gateway := gw_write (LogInfo ''serial'' (''worker count='' @ nat_to_dec (length serial_devices)))
    (gw_write (LogInfo ''device'' (''input count='' @ nat_to_dec (input_count cfg serial_devices))) (pr_gateway p))\<rparr>"
  have "books tcp ev (pr_gateway (observe_devices (mi_unix_seconds input) ?p))"
    using assms(1) by (intro books_observe) simp
  from books_update [OF this, of "set_serial_worker_count (of_nat (length serial_devices))"] assms(2) Announce
  show ?thesis by (auto simp: main_step_def announce_def Let_def)
qed (use assms books_observe [OF assms(1)] books_flush [OF assms(1)] in
    \<open>auto simp: main_step_def await_uart_def books_tcp Let_def split: if_splits\<close>)

lemma books_start:
  assumes "run_gateway_start eng cfg serial_devices input st (runtime_metrics_new t) signals log = Inr p"
  shows "books (tcpc_enabled (cfg_tcp cfg)) [] (pr_gateway p)"
proof -
  obtain cache http where made: "make_message_cache eng (gs_sqlite input) (gs_cache_file input) (cfg_cache cfg) = Inr cache"
      and http: "start_http (cfg_http cfg) (gs_http input) = Inr http"
    using assms by (auto simp: run_gateway_start_def Let_def split: sum.splits)
  have "books (tcpc_enabled (cfg_tcp cfg)) [] (new_gateway eng cfg input cache (runtime_metrics_new t) log)"
    by (auto simp: books_def new_gateway_def reliable_publisher_new_def measure_cache_def ledger_def attempt_counts_def
        mqtt_counters_def counted_def tcp_total_def tcp_results_def runtime_metrics_new_def set_cache_depth_def Let_def
        split: prod.split)
  with assms made http show ?thesis
    by (auto simp: run_gateway_start_def Let_def intro!: books_flush)
qed

lemma books_run:
  "gateway_run eng cfg serial_devices env_ok p0 p ev \<Longrightarrow> books tcp [] (pr_gateway p0) \<Longrightarrow> books tcp ev (pr_gateway p)"
proof (induction rule: gateway_run.induct)
  case (run_worker p ev i input evs m' inputs g')
  from books_actions [OF run_worker.IH [OF run_worker.prems] run_worker.hyps(5)] have "books tcp (ev @ evs) g'"
    by (simp only: handler_events [OF run_worker.hyps(3)])
  then show ?case by simp
next
  case (run_main p ev input p')
  then show ?case using books_main_step by blast
next
  case (run_network p ev callback)
  then show ?case by (simp add: books_def network_event_def ledger_def tcp_results_def)
qed simp_all

lemma program_books:
  assumes "gateway_main kVersion y inet_pton eng env args = Started cfg logger serial_devices p0"
    and "gateway_run eng cfg serial_devices env_ok p0 p ev"
  shows "books (tcpc_enabled (cfg_tcp cfg)) ev (pr_gateway p)"
proof -
  obtain st mt signals log where "run_gateway_start eng cfg serial_devices (me_start env) st mt signals log = Inr p0"
      "mt = runtime_metrics_new (me_steady_seconds env)"
    using main_started [OF assms(1)] .
  then show ?thesis by (intro books_run [OF assms(2)] books_start) simp
qed

end
