(* ===== verification/Spec2Isabelle.thy ===== *)
theory Spec2Isabelle
  imports Accounting
begin

text \<open>
  A verification of linux-iot-edge-gateway, a C++17 program that reads sensor data from serial
  lines, a Modbus RTU slave and a CAN bus, checks the readings, and publishes them as JSON over
  MQTT with an offline cache and over TCP. All paths below are relative to \<^verbatim>\<open>src/src\<close>.

  \<^bold>\<open>How the program works.\<close> The bytes of a serial line go through a frame parser over a ring
  buffer; Modbus answers and CAN frames have their own decoders. Three device classes put a
  status around them. The device manager runs one worker thread per device, which starts the
  device, reads it in a loop, and calls one of two handlers in \<^verbatim>\<open>main.cpp\<close>. The data handler
  publishes a valid reading on every channel: a reliable MQTT publisher, which stores what the
  broker does not acknowledge, and a TCP line publisher. The error handler counts. The main loop
  replays the offline cache at intervals and updates the monitoring view, which an HTTP server
  shows as health report, readiness report and Prometheus metrics, until a signal ends it; then the
  parts are stopped one after the other.

  \<^bold>\<open>Theories and sources.\<close>
  \<^item> \<open>Prelude\<close>: machine words, big-endian fields, decimal printing, lines of text.
  \<^item> \<open>Crc16\<close> (\<^verbatim>\<open>protocol/crc16.cpp\<close>), \<open>ByteRingBuffer\<close> (\<^verbatim>\<open>protocol/byte_ring_buffer.h\<close>), \<open>FrameParser\<close>
    (\<^verbatim>\<open>protocol/frame_parser.cpp\<close>): checksum, ring buffer with its exceptions, the streaming parser
    with its counters. The specification is the leftmost-frame reading of a byte stream; the parser
    refines it, independent of how the stream is cut, never overflows its buffer,
    resynchronises, and rejects damaged frames.
  \<^item> \<open>Double\<close>, \<open>SensorData\<close> (\<^verbatim>\<open>app/sensor_data.cpp\<close>): decoding, range checks and JSON. Doubles are exact
    binary fractions with IEEE rounding of the one division the code makes; the text shows the
    transmitted tenths exactly.
  \<^item> \<open>Posix\<close>, \<open>SerialPort\<close> (\<^verbatim>\<open>device/serial_port.cpp\<close>), \<open>ModbusRtu\<close> (\<^verbatim>\<open>modbus/modbus_rtu.cpp\<close>), \<open>CanBus\<close>
    (\<^verbatim>\<open>can/can_parser.cpp\<close>, \<^verbatim>\<open>can/socketcan_device.cpp\<close>): the transports and codecs.
  \<^item> \<open>DeviceInterface\<close> (\<^verbatim>\<open>device/device_interface.h\<close>, \<^verbatim>\<open>device/device_data.cpp\<close>): the virtual functions as a
    record, their laws as the locale \<open>device_interface\<close>; interpreted by \<open>UartDevice\<close>, \<open>ModbusDevice\<close>,
    \<open>CanDevice\<close> (\<^verbatim>\<open>device/*_device.cpp\<close>) and, over all three, by \<open>Devices\<close>.
  \<^item> \<open>DeviceManager\<close> (\<^verbatim>\<open>device/device_manager.cpp\<close>): worker loop, start, stop, heartbeat view; the relation
    \<open>manager_reach\<close> interleaves the workers pass by pass. Its lemmas are proved in the two locales
    \<open>device_interface\<close> and \<open>device_readings\<close>.
  \<^item> \<open>Metrics\<close>, \<open>RuntimeStatus\<close> (\<^verbatim>\<open>app/runtime_metrics.cpp\<close>, \<^verbatim>\<open>app/runtime_status.cpp\<close>), \<open>HttpServer\<close>
    (\<^verbatim>\<open>http/http_server.cpp\<close>): monitoring; what a scraper and an HTTP client read.
  \<^item> \<open>MessageCache\<close> (\<^verbatim>\<open>cache/message_cache.h\<close>): the cache contract as the locale \<open>message_cache\<close>,
    interpreted by \<open>FileCache\<close> (\<^verbatim>\<open>cache/file_cache.cpp\<close>) and, for every engine that keeps the laws of
    the locale \<open>sqlite_engine_laws\<close>, by \<open>SqliteCache\<close> (\<^verbatim>\<open>cache/sqlite_cache.cpp\<close>), with a table in memory as
    concrete engine. \<open>ReliablePublisher\<close> (\<^verbatim>\<open>mqtt/reliable_publisher.cpp\<close>) is proved in the locale
    \<open>publisher_over_cache\<close>, which extends the contract.
  \<^item> \<open>MqttClient\<close> (\<^verbatim>\<open>mqtt/mqtt_client.cpp\<close>), \<open>TcpClient\<close> (\<^verbatim>\<open>tcp/tcp_client.cpp\<close>, \<^verbatim>\<open>publisher/*.cpp\<close>),
    \<open>GatewayConfig\<close> (\<^verbatim>\<open>config/gateway_config.cpp\<close>): output channels and configuration.
  \<^item> \<open>Logger\<close> (\<^verbatim>\<open>log/logger.cpp\<close>): levels as a linear order, time stamps, console and file.
    \<open>ShutdownSignal\<close> (\<^verbatim>\<open>app/shutdown_signal.cpp\<close>): the flag, its handlers and the wait of the main loop.
  \<^item> \<open>Gateway\<close> (\<^verbatim>\<open>main.cpp\<close>): the handlers, the devices and options built from the configuration, the
    monitoring update; the locale \<open>storing_cache\<close> has what the gateway keeps over any cache that stores its
    messages. \<open>SqliteGateway\<close> and \<open>AnyCache\<close> show that the SQLite cache over a working engine, and the pointer
    to either cache in \<open>run_gateway\<close>, are such caches. \<open>GatewayMain\<close>: \<open>run_gateway\<close> and \<open>main\<close>; the relation
    \<open>gateway_run\<close> interleaves the main thread, the workers, the callbacks of the MQTT library and the signals.
    \<open>Accounting\<close>: what every step adds to the counters of the program. \<open>GatewayExamples\<close> has concrete runs; this theory the properties of the whole.

  \<^bold>\<open>Conventions.\<close> A class is a record and each member function a definition on it. Exceptions and
  calls that have not returned are \<open>None\<close>; output parameters are part of the result. System calls
  and foreign libraries (POSIX, mosquitto, yaml-cpp, the clock) are arguments: an input record holds
  the answers they give, so a statement for all inputs covers all behaviours of the system. Bytes,
  counters and identifiers are words of their width and wrap; \<open>size_t\<close> values that count bytes
  or elements in memory are natural numbers. Loops that depend on the system consume lists of
  answers: a list that ends too early gives \<open>None\<close>, and the theorems that a call returns say how
  many answers are enough (for a Modbus read: 261 rounds, since an answer has at most 260 bytes
  and each round brings at least one or ends the loop, and 8 writes for 8 bytes).
  A handler and a flush are one step each, since the publishers hold a mutex for the whole call and
  the counters are atomic; only the log lines of two handlers may mix more freely in the program. The
  wait of the main loop is one step at the time it returns, since it touches nothing but the
  signal flag. Shutting down takes at most 27 steps of the main thread (20 attempts for the serial
  ports and 7 more), and five from the main loop.

  \<^bold>\<open>What the properties of this theory show.\<close> No valid reading and no message of an earlier run is lost
  between the device manager and the broker, over whole runs of the program; readiness and the
  running parts follow the phases of the program, and a signal ends it; every early end has its
  reason; the error counters are exactly what happened, apart from the idle Modbus reads they count
  as errors, and the publish counters exactly what the broker acknowledged and did not; the cache is replayed in order; the monitoring view is consistent; handlers return; a
  configuration with TLS is never connected without it.

  \<^bold>\<open>Not modelled.\<close> A stop of the manager during a running read call is not interleaved inside the call.
  The log lines of the serving thread of the monitoring server, and what the MQTT client, its
  publisher, the TCP client and the caches print on the console, are left out. Tests, scripts and
  deployment files are not part of the running program.

  \<^bold>\<open>Plan.\<close> The accounting of the cache depth over whole runs, the log lines of the serving
  thread, and a stop that interrupts a read call.
\<close>

section \<open>Properties of the whole gateway\<close>

text \<open>A program run with a CAN device, the SQLite cache and no TCP channel, from a small configuration file.\<close>

definition example_yaml :: "nat yaml_api" where
  "example_yaml = \<lparr>yaml_load_file = (\<lambda>_. Inr 0), yaml_is_map = (\<lambda>_. True), yaml_is_sequence = (\<lambda>n. n = 4),
     yaml_get = (\<lambda>n key. Inr (if n = 0 \<and> key = ''serial'' then Some 1 else if n = 0 \<and> key = ''can'' then Some 2
       else if n = 0 \<and> key = ''tcp'' then Some 3 else if n = 1 \<and> key = ''devices'' then Some 4
       else if n = 2 \<and> key = ''enabled'' then Some 5 else if n = 3 \<and> key = ''enabled'' then Some 6 else None)),
     yaml_bool = (\<lambda>n. Inr (n = 5)), yaml_int = (\<lambda>_. Inl []), yaml_string = (\<lambda>_. Inl []), yaml_strings = (\<lambda>_. Inr [])\<rparr>"

definition example_config :: gateway_config where
  "example_config = default_config\<lparr>cfg_serial := (cfg_serial default_config)\<lparr>sc_devices := []\<rparr>,
     cfg_can := (cfg_can default_config)\<lparr>cc_enabled := True\<rparr>, cfg_tcp := (cfg_tcp default_config)\<lparr>tcpc_enabled := False\<rparr>\<rparr>"

lemma example_config_loads: "load_gateway_config example_yaml (\<lambda>_. True) path default_config = Inr example_config"
proof -
  have "load_sections example_yaml 0 default_config = Inr example_config"
    by (simp add: load_sections_def with_section_def load_serial_def load_serial_devices_def load_can_def load_tcp_def
        load_if_present_def raising_def reject_if_def example_yaml_def example_config_def default_config_def)
  then show ?thesis
    by (simp add: load_gateway_config_def check_inputs_ok check_mqtt_ok check_outputs_ok raising_def reject_if_def
        input_config_valid_def mqtt_config_valid_def output_config_valid_def)
      (simp add: example_yaml_def example_config_def default_config_def)
qed

definition good_any :: "table_env any_cache_env" where
  "good_any = \<lparr>ae_file = good_env, ae_sqlite = good_table\<rparr>"

definition offline_flush :: "(mqtt_publish_input, table_env any_cache_env) flush_input" where
  "offline_flush = \<lparr>fi_load = good_any, fi_mqtt = (\<lambda>_. \<lparr>mp_accepted = False, mp_message_id = 0, mp_events = []\<rparr>),
     fi_remove = good_any\<rparr>"

definition example_main_env :: "table_env main_env" where
  "example_main_env = \<lparr>me_log = \<lparr>lo_mkdir = None, lo_open = Some []\<rparr>, me_steady_seconds = 0, me_sigaction = (\<lambda>_. None),
     me_start = \<lparr>gs_mosquitto = (\<lambda>_. True), gs_sqlite = good_init, gs_cache_file = None, gs_measure = good_any,
       gs_http = \<lparr>ha_socket = Inr 7, ha_inet_pton = (\<lambda>_. True), ha_bind = None, ha_listen = None, ha_getsockname = None,
         ha_thread = None\<rparr>,
       gs_flush = offline_flush, gs_unix_seconds = 1700000000, gs_signal = False\<rparr>\<rparr>"

abbreviation example_engine :: "(table_db, table_statement, table_env) sqlite_engine" where
  "example_engine \<equiv> table_engine stored_example"

lemma example_program_started_with:
  "\<exists>logger p. gateway_main ''1.0'' example_yaml (\<lambda>_. True) example_engine
        (example_main_env\<lparr>me_start := (me_start example_main_env)\<lparr>gs_signal := signal\<rparr>\<rparr>) [''gateway.yaml'']
      = Started example_config logger [] p \<and> \<not> gw_tcp_enabled (pr_gateway p)
    \<and> pr_phase p = Announce \<and> (shutdown_requested (pr_signals p) \<longleftrightarrow> signal)
    \<and> pr_devices p = manager_start 1700000000 (manager_add (CanDev (can_new ''can0'')) (device_manager_new 5))"
proof -
  have ready: "sqlite_is_ready (sqlite_cache_new example_engine good_init path)" for path
    by (simp add: sqlite_is_ready_def sqlite_cache_new_def sqlite_initialize_def good_init_def good_table_def
        table_engine_def execute_def)
  have "build_devices example_config [] = manager_add (CanDev (can_new ''can0'')) (device_manager_new 5)"
    by (simp add: build_devices_def example_config_def default_config_def)
  moreover have "\<not> hc_enabled (cfg_http example_config)" "cache_type (cfg_cache example_config) = ''sqlite''"
      "sc_devices (cfg_serial example_config) = []" "\<not> tcpc_enabled (cfg_tcp example_config)"
    by (simp_all add: example_config_def default_config_def)
  ultimately show ?thesis
    by (simp add: gateway_main_def example_config_loads install_shutdown_signal_handlers_def install_handler_def
        example_main_env_def run_gateway_start_def make_message_cache_def ready start_http_def gateway_flush_def
        new_gateway_def shutdown_requested_def signal_init_def Let_def)
qed

lemma example_program_starts:
  "\<exists>logger p. gateway_main ''1.0'' example_yaml (\<lambda>_. True) example_engine example_main_env [''gateway.yaml'']
      = Started example_config logger [] p \<and> \<not> gw_tcp_enabled (pr_gateway p) \<and> pr_phase p = Announce
    \<and> pr_devices p = manager_start 1700000000 (manager_add (CanDev (can_new ''can0'')) (device_manager_new 5))"
proof -
  have "example_main_env\<lparr>me_start := (me_start example_main_env)\<lparr>gs_signal := False\<rparr>\<rparr> = example_main_env"
    by (simp add: example_main_env_def)
  with example_program_started_with [of False] show ?thesis by auto
qed


lemma offline_reading_event:
  assumes "\<not> gw_tcp_enabled g"
  shows "\<exists>g'. run_actions mqtt_publish ops tp (map2 HandleEvent [[input]] [DataEvent data protocol]) g = Some g'"
  using handle_event_returns [of g "[input]" "DataEvent data protocol" mqtt_publish ops tp] assms
  by (auto simp: gateway_channels_def group_add_def)

lemma example_disk: "any_works table_works good_any" "any_clean good_any"
  by (simp_all add: any_works_def any_clean_def good_any_def file_works_def file_clean_def good_env_def table_works_def
      good_table_def)

lemma example_program_run:
  "\<exists>logger p0 p. gateway_main ''1.0'' example_yaml (\<lambda>_. True) example_engine example_main_env [''gateway.yaml'']
      = Started example_config logger [] p0
    \<and> gateway_run example_engine example_config [] (disk_ok (any_works table_works) any_clean) p0 p
        [DataEvent example_reading SocketCan]"
proof -
  obtain logger p0 where p0: "gateway_main ''1.0'' example_yaml (\<lambda>_. True) example_engine example_main_env [''gateway.yaml'']
        = Started example_config logger [] p0" "\<not> gw_tcp_enabled (pr_gateway p0)"
      and devs: "pr_devices p0 = manager_start 1700000000 (manager_add (CanDev (can_new ''can0'')) (device_manager_new 5))"
    using example_program_starts by blast
  let ?in = "\<lparr>ch_mqtt = \<lparr>pi_mqtt = \<lparr>mp_accepted = False, mp_message_id = 0, mp_events = []\<rparr>, pi_append = good_any, pi_load = good_any\<rparr>,
    ch_tcp = example_send\<rparr>" and ?ev = "DataEvent example_reading SocketCan"
  obtain m where turn: "worker_turn any_ops 0 (example_turn 0) (pr_devices p0) = Some ([?ev], m)"
    using example_can_turn unfolding devs by blast
  obtain g' where handled: "run_actions mqtt_publish (any_cache_ops example_engine) (qc_topic_prefix (cfg_mqtt example_config))
      (map2 HandleEvent [[?in]] [?ev]) (pr_gateway p0) = Some g'"
    using offline_reading_event [OF p0(2)] by blast
  have "gateway_run example_engine example_config [] (disk_ok (any_works table_works) any_clean) p0
      (p0\<lparr>pr_devices := m, pr_gateway := g'\<rparr>) [?ev]"
    using run_worker [OF run_started turn _ _ handled] example_disk by simp
  with p0(1) show ?thesis by blast
qed


text \<open>
  C2: the life cycle of the program. In every run, at every moment: readiness is reported exactly from
  the time the inputs have been announced until shutdown begins, and throughout that time the
  device manager runs and the monitoring server, if configured, serves; shutdown only begins after a
  signal; the monitoring server stops before the devices. Once \<open>run_gateway\<close> has returned, no worker
  is left, every device is offline, the server is stopped and the TCP connection is closed.
\<close>

theorem program_lifecycle:
  assumes "gateway_main kVersion y inet_pton eng env args = Started cfg logger serial_devices p0"
    and "gateway_run eng cfg serial_devices env_ok p0 p ev"
  shows "(ready (pr_status p) \<longleftrightarrow> pr_phase p \<in> {Waiting, Flushing, Observing, Leaving})
    \<and> (pr_phase p \<in> shutting_down \<longrightarrow> shutdown_requested (pr_signals p))
    \<and> (ready (pr_status p) \<longrightarrow> running (pr_devices p)
         \<and> (case pr_http p of None \<Rightarrow> \<not> hc_enabled (cfg_http cfg) | Some server \<Rightarrow> hs_running server))
    \<and> (pr_phase p = Returned \<longrightarrow> \<not> ready (pr_status p) \<and> workers (pr_devices p) = []
         \<and> list_all (\<lambda>d. \<not> ds_online (any_status d)) (devices (pr_devices p))
         \<and> (\<forall>server. pr_http p = Some server \<longrightarrow> \<not> hs_running server)
         \<and> \<not> tcp_is_connected (gw_tcp (pr_gateway p)))"
proof -
  obtain st mt signals log where start: "run_gateway_start eng cfg serial_devices (me_start env) st mt signals log = Inr p0"
      "config_loaded st" "\<not> serial_workers_started st"
    using main_started [OF assms(1)] .
  have life: "lifecycle cfg p"
    using gateway_run_lifecycle [OF assms(2) start_lifecycle [OF start]] .
  have "manager_ok any_ops any_invar (pr_devices p) ev"
    using gateway_manager_ok [OF gateway_run_reach [OF assms(2) start_reach [OF start(1)]]] .
  then have "workers (pr_devices p) = []" "list_all (\<lambda>d. \<not> ds_online (any_status d)) (devices (pr_devices p))"
    if "\<not> running (pr_devices p)"
    using that by (auto simp: manager_ok_def worker_ok_def list_all_iff)
  with life show ?thesis
    unfolding lifecycle_def by (cases "pr_phase p"; cases "pr_http p") simp_all
qed

theorem program_lifecycle_witness:
  "\<exists>logger p0. gateway_main ''1.0'' example_yaml (\<lambda>_. True) example_engine example_main_env [''gateway.yaml'']
      = Started example_config logger [] p0 \<and> \<not> ready (pr_status p0)"
proof -
  obtain logger p0 where p0: "gateway_main ''1.0'' example_yaml (\<lambda>_. True) example_engine example_main_env [''gateway.yaml'']
        = Started example_config logger [] p0" "pr_phase p0 = Announce"
    using example_program_starts by blast
  have "\<not> ready (pr_status p0)"
    using program_lifecycle [OF p0(1) run_started] p0(2) by simp
  with p0(1) show ?thesis by blast
qed


definition example_main_input :: "table_env main_input" where
  "example_main_input = \<lparr>mi_unix_seconds = 1700000100, mi_wait = example_wait True, mi_flush = offline_flush\<rparr>"





text \<open>
  C5: the error metrics. After any run of the gateway on the events of the device manager, the
  counters of the input side are exactly what the events amount to: frames parsed, frames
  rejected, checksum and length errors, errors per protocol. The number of protocol errors is
  the number of errors counted by all devices, plus the readings out of range, plus one for every
  read call of a Modbus device that was made before its next poll was due, although such a call
  is no error.
\<close>

theorem gateway_error_metrics:
  assumes "manager_reach any_ops new_device m (concat (map action_events acts))"
    and "run_actions pub ops topic_prefix acts g = Some g'" and "rp_metrics (gw_mqtt g) = Some mt"
  shows "\<exists>mt'. rp_metrics (gw_mqtt g') = Some mt' \<and> counted (concat (map action_events acts)) mt mt'
    \<and> mt_protocol_error_total mt' = mt_protocol_error_total mt + total_errors any_ops (devices m)
        + of_nat (length (filter idle_timeout (concat (map action_events acts))))
        + of_nat (length (invalid_data (concat (map action_events acts))))"
proof -
  obtain mt' where mt': "rp_metrics (gw_mqtt g') = Some mt'" "counted (concat (map action_events acts)) mt mt'"
    using run_actions_counted [OF assms(2,3)] by blast
  have "total_errors any_ops (devices m) = of_nat (sum_list (map event_errors (concat (map action_events acts))))"
    using gateway_manager_ok [OF assms(1)] by (simp add: manager_ok_def)
  with mt' protocol_count_events [OF manager_reach_reportable [OF assms(1)]] show ?thesis
    by (auto simp: counted_def)
qed

theorem gateway_error_metrics_witness:
  "\<exists>m g' mt'. manager_reach any_ops new_device m
      [ErrorEvent ModbusRtu Timeout ''Modbus response timeout'' no_error_stats,
       ErrorEvent ModbusRtu Timeout [] no_error_stats]
    \<and> run_actions broker file_ops ''sensor''
      [HandleEvent [] (ErrorEvent ModbusRtu Timeout ''Modbus response timeout'' no_error_stats),
       HandleEvent [] (ErrorEvent ModbusRtu Timeout [] no_error_stats)] example_gateway = Some g'
    \<and> rp_metrics (gw_mqtt g') = Some mt' \<and> mt_protocol_error_total mt' = total_errors any_ops (devices m) + 1
    \<and> mt_modbus_error_total mt' = 2"
proof -
  let ?acts = "[HandleEvent [] (ErrorEvent ModbusRtu Timeout ''Modbus response timeout'' no_error_stats),
    HandleEvent [] (ErrorEvent ModbusRtu Timeout [] no_error_stats)] :: (bool, file_env) gateway_action list"
  obtain m where reach: "manager_reach any_ops new_device m (concat (map action_events ?acts))"
    using example_modbus_events by auto
  obtain g' where run: "run_actions broker file_ops ''sensor'' ?acts example_gateway = Some g'" by simp
  obtain mt' where mt': "rp_metrics (gw_mqtt g') = Some mt'"
      "counted (concat (map action_events ?acts)) (runtime_metrics_new 0) mt'"
      "mt_protocol_error_total mt' = mt_protocol_error_total (runtime_metrics_new 0) + total_errors any_ops (devices m)
        + of_nat (length (filter idle_timeout (concat (map action_events ?acts))))
        + of_nat (length (invalid_data (concat (map action_events ?acts))))"
    using gateway_error_metrics [OF reach run, of "runtime_metrics_new 0"] by auto
  from mt'(2) have "mt_modbus_error_total mt' = 2"
    by (simp add: counted_def error_count_of_def handler_count_def runtime_metrics_new_def)
  moreover from mt'(3) have "mt_protocol_error_total mt' = total_errors any_ops (devices m) + 1"
    by (simp add: runtime_metrics_new_def)
  moreover have "manager_reach any_ops new_device m
      [ErrorEvent ModbusRtu Timeout ''Modbus response timeout'' no_error_stats,
       ErrorEvent ModbusRtu Timeout [] no_error_stats]" using reach by simp
  ultimately show ?thesis using run mt'(1)
    by (intro exI [of _ m] exI [of _ g'] exI [of _ mt'] conjI)
qed

text \<open>
  C6: the publish metrics. At every moment of every run of the program, the MQTT counters are exactly
  the number of publish calls the broker acknowledged and of those it did not, live readings
  and replayed messages alike; and with the TCP channel enabled its two counters together are the
  number of valid readings handed over, one result for each, while without it they stay zero.
\<close>

theorem program_publish_counters:
  assumes "gateway_main kVersion y inet_pton eng env args = Started cfg logger serial_devices p0"
    and "gateway_run eng cfg serial_devices env_ok p0 p ev"
  defines "calls \<equiv> rp_attempts (gw_mqtt (pr_gateway p))"
  shows "\<exists>mt. rp_metrics (gw_mqtt (pr_gateway p)) = Some mt
    \<and> mt_mqtt_publish_success_total mt = of_nat (length (filter snd calls))
    \<and> mt_mqtt_publish_failed_total mt = of_nat (length (filter (\<lambda>a. \<not> snd a) calls))
    \<and> mt_tcp_publish_success_total mt + mt_tcp_publish_failed_total mt
        = (if tcpc_enabled (cfg_tcp cfg) then of_nat (length (valid_data ev)) else 0)"
  using program_books [OF assms(1,2)]
  by (auto simp: books_def ledger_def mqtt_counters_def attempt_counts_def tcp_total_def tcp_results_def calls_def)

theorem program_publish_counters_witness:
  "\<exists>logger p0 p mt. gateway_main ''1.0'' example_yaml (\<lambda>_. True) example_engine example_main_env [''gateway.yaml'']
      = Started example_config logger [] p0
    \<and> gateway_run example_engine example_config [] (disk_ok (any_works table_works) any_clean) p0 p
        [DataEvent example_reading SocketCan]
    \<and> rp_metrics (gw_mqtt (pr_gateway p)) = Some mt
    \<and> mt_mqtt_publish_failed_total mt = of_nat (length (filter (\<lambda>a. \<not> snd a) (rp_attempts (gw_mqtt (pr_gateway p)))))
    \<and> mt_tcp_publish_success_total mt + mt_tcp_publish_failed_total mt = 0"
proof -
  obtain logger p0 p where p0: "gateway_main ''1.0'' example_yaml (\<lambda>_. True) example_engine example_main_env [''gateway.yaml'']
        = Started example_config logger [] p0"
      and run: "gateway_run example_engine example_config [] (disk_ok (any_works table_works) any_clean) p0 p
        [DataEvent example_reading SocketCan]"
    using example_program_run by blast
  have "\<not> tcpc_enabled (cfg_tcp example_config)" by (simp add: example_config_def)
  with program_publish_counters [OF p0 run] p0 run show ?thesis by auto
qed



lemma observability_update:
  assumes "length (devices m) < 2 ^ 64" "update_device_observability now m (mt, st) = (mt', st')"
  shows "unat (mt_device_online_total mt') = online_count any_ops now m"
    and "unat (mt_device_offline_total mt') = length (devices m) - online_count any_ops now m"
    and "online_count any_ops now m \<le> length (devices m)"
    and "unat (input_device_count st') = length (devices m)"
    and "device_statuses st' = map health_of (statuses any_ops now m)"
proof -
  have len: "length (statuses any_ops now m) = length (devices m)" by (simp add: statuses_def)
  have le: "online_count any_ops now m \<le> length (devices m)"
    unfolding online_count_def using length_filter_le [of ds_online "statuses any_ops now m"] len by simp
  then show "online_count any_ops now m \<le> length (devices m)" .
  let ?n = "length (devices m)" and ?o = "online_count any_ops now m"
  have u: "unat (of_nat k :: u64) = k" if "k \<le> ?n" for k
    using that assms(1) by (simp add: unsigned_of_nat take_bit_nat_eq_self)
  have eqs: "mt_device_online_total mt' = of_nat ?o" "mt_device_offline_total mt' = of_nat ?n - of_nat ?o"
      "input_device_count st' = of_nat ?n" "device_statuses st' = map health_of (statuses any_ops now m)"
    using assms(2) len
    by (auto simp: update_device_observability_def Let_def metric_defs status_defs online_count_def)
  have off: "(of_nat ?n - of_nat ?o :: u64) = of_nat (?n - ?o)"
    using le by (rule of_nat_diff [symmetric])
  show "unat (mt_device_online_total mt') = ?o" unfolding eqs(1) by (rule u [OF le])
  show "unat (mt_device_offline_total mt') = ?n - ?o" unfolding eqs(2) off by (rule u) simp
  show "unat (input_device_count st') = ?n" unfolding eqs(3) by (rule u) simp
  show "device_statuses st' = map health_of (statuses any_ops now m)" by (rule eqs(4))
qed



text \<open>
  Handling an event ends. Whatever the MQTT client and the cache do, the handler of an event
  returns; with the TCP channel enabled it does so when \<open>send\<close> gets as many uninterrupted calls as
  the line has characters.
\<close>

theorem gateway_handles_every_event:
  assumes "length (gateway_channels g) \<le> length inputs"
    and "gw_tcp_enabled g \<Longrightarrow> list_all (\<lambda>data. sends_enough (sensor_data_to_json data) (inputs ! 1)) (event_data ev)"
  shows "\<exists>g'. handle_manager_event pub ops topic_prefix inputs ev g = Some g'"
  using assms by (rule handle_event_returns)

theorem gateway_handles_every_event_witness:
  "\<exists>g'. handle_manager_event broker file_ops ''sensor'' [example_input False]
     (DataEvent example_reading SocketCan) example_gateway = Some g'"
  by (rule gateway_handles_every_event) (simp_all add: gateway_channels_def group_add_def)




definition two_registers :: modbus_config where
  "two_registers = (cfg_modbus default_config)\<lparr>mc_enabled := True, mc_port := ''/dev/ttyUSB1'', mc_register_count := 2\<rparr>"


end
